(* ===== verification/Prelude.thy ===== *)
theory Prelude
  imports Complex_Main
begin

text \<open>
  Shared vocabulary of the development: the result of a Python call that may raise, database
  tables as lists of rows with the SQL statements the stores issue on them, transactions that
  roll back when an exception escapes, and reachability under a step relation.

  A Python \<open>str\<close> is modelled by its UTF-8 bytes and a \<open>bytes\<close> object by its bytes, both as
  \<open>string\<close> (a list of 8-bit characters). A \<open>float\<close> point in time is a \<open>real\<close>. Every operation
  reads the clock once: its parameter \<open>now\<close> stands for all calls of \<open>time.time()\<close> it makes.
\<close>

section \<open>Values, exceptions, transactions\<close>

type_synonym time = real

text \<open>What a text stands for, where several stand in one argument list.\<close>

type_synonym approval_id = string
type_synonym digest = string
type_synonym display_text = string

text \<open>
  The exceptions that the modelled code raises and that a caller can tell apart. The text of a
  \<open>ValueError\<close> is given without the \<open>repr\<close> of the offending value, which no caller reads.
\<close>

datatype exn =
    ValueError string
  | AttributeError
  | TypeError
  | KeyError
  | IntegrityError
  | StoreError string
  | IllegalTransition string
  | ConcurrentTransition string
  | ExecutionBypassError
  | ApprovalLimitError
  | ProtocolError string
  | PreauthorizationError string
  | CredentialRefused string
  | ScheduleError string

text \<open>\<open>type(exc).__name__\<close>, and \<open>str(exc)\<close> for those that carry a text.\<close>

fun exn_name :: "exn \<Rightarrow> string" where
  "exn_name (ValueError _) = ''ValueError''"
| "exn_name AttributeError = ''AttributeError''"
| "exn_name TypeError = ''TypeError''"
| "exn_name KeyError = ''KeyError''"
| "exn_name IntegrityError = ''IntegrityError''"
| "exn_name (StoreError _) = ''ApprovalStoreError''"
| "exn_name (IllegalTransition _) = ''IllegalTransition''"
| "exn_name (ConcurrentTransition _) = ''ConcurrentTransition''"
| "exn_name ExecutionBypassError = ''ExecutionBypassError''"
| "exn_name ApprovalLimitError = ''ApprovalLimitError''"
| "exn_name (ProtocolError _) = ''ProtocolError''"
| "exn_name (PreauthorizationError _) = ''PreauthorizationError''"
| "exn_name (CredentialRefused _) = ''CredentialRefused''"
| "exn_name (ScheduleError _) = ''ScheduleError''"

fun exn_text :: "exn \<Rightarrow> string" where
  "exn_text (ValueError m) = m"
| "exn_text (StoreError m) = m"
| "exn_text (IllegalTransition m) = m"
| "exn_text (ConcurrentTransition m) = m"
| "exn_text (ProtocolError m) = m"
| "exn_text (PreauthorizationError m) = m"
| "exn_text (CredentialRefused m) = m"
| "exn_text (ScheduleError m) = m"
| "exn_text _ = []"

type_synonym 'a result = "exn + 'a"

text \<open>
  \<open>BEGIN IMMEDIATE ... COMMIT\<close> with \<open>except BaseException: ROLLBACK; raise\<close>: the body works on a
  copy of the state; an exception leaves the state it started from.
\<close>

definition atomically :: "'s \<Rightarrow> ('a \<times> 's) result \<Rightarrow> 'a result \<times> 's" where
  "atomically s body = (case body of Inl e \<Rightarrow> (Inl e, s) | Inr (a, s') \<Rightarrow> (Inr a, s'))"

lemma atomically_Inl [simp]: "atomically s (Inl e) = (Inl e, s)"
  by (simp add: atomically_def)

lemma atomically_Inr [simp]: "atomically s (Inr (a, s')) = (Inr a, s')"
  by (simp add: atomically_def)

lemma atomically_Inr_iff: "atomically s b = (Inr a, s') \<longleftrightarrow> b = Inr (a, s')"
  by (auto simp: atomically_def split: sum.splits)

lemma atomically_Inl_iff: "atomically s b = (Inl e, s') \<longleftrightarrow> b = Inl e \<and> s' = s"
  by (auto simp: atomically_def split: sum.splits)

lemma atomically_snd:
  "P s \<Longrightarrow> (\<And>a s'. b = Inr (a, s') \<Longrightarrow> P s') \<Longrightarrow> P (snd (atomically s b))"
  by (auto simp: atomically_def split: sum.splits)

text \<open>Python's \<open>x or ""\<close> on a column that may be NULL, and SQL's \<open>COALESCE\<close>.\<close>

fun or_empty :: "string option \<Rightarrow> string" where
  "or_empty None = []"
| "or_empty (Some s) = s"

fun coalesce :: "'a option \<Rightarrow> 'a option \<Rightarrow> 'a option" where
  "coalesce None b = b"
| "coalesce (Some a) _ = Some a"

text \<open>Truthiness of a nullable string: \<open>if x:\<close> is false for NULL and for the empty string.\<close>

definition truthy :: "string option \<Rightarrow> bool" where
  "truthy v \<longleftrightarrow> or_empty v \<noteq> []"

lemma truthy_iff: "truthy v \<longleftrightarrow> (\<exists>x. v = Some x \<and> x \<noteq> [])"
  by (cases v) (auto simp: truthy_def)

lemma truthy_simps [simp]: "\<not> truthy None" "truthy (Some x) \<longleftrightarrow> x \<noteq> []"
  by (auto simp: truthy_def)

section \<open>Tables\<close>

text \<open>
  A table is the list of its rows in insertion order. \<open>select_one\<close> is \<open>SELECT ... fetchone()\<close>,
  \<open>update_where p f\<close> is \<open>UPDATE ... SET f WHERE p\<close>, \<open>rowcount\<close> the number of rows such a
  statement touches, and \<open>insert_pk\<close> an \<open>INSERT\<close> into a table with primary key \<open>key\<close>.
\<close>

named_theorems table_simps \<open>how lookups and keys behave under the SQL statements\<close>

definition select_one :: "('r \<Rightarrow> bool) \<Rightarrow> 'r list \<Rightarrow> 'r option" where
  "select_one p t = List.find p t"

definition update_where :: "('r \<Rightarrow> bool) \<Rightarrow> ('r \<Rightarrow> 'r) \<Rightarrow> 'r list \<Rightarrow> 'r list" where
  "update_where p f t = map (\<lambda>r. if p r then f r else r) t"

definition rowcount :: "('r \<Rightarrow> bool) \<Rightarrow> 'r list \<Rightarrow> nat" where
  "rowcount p t = length (filter p t)"

definition insert_pk :: "('r \<Rightarrow> 'k) \<Rightarrow> 'r \<Rightarrow> 'r list \<Rightarrow> 'r list result" where
  "insert_pk key r t = (if key r \<in> set (map key t) then Inl IntegrityError else Inr (t @ [r]))"

definition by_key :: "('r \<Rightarrow> 'k) \<Rightarrow> 'k \<Rightarrow> 'r list \<Rightarrow> 'r option" where
  "by_key key k t = select_one (\<lambda>r. key r = k) t"

lemma find_map_invariant:
  "(\<And>x. P (g x) = P x) \<Longrightarrow> List.find P (map g xs) = map_option g (List.find P xs)"
  by (induction xs) auto

lemma by_key_Nil [simp]: "by_key key k [] = None"
  by (simp add: by_key_def select_one_def)

lemma by_key_Cons: "by_key key k (r # t) = (if key r = k then Some r else by_key key k t)"
  by (simp add: by_key_def select_one_def)

lemma by_key_SomeD: "by_key key k t = Some r \<Longrightarrow> r \<in> set t \<and> key r = k"
  by (induction t) (auto simp: by_key_Cons split: if_splits)

lemma by_key_None_iff: "by_key key k t = None \<longleftrightarrow> k \<notin> key ` set t"
  by (induction t) (auto simp: by_key_Cons)

lemma by_key_append:
  "by_key key k (t @ u) = (case by_key key k t of None \<Rightarrow> by_key key k u | Some r \<Rightarrow> Some r)"
  by (induction t) (auto simp: by_key_Cons)

lemma by_key_append_new: "key r \<notin> key ` set t \<Longrightarrow> by_key key (key r) (t @ [r]) = Some r"
  using by_key_None_iff [of key "key r" t] by (simp add: by_key_append by_key_Cons)

lemma by_key_append_other:
  "by_key key k t = Some r \<Longrightarrow> by_key key k (t @ u) = Some r"
  by (simp add: by_key_append)

lemma by_key_update_if:
  "(\<And>r. p r \<Longrightarrow> key (f r) = key r) \<Longrightarrow>
   by_key key k (update_where p f t) = map_option (\<lambda>r. if p r then f r else r) (by_key key k t)"
  unfolding by_key_def select_one_def update_where_def
  by (rule find_map_invariant) auto

lemma by_key_update [table_simps]:
  "(\<And>r. key (f r) = key r) \<Longrightarrow>
   by_key key k (update_where p f t) = map_option (\<lambda>r. if p r then f r else r) (by_key key k t)"
  unfolding by_key_def select_one_def update_where_def
  by (rule find_map_invariant) simp

lemma by_key_update_Some:
  "by_key key k t = Some r \<Longrightarrow> (\<And>r. key (f r) = key r) \<Longrightarrow>
   by_key key k (update_where p f t) = Some (if p r then f r else r)"
  by (simp add: by_key_update)

lemma update_where_id: "(\<And>r. r \<in> set t \<Longrightarrow> \<not> p r) \<Longrightarrow> update_where p f t = t"
  unfolding update_where_def by (rule map_idI) simp

lemma keys_update [table_simps]:
  "(\<And>r. key (f r) = key r) \<Longrightarrow> map key (update_where p f t) = map key t"
  by (induction t) (auto simp: update_where_def)

lemma set_update_where:
  "set (update_where p f t) = (\<lambda>r. if p r then f r else r) ` set t"
  by (simp add: update_where_def)

lemma length_update_where [simp]: "length (update_where p f t) = length t"
  by (simp add: update_where_def)

lemma by_key_unique:
  "distinct (map key t) \<Longrightarrow> r \<in> set t \<Longrightarrow> by_key key (key r) t = Some r"
  by (induction t) (auto simp: by_key_Cons rev_image_eqI)

lemma rowcount_key_le_1:
  "distinct (map key t) \<Longrightarrow> rowcount (\<lambda>r. key r = k \<and> q r) t \<le> 1"
proof (induction t)
  case (Cons r t)
  show ?case
  proof (cases "key r = k")
    case True
    with Cons.prems have "filter (\<lambda>r. key r = k \<and> q r) t = []"
      by (auto simp: filter_empty_conv rev_image_eqI)
    then show ?thesis by (simp add: rowcount_def)
  next
    case False
    with Cons show ?thesis by (simp add: rowcount_def)
  qed
qed (simp add: rowcount_def)

lemma rowcount_pos_iff: "0 < rowcount p t \<longleftrightarrow> (\<exists>r\<in>set t. p r)"
  by (auto simp: rowcount_def filter_empty_conv)

lemma rowcount_key_1:
  assumes "distinct (map key t)" and "by_key key k t = Some r" and "q r"
  shows "rowcount (\<lambda>r. key r = k \<and> q r) t = 1"
proof -
  have "r \<in> set t" "key r = k" using by_key_SomeD [OF assms(2)] by auto
  then have "0 < rowcount (\<lambda>r. key r = k \<and> q r) t"
    using assms(3) by (auto simp: rowcount_pos_iff)
  with rowcount_key_le_1 [OF assms(1), of k q] show ?thesis by simp
qed

lemma rowcount_1_by_key:
  assumes "distinct (map key t)" and "rowcount (\<lambda>r. key r = k \<and> q r) t = 1"
  shows "\<exists>r. by_key key k t = Some r \<and> q r"
proof -
  from assms(2) have "0 < rowcount (\<lambda>r. key r = k \<and> q r) t" by simp
  then obtain r where "r \<in> set t" "key r = k" "q r" by (auto simp: rowcount_pos_iff)
  with by_key_unique [OF assms(1)] show ?thesis by auto
qed

lemma insert_pk_Inr_iff:
  "insert_pk key r t = Inr t' \<longleftrightarrow> key r \<notin> key ` set t \<and> t' = t @ [r]"
  by (auto simp: insert_pk_def)

lemma insert_pk_distinct:
  "insert_pk key r t = Inr t' \<Longrightarrow> distinct (map key t) \<Longrightarrow> distinct (map key t')"
  by (auto simp: insert_pk_Inr_iff)

lemma by_key_insert:
  "insert_pk key r t = Inr t' \<Longrightarrow>
   by_key key k t' = (if k = key r then Some r else by_key key k t)"
proof -
  assume *: "insert_pk key r t = Inr t'"
  then have "by_key key (key r) t = None" and t': "t' = t @ [r]"
    by (auto simp: insert_pk_Inr_iff by_key_None_iff)
  then show ?thesis
    by (auto simp: by_key_append by_key_Cons split: option.split)
qed

text \<open>
  How the rows of a table may change: a row stays under its key and moves along \<open>rel\<close>. Rows are
  never deleted; new ones may come.
\<close>

definition table_evolves :: "('r \<Rightarrow> 'k) \<Rightarrow> ('r \<Rightarrow> 'r \<Rightarrow> bool) \<Rightarrow> 'r list \<Rightarrow> 'r list \<Rightarrow> bool" where
  "table_evolves key rel t u \<longleftrightarrow>
     (\<forall>k r. by_key key k t = Some r \<longrightarrow> (\<exists>r'. by_key key k u = Some r' \<and> rel r r'))"

lemma table_evolvesD:
  "table_evolves key rel t u \<Longrightarrow> by_key key k t = Some r \<Longrightarrow> \<exists>r'. by_key key k u = Some r' \<and> rel r r'"
  by (auto simp: table_evolves_def)

lemma table_evolves_refl: "(\<And>r. rel r r) \<Longrightarrow> table_evolves key rel t t"
  by (auto simp: table_evolves_def)

lemma table_evolves_trans:
  assumes "table_evolves key rel t u" "table_evolves key rel u v"
    and "\<And>a b c. rel a b \<Longrightarrow> rel b c \<Longrightarrow> rel a c"
  shows "table_evolves key rel t v"
  using assms by (fastforce simp: table_evolves_def)

lemma table_evolves_update:
  assumes "\<And>r. rel r r" and "\<And>r. p r \<Longrightarrow> key (f r) = key r"
    and "\<And>r. r \<in> set t \<Longrightarrow> p r \<Longrightarrow> rel r (f r)"
  shows "table_evolves key rel t (update_where p f t)"
proof -
  have "by_key key k (update_where p f t) = map_option (\<lambda>r. if p r then f r else r) (by_key key k t)"
    for k by (rule by_key_update_if) (rule assms(2))
  with assms(1,3) show ?thesis by (auto simp: table_evolves_def dest: by_key_SomeD)
qed

lemma table_evolves_append:
  assumes "\<And>r. rel r r" and "key r \<notin> key ` set t"
  shows "table_evolves key rel t (t @ [r])"
  using assms by (auto simp: table_evolves_def by_key_append)

section \<open>Reachability\<close>

text \<open>
  The states a component can get into: the reflexive transitive closure of its step relation
  from its initial state. \<open>invariant_system\<close> is the interface every component's invariant goes
  through: it holds at the start and every step keeps it.
\<close>

inductive reaches :: "('s \<Rightarrow> 's \<Rightarrow> bool) \<Rightarrow> 's \<Rightarrow> 's \<Rightarrow> bool" for step where
  start: "reaches step s s"
| extend: "reaches step s t \<Longrightarrow> step t u \<Longrightarrow> reaches step s u"

lemma reaches_trans: "reaches step t u \<Longrightarrow> reaches step s t \<Longrightarrow> reaches step s u"
  by (induction rule: reaches.induct) (auto intro: reaches.extend)

lemma reaches_one: "step s t \<Longrightarrow> reaches step s t"
  by (auto intro: reaches.intros)

locale invariant_system =
  fixes step :: "'s \<Rightarrow> 's \<Rightarrow> bool" and I :: "'s \<Rightarrow> bool"
  assumes step_keeps: "I s \<Longrightarrow> step s t \<Longrightarrow> I t"
begin

lemma reaches_keeps: "reaches step s t \<Longrightarrow> I s \<Longrightarrow> I t"
  by (induction rule: reaches.induct) (auto intro: step_keeps)

end

text \<open>
  A step relation whose steps respect a preorder \<open>R\<close> on states: so does every run. Used for what
  only ever grows (audit trails, revocations, terminal states).
\<close>

locale monotone_system =
  fixes step :: "'s \<Rightarrow> 's \<Rightarrow> bool" and I :: "'s \<Rightarrow> bool" and R :: "'s \<Rightarrow> 's \<Rightarrow> bool"
  assumes mono_refl: "R s s"
    and mono_trans: "R s t \<Longrightarrow> R t u \<Longrightarrow> R s u"
    and mono_inv: "I s \<Longrightarrow> step s t \<Longrightarrow> I t"
    and mono_step: "I s \<Longrightarrow> step s t \<Longrightarrow> R s t"
begin

sublocale inv: invariant_system step I
  by unfold_locales (rule mono_inv)

lemma reaches_mono: "reaches step s t \<Longrightarrow> I s \<Longrightarrow> R s t"
proof (induction rule: reaches.induct)
  case start
  show ?case by (rule mono_refl)
next
  case (extend s t u)
  have "I t" using inv.reaches_keeps [OF extend.hyps(1) extend.prems] .
  with extend show ?case by (blast intro: mono_trans mono_step)
qed

end

section \<open>State graphs\<close>

text \<open>
  A component with a table of allowed edges between lifecycle states. A terminal state has no
  outgoing edge, so nothing that follows the edges ever leaves one.
\<close>

locale state_graph =
  fixes edge :: "'s \<Rightarrow> 's \<Rightarrow> bool" and terminal :: "'s \<Rightarrow> bool"
  assumes terminal_no_edge: "terminal a \<Longrightarrow> \<not> edge a b"
begin

lemma terminal_stays: "reaches edge a b \<Longrightarrow> terminal a \<Longrightarrow> b = a"
  by (induction rule: reaches.induct) (auto dest: terminal_no_edge)

end

end
