(* ===== verification/Encoding.thy ===== *)
theory Encoding
  imports Prelude
begin

text \<open>
  Identities as text: hexadecimal and base64 as the mobile approval code uses them
  (\<open>crypto.py\<close>, \<open>app_attest.py\<close>, \<open>protocol.py\<close>), the canonical App Attest key identity, the
  device identifier allowlist (\<open>control.py\<close>), and the JSON text that the action digest is
  computed over (\<open>security/approval.py\<close>).

  SHA-256 is a parameter \<open>H\<close> from bytes to the 32 digest bytes. Nothing here needs more of it
  than being a function; where its length matters the lemma says so.
\<close>

section \<open>Hexadecimal\<close>

definition code :: "char \<Rightarrow> nat" where
  "code c = of_char c"

lemma code_lt [simp]: "code c < 256"
  by (simp add: code_def)

lemma char_of_code [simp]: "char_of (code c) = c"
  by (simp add: code_def)

lemma code_char_of: "n < 256 \<Longrightarrow> code (char_of n) = n"
  by (simp add: code_def)

text \<open>The first \<open>n\<close> code points of a text: a byte from 0x80 to 0xBF continues the point before it.\<close>

fun take_points :: "nat \<Rightarrow> string \<Rightarrow> string" where
  "take_points n [] = []"
| "take_points n (c # r) =
     (if 128 \<le> code c \<and> code c < 192 then c # take_points n r
      else case n of 0 \<Rightarrow> [] | Suc m \<Rightarrow> c # take_points m r)"

definition hex_digit :: "nat \<Rightarrow> char" where
  "hex_digit n = char_of (if n < 10 then 48 + n else 87 + n)"

definition hex_val :: "char \<Rightarrow> nat option" where
  "hex_val c = (let n = code c in
     if 48 \<le> n \<and> n \<le> 57 then Some (n - 48)
     else if 97 \<le> n \<and> n \<le> 102 then Some (n - 87)
     else if 65 \<le> n \<and> n \<le> 70 then Some (n - 55)
     else None)"

lemma hex_val_digit: "n < 16 \<Longrightarrow> hex_val (hex_digit n) = Some n"
  by (auto simp: hex_val_def hex_digit_def code_char_of Let_def)

text \<open>\<open>bytes.hex()\<close>.\<close>

fun to_hex :: "string \<Rightarrow> string" where
  "to_hex [] = []"
| "to_hex (c # cs) = hex_digit (code c div 16) # hex_digit (code c mod 16) # to_hex cs"

text \<open>ASCII whitespace, as \<open>bytes.fromhex\<close> skips it between two bytes.\<close>

definition ascii_space :: "char \<Rightarrow> bool" where
  "ascii_space c \<longleftrightarrow> (9 \<le> code c \<and> code c \<le> 13) \<or> code c = 32"

text \<open>\<open>bytes.fromhex(s)\<close>; \<open>None\<close> is the \<open>ValueError\<close>.\<close>

fun from_hex :: "string \<Rightarrow> string option" where
  "from_hex [] = Some []"
| "from_hex (c # cs) =
     (if ascii_space c then from_hex cs
      else case cs of [] \<Rightarrow> None
        | d # ds \<Rightarrow>
            (case (hex_val c, hex_val d) of
               (Some h, Some l) \<Rightarrow> map_option ((#) (char_of (16 * h + l))) (from_hex ds)
             | _ \<Rightarrow> None))"

lemma hex_digit_not_space: "n < 16 \<Longrightarrow> \<not> ascii_space (hex_digit n)"
  by (auto simp: ascii_space_def hex_digit_def code_char_of)

lemma from_hex_to_hex [simp]: "from_hex (to_hex bs) = Some bs"
proof (induction bs)
  case (Cons c cs)
  have "code c div 16 < 16" by (simp add: less_mult_imp_div_less)
  moreover have "16 * (code c div 16) + code c mod 16 = code c" by simp
  ultimately show ?case
    using Cons by (simp add: hex_digit_not_space hex_val_digit)
qed simp

section \<open>Base64\<close>

definition b64_char :: "nat \<Rightarrow> char" where
  "b64_char n = char_of (if n < 26 then 65 + n else if n < 52 then 71 + n
                         else if n < 62 then n - 4 else if n = 62 then 43 else 47)"

definition b64_val :: "char \<Rightarrow> nat option" where
  "b64_val c = (let n = code c in
     if 65 \<le> n \<and> n \<le> 90 then Some (n - 65)
     else if 97 \<le> n \<and> n \<le> 122 then Some (n - 71)
     else if 48 \<le> n \<and> n \<le> 57 then Some (n + 4)
     else if n = 43 then Some 62 else if n = 47 then Some 63 else None)"

lemma b64_val_char: "n < 64 \<Longrightarrow> b64_val (b64_char n) = Some n"
  by (auto simp: b64_val_def b64_char_def code_char_of Let_def)

lemma b64_val_lt: "b64_val c = Some v \<Longrightarrow> v < 64"
  by (auto simp: b64_val_def Let_def split: if_splits)

lemma b64_val_eq [simp]: "b64_val (CHR ''='') = None"
  by (simp add: b64_val_def code_def)

lemma b64_char_neq_pad: "n < 64 \<Longrightarrow> b64_char n \<noteq> CHR ''=''"
  using b64_val_char [of n] by auto

text \<open>\<open>base64.b64encode\<close>.\<close>

fun b64_encode :: "string \<Rightarrow> string" where
  "b64_encode [] = []"
| "b64_encode [a] =
     [b64_char (code a div 4), b64_char (code a mod 4 * 16), CHR ''='', CHR ''='']"
| "b64_encode [a, b] =
     [b64_char (code a div 4), b64_char (code a mod 4 * 16 + code b div 16),
      b64_char (code b mod 16 * 4), CHR ''='']"
| "b64_encode (a # b # c # rest) =
     b64_char (code a div 4) # b64_char (code a mod 4 * 16 + code b div 16) #
     b64_char (code b mod 16 * 4 + code c div 64) # b64_char (code c mod 64) #
     b64_encode rest"

text \<open>
  \<open>base64.b64decode(s, validate=True)\<close>; \<open>None\<close> is \<open>binascii.Error\<close>. The unused low bits of the
  last character before the padding are ignored, as in CPython's strict mode.
\<close>

fun b64_decode :: "string \<Rightarrow> string option" where
  "b64_decode [] = Some []"
| "b64_decode (p # q # r # s # rest) =
     (case (b64_val p, b64_val q) of
        (Some u, Some v) \<Rightarrow>
          (if r = CHR ''='' then
             (if s = CHR ''='' \<and> rest = [] then Some [char_of (4 * u + v div 16)] else None)
           else (case b64_val r of None \<Rightarrow> None | Some w \<Rightarrow>
             if s = CHR ''='' then
               (if rest = []
                then Some [char_of (4 * u + v div 16), char_of (v mod 16 * 16 + w div 4)]
                else None)
             else (case b64_val s of None \<Rightarrow> None | Some x \<Rightarrow>
               map_option (\<lambda>bs. char_of (4 * u + v div 16) #
                                char_of (v mod 16 * 16 + w div 4) #
                                char_of (w mod 4 * 64 + x) # bs) (b64_decode rest))))
      | _ \<Rightarrow> None)"
| "b64_decode _ = None"

lemma octet_parts [simp]:
  "code a div 4 < 64" "code b div 16 < 16" "code c div 64 < 4"
  "code b div 16 div 16 = 0" "code b div 16 mod 16 = code b div 16"
  "code c div 64 div 4 = 0" "code c div 64 mod 4 = code c div 64"
  using code_lt [of a] code_lt [of b] code_lt [of c]
  by (simp_all add: less_mult_imp_div_less div_mult2_eq [symmetric])

lemma sextets [simp]:
  "code a mod 4 * 16 + code b div 16 < 64" "code b mod 16 * 4 + code c div 64 < 64"
  "code a mod 4 * 16 < 64" "code b mod 16 * 4 < 64"
proof -
  have "code a mod 4 < 4" "code b mod 16 < 16" by simp_all
  moreover have "code b div 16 < 16" "code c div 64 < 4" by simp_all
  ultimately show "code a mod 4 * 16 + code b div 16 < 64"
    "code b mod 16 * 4 + code c div 64 < 64"
    "code a mod 4 * 16 < 64" "code b mod 16 * 4 < 64" by linarith+
qed

lemma b64_decode_encode: "b64_decode (b64_encode bs) = Some bs"
proof (induction bs rule: b64_encode.induct)
  case (4 a b c rest)
  then show ?case by (simp add: b64_val_char b64_char_neq_pad)
qed (simp_all add: b64_val_char b64_char_neq_pad)

lemma b64_encode_inj: "b64_encode xs = b64_encode ys \<Longrightarrow> xs = ys"
  by (metis b64_decode_encode option.inject)

section \<open>The App Attest key identity\<close>

text \<open>\<open>str.strip()\<close> and \<open>str.strip("\x00")\<close>.\<close>

definition str_space :: "char \<Rightarrow> bool" where
  "str_space c \<longleftrightarrow> (9 \<le> code c \<and> code c \<le> 13) \<or> (28 \<le> code c \<and> code c \<le> 32)"

definition strip_by :: "(char \<Rightarrow> bool) \<Rightarrow> string \<Rightarrow> string" where
  "strip_by p s = rev (dropWhile p (rev (dropWhile p s)))"

lemma dropWhile_hd: "\<not> p (hd s) \<Longrightarrow> dropWhile p s = s"
  by (cases s) auto

lemma strip_by_id: "\<not> p (hd s) \<Longrightarrow> \<not> p (last s) \<Longrightarrow> strip_by p s = s"
  by (cases "s = []") (simp_all add: strip_by_def dropWhile_hd hd_rev)

definition APP_ATTEST_KEY_ID_BYTES :: nat where
  "APP_ATTEST_KEY_ID_BYTES = 32"

text \<open>\<open>None\<close> stands for \<open>AppAttestIdentityError\<close>, which every caller handles as one case.\<close>

definition canonical_app_attest_key_id :: "string \<Rightarrow> string option" where
  "canonical_app_attest_key_id value =
     (let text = strip_by str_space value in
      if text = [] \<or> text \<noteq> strip_by (\<lambda>c. code c = 0) value then None
      else case b64_decode text of
        None \<Rightarrow> None
      | Some raw \<Rightarrow>
          if length raw \<noteq> APP_ATTEST_KEY_ID_BYTES then None else Some (b64_encode raw))"

definition app_attest_identity_from_public_key :: "(string \<Rightarrow> string) \<Rightarrow> string \<Rightarrow> string option" where
  "app_attest_identity_from_public_key H pk = canonical_app_attest_key_id (b64_encode (H pk))"

text \<open>Every character of a base64 text is in the alphabet or the padding, so neither strip touches it.\<close>

definition b64_text_char :: "char \<Rightarrow> bool" where
  "b64_text_char c \<longleftrightarrow> c = CHR ''='' \<or> b64_val c \<noteq> None"

lemma b64_text_char_b64_char: "n < 64 \<Longrightarrow> b64_text_char (b64_char n)"
  by (simp add: b64_text_char_def b64_val_char)

lemma b64_encode_chars: "\<forall>c\<in>set (b64_encode bs). b64_text_char c"
  by (induction bs rule: b64_encode.induct)
    (simp_all add: b64_text_char_b64_char b64_text_char_def [of "CHR ''=''"])

lemma b64_text_char_range: "b64_text_char c \<Longrightarrow> code c \<in> {43..122}"
  by (auto simp: b64_text_char_def b64_val_def Let_def code_def split: if_splits)

lemma b64_not_stripped:
  assumes "b64_text_char c" shows "\<not> str_space c" "code c \<noteq> 0"
  using b64_text_char_range [OF assms] by (simp_all add: str_space_def)

lemma b64_encode_neq_Nil: "bs \<noteq> [] \<Longrightarrow> b64_encode bs \<noteq> []"
  by (induction bs rule: b64_encode.induct) auto

lemma strip_b64_encode:
  assumes "bs \<noteq> []"
  shows "strip_by str_space (b64_encode bs) = b64_encode bs"
    and "strip_by (\<lambda>c. code c = 0) (b64_encode bs) = b64_encode bs"
proof -
  have ne: "b64_encode bs \<noteq> []" using b64_encode_neq_Nil [OF assms] .
  then have "b64_text_char (hd (b64_encode bs))" "b64_text_char (last (b64_encode bs))"
    using b64_encode_chars [of bs] by simp_all
  with ne show "strip_by str_space (b64_encode bs) = b64_encode bs"
    and "strip_by (\<lambda>c. code c = 0) (b64_encode bs) = b64_encode bs"
    by (simp_all add: strip_by_id b64_not_stripped)
qed

lemma canonical_of_encode:
  "length raw = APP_ATTEST_KEY_ID_BYTES \<Longrightarrow>
   canonical_app_attest_key_id (b64_encode raw) = Some (b64_encode raw)"
proof -
  assume len: "length raw = APP_ATTEST_KEY_ID_BYTES"
  then have ne: "raw \<noteq> []" by (auto simp: APP_ATTEST_KEY_ID_BYTES_def)
  then have "b64_encode raw \<noteq> []" by (rule b64_encode_neq_Nil)
  with strip_b64_encode [OF ne] len show ?thesis
    by (simp add: canonical_app_attest_key_id_def b64_decode_encode)
qed

lemma canonical_Some_iff:
  "canonical_app_attest_key_id v = Some c \<longleftrightarrow>
   (\<exists>raw. strip_by str_space v \<noteq> [] \<and> strip_by str_space v = strip_by (\<lambda>c. code c = 0) v
     \<and> b64_decode (strip_by str_space v) = Some raw
     \<and> length raw = APP_ATTEST_KEY_ID_BYTES \<and> c = b64_encode raw)"
  by (auto simp: canonical_app_attest_key_id_def Let_def split: option.splits if_splits)

lemma canonical_idem:
  "canonical_app_attest_key_id v = Some c \<Longrightarrow> canonical_app_attest_key_id c = Some c"
  by (auto simp: canonical_Some_iff [of v] canonical_of_encode)

end
