(* ===== verification/Execution.thy ===== *)
theory Execution
  imports Encoding
begin

text \<open>
  \<open>security/mobile_approval/execution.py\<close>: the declared semantics of a capability, the status
  of an execution attempt, the derived identities of an approved action and the one recovery
  decision taken for an attempt that is found open after a restart.
\<close>

datatype semantics = READ_ONLY | IDEMPOTENT_WRITE | RECONCILABLE_WRITE | NON_IDEMPOTENT_WRITE

text \<open>The attempts table stores the text; \<open>OTHER_SEMANTICS\<close> is any text outside the four.\<close>

datatype semantics_text = Sem semantics | OTHER_SEMANTICS string

definition ALL_SEMANTICS :: "semantics_text list" where
  "ALL_SEMANTICS = [Sem READ_ONLY, Sem IDEMPOTENT_WRITE, Sem RECONCILABLE_WRITE,
                    Sem NON_IDEMPOTENT_WRITE]"

definition CAPABILITY_SEMANTICS :: "string \<rightharpoonup> semantics" where
  "CAPABILITY_SEMANTICS = [''codex_task'' \<mapsto> NON_IDEMPOTENT_WRITE,
                           ''codex_modify'' \<mapsto> NON_IDEMPOTENT_WRITE]"

definition semantics_for :: "string \<Rightarrow> semantics" where
  "semantics_for capability =
     (case CAPABILITY_SEMANTICS capability of None \<Rightarrow> NON_IDEMPOTENT_WRITE | Some s \<Rightarrow> s)"

datatype attempt_status =
  CLAIMED | EXTERNAL_PENDING | SUCCEEDED | FAILED_SAFE | UNKNOWN | ABANDONED

fun status_name :: "attempt_status \<Rightarrow> string" where
  "status_name CLAIMED = ''CLAIMED''"
| "status_name EXTERNAL_PENDING = ''EXTERNAL_PENDING''"
| "status_name SUCCEEDED = ''SUCCEEDED''"
| "status_name FAILED_SAFE = ''FAILED_SAFE''"
| "status_name UNKNOWN = ''UNKNOWN''"
| "status_name ABANDONED = ''ABANDONED''"

text \<open>\<open>status.lower()\<close>, used to name the audit event of an outcome.\<close>

fun status_lower :: "attempt_status \<Rightarrow> string" where
  "status_lower CLAIMED = ''claimed''"
| "status_lower EXTERNAL_PENDING = ''external_pending''"
| "status_lower SUCCEEDED = ''succeeded''"
| "status_lower FAILED_SAFE = ''failed_safe''"
| "status_lower UNKNOWN = ''unknown''"
| "status_lower ABANDONED = ''abandoned''"

definition TERMINAL_STATUSES :: "attempt_status list" where
  "TERMINAL_STATUSES = [SUCCEEDED, FAILED_SAFE, ABANDONED]"

definition OPEN_STATUSES :: "attempt_status list" where
  "OPEN_STATUSES = [CLAIMED, EXTERNAL_PENDING, UNKNOWN]"

abbreviation is_open :: "attempt_status \<Rightarrow> bool" where
  "is_open st \<equiv> st \<in> set OPEN_STATUSES"

lemma open_or_terminal: "st \<in> set OPEN_STATUSES \<longleftrightarrow> st \<notin> set TERMINAL_STATUSES"
  by (cases st) (auto simp: OPEN_STATUSES_def TERMINAL_STATUSES_def)

section \<open>Identities\<close>

text \<open>\<open>hashlib.sha256(data).hexdigest()\<close>, over the digest parameter \<open>H\<close>.\<close>

definition sha256_hex :: "(string \<Rightarrow> string) \<Rightarrow> string \<Rightarrow> string" where
  "sha256_hex H data = to_hex (H data)"

lemma to_hex_inj: "to_hex a = to_hex b \<Longrightarrow> a = b"
  by (metis from_hex_to_hex option.inject)

lemma sha256_hex_eq_iff: "sha256_hex H a = sha256_hex H b \<longleftrightarrow> H a = H b"
  by (auto simp: sha256_hex_def dest: to_hex_inj)

text \<open>\<open>crypto.fingerprint\<close> and \<open>crypto.key_id\<close> of an X9.63 public key.\<close>

definition fingerprint :: "(string \<Rightarrow> string) \<Rightarrow> string \<Rightarrow> string" where
  "fingerprint H x963 = sha256_hex H x963"

definition key_id :: "(string \<Rightarrow> string) \<Rightarrow> string \<Rightarrow> string" where
  "key_id H x963 = take 16 (sha256_hex H x963)"

definition execution_preimage :: "string \<Rightarrow> string \<Rightarrow> string" where
  "execution_preimage core aid = ''solvio-execution-v1|'' @ core @ ''|'' @ aid"

definition execution_id_for :: "(string \<Rightarrow> string) \<Rightarrow> string \<Rightarrow> string \<Rightarrow> string result" where
  "execution_id_for H core aid =
     (if core = [] \<or> aid = []
      then Inl (ValueError ''execution identity requires a core instance and an approval'')
      else Inr (''exec-'' @ take 32 (sha256_hex H (execution_preimage core aid))))"

definition idempotency_key_for :: "(string \<Rightarrow> string) \<Rightarrow> string \<Rightarrow> string \<Rightarrow> string result" where
  "idempotency_key_for H eid capability =
     (if eid = [] then Inl (ValueError ''idempotency key requires an execution identity'')
      else Inr (sha256_hex H (''solvio-idem-v1|'' @ eid @ ''|'' @ capability)))"

lemma execution_id_neq_Nil: "execution_id_for H core aid = Inr eid \<Longrightarrow> eid \<noteq> []"
  by (auto simp: execution_id_for_def split: if_splits)

lemma idempotency_key_defined:
  "execution_id_for H core aid = Inr eid \<Longrightarrow> \<exists>k. idempotency_key_for H eid cap = Inr k"
  by (auto simp: execution_id_for_def idempotency_key_for_def split: if_splits)

text \<open>The digest input of two approvals of one core differs: the approval is in it.\<close>

lemma execution_preimage_inj: "execution_preimage core a = execution_preimage core b \<Longrightarrow> a = b"
  by (simp add: execution_preimage_def)

section \<open>The recovery decision\<close>

datatype recovery =
  RETRY_SAME_KEY | RECONCILE_FIRST | NO_ACTION_SUCCEEDED | MANUAL_RECOVERY_REQUIRED
| CLOSED_NO_EFFECT

definition recovery_decision :: "attempt_status \<Rightarrow> semantics_text \<Rightarrow> recovery" where
  "recovery_decision st sem =
     (if st = SUCCEEDED then NO_ACTION_SUCCEEDED
      else if st \<in> {FAILED_SAFE, ABANDONED} then CLOSED_NO_EFFECT
      else if st = CLAIMED then CLOSED_NO_EFFECT
      else if st \<in> {EXTERNAL_PENDING, UNKNOWN} then
        (if sem = Sem READ_ONLY then RETRY_SAME_KEY
         else if sem = Sem IDEMPOTENT_WRITE then RETRY_SAME_KEY
         else if sem = Sem RECONCILABLE_WRITE then RECONCILE_FIRST
         else MANUAL_RECOVERY_REQUIRED)
      else MANUAL_RECOVERY_REQUIRED)"

definition may_auto_retry :: "attempt_status \<Rightarrow> semantics_text \<Rightarrow> bool" where
  "may_auto_retry st sem \<longleftrightarrow> recovery_decision st sem \<in> {RETRY_SAME_KEY, CLOSED_NO_EFFECT}"

text \<open>The external effect may have happened once the durable boundary was crossed.\<close>

definition effect_possible :: "attempt_status \<Rightarrow> bool" where
  "effect_possible st \<longleftrightarrow> st \<in> {EXTERNAL_PENDING, UNKNOWN}"

lemma recovery_retry_iff:
  "recovery_decision st sem = RETRY_SAME_KEY \<longleftrightarrow>
   effect_possible st \<and> sem \<in> {Sem READ_ONLY, Sem IDEMPOTENT_WRITE}"
  by (cases st) (auto simp: recovery_decision_def effect_possible_def)

lemma recovery_closed_iff:
  "recovery_decision st sem = CLOSED_NO_EFFECT \<longleftrightarrow> st \<in> {CLAIMED, FAILED_SAFE, ABANDONED}"
  by (cases st) (auto simp: recovery_decision_def)

lemma recovery_reconcile_iff:
  "recovery_decision st sem = RECONCILE_FIRST \<longleftrightarrow>
   effect_possible st \<and> sem = Sem RECONCILABLE_WRITE"
  by (cases st) (auto simp: recovery_decision_def effect_possible_def)

lemma recovery_no_action_iff:
  "recovery_decision st sem = NO_ACTION_SUCCEEDED \<longleftrightarrow> st = SUCCEEDED"
  by (cases st) (auto simp: recovery_decision_def)

lemmas recovery_iffs = recovery_retry_iff recovery_closed_iff recovery_reconcile_iff
  recovery_no_action_iff

text \<open>
  A non-idempotent write whose effect may have happened is never retried automatically,
  and a retry is only ever decided for an attempt that crossed the boundary under a
  semantics the far side deduplicates; a closed attempt never crossed it.
\<close>

theorem auto_retry_is_safe:
  "may_auto_retry st sem \<longleftrightarrow>
   \<not> effect_possible st \<and> st \<noteq> SUCCEEDED \<or>
   effect_possible st \<and> sem \<in> {Sem READ_ONLY, Sem IDEMPOTENT_WRITE}"
  by (cases st) (auto simp: may_auto_retry_def recovery_decision_def effect_possible_def)

end
