(* ===== verification/Store_Schema.thy ===== *)
theory Store_Schema
  imports Execution
begin

text \<open>
  \<open>security/mobile_approval/store.py\<close>, the durable approval database: its tables as records, the
  state machine of a request, the audit trail, and the two partial unique indexes on the execution
  journal. Columns that may be NULL are options.
\<close>

section \<open>Lifecycles\<close>

datatype request_state = PENDING | APPROVED | DENIED | EXECUTING | CONSUMED | EXPIRED | FAILED

fun state_name :: "request_state \<Rightarrow> string" where
  "state_name PENDING = ''PENDING''"
| "state_name APPROVED = ''APPROVED''"
| "state_name DENIED = ''DENIED''"
| "state_name EXECUTING = ''EXECUTING''"
| "state_name CONSUMED = ''CONSUMED''"
| "state_name EXPIRED = ''EXPIRED''"
| "state_name FAILED = ''FAILED''"

definition TERMINAL :: "request_state list" where
  "TERMINAL = [DENIED, CONSUMED, EXPIRED, FAILED]"

fun ALLOWED :: "request_state \<Rightarrow> request_state list" where
  "ALLOWED PENDING = [APPROVED, DENIED, EXPIRED]"
| "ALLOWED APPROVED = [EXECUTING, EXPIRED]"
| "ALLOWED EXECUTING = [CONSUMED, FAILED]"
| "ALLOWED _ = []"

definition request_edge :: "request_state \<Rightarrow> request_state \<Rightarrow> bool" where
  "request_edge a b \<longleftrightarrow> b \<in> set (ALLOWED a)"

lemma request_edge_simps [simp]:
  "request_edge PENDING b \<longleftrightarrow> b \<in> {APPROVED, DENIED, EXPIRED}"
  "request_edge APPROVED b \<longleftrightarrow> b \<in> {EXECUTING, EXPIRED}"
  "request_edge EXECUTING b \<longleftrightarrow> b \<in> {CONSUMED, FAILED}"
  "\<not> request_edge DENIED b" "\<not> request_edge CONSUMED b" "\<not> request_edge EXPIRED b"
  "\<not> request_edge FAILED b"
  by (auto simp: request_edge_def)

interpretation request_graph: state_graph request_edge "\<lambda>st. st \<in> set TERMINAL"
  by unfold_locales (auto simp: TERMINAL_def)

text \<open>Every other value of the column is kept as \<open>DEVICE_OTHER\<close>.\<close>

datatype device_status = DEVICE_ACTIVE | DEVICE_REVOKED | DEVICE_OTHER string

fun device_status_name :: "device_status \<Rightarrow> string" where
  "device_status_name DEVICE_ACTIVE = ''ACTIVE''"
| "device_status_name DEVICE_REVOKED = ''REVOKED''"
| "device_status_name (DEVICE_OTHER x) = x"

datatype att_status = ATT_PENDING | ATT_ATTESTED | ATT_FAILED | ATT_UNATTESTED | ATT_REVOKED

text \<open>The three revocable identity kinds; \<open>OTHER_KIND\<close> is any other text a caller passes.\<close>

datatype revoke_kind =
  REVOKE_DEVICE | REVOKE_APPROVAL_KEY | REVOKE_APP_ATTEST_KEY | OTHER_KIND string

definition REVOKE_KINDS :: "revoke_kind list" where
  "REVOKE_KINDS = [REVOKE_DEVICE, REVOKE_APPROVAL_KEY, REVOKE_APP_ATTEST_KEY]"

fun kind_name :: "revoke_kind \<Rightarrow> string" where
  "kind_name REVOKE_DEVICE = ''device''"
| "kind_name REVOKE_APPROVAL_KEY = ''approval_key''"
| "kind_name REVOKE_APP_ATTEST_KEY = ''app_attest_key''"
| "kind_name (OTHER_KIND x) = x"

fun revoke_event :: "revoke_kind \<Rightarrow> string" where
  "revoke_event REVOKE_DEVICE = ''device_revoked''"
| "revoke_event REVOKE_APPROVAL_KEY = ''approval_key_revoked''"
| "revoke_event REVOKE_APP_ATTEST_KEY = ''app_attest_key_revoked''"
| "revoke_event (OTHER_KIND x) = x"

type_synonym identity = "revoke_kind \<times> string"

definition identity_text :: "identity \<Rightarrow> string" where
  "identity_text i = kind_name (fst i) @ '':'' @ snd i"

section \<open>Rows\<close>

record device =
  dv_id :: string
  dv_key_id :: string
  dv_public_key :: string
  dv_principal :: string
  dv_transport_hash :: "string option"
  dv_attested :: bool
  dv_status :: device_status
  dv_enrolled_at :: time
  dv_attestation :: att_status
  dv_app_attest_key_id :: "string option"
  dv_app_attest_public_key :: "string option"
  dv_app_attest_counter :: int
  dv_attested_at :: "time option"
  dv_app_id :: "string option"
  dv_environment :: "string option"
  dv_enrollment :: "string option"

record approval_request =
  rq_id :: string
  rq_principal :: string
  rq_tool :: string
  rq_mode :: string
  rq_task :: string
  rq_workspace :: string
  rq_digest :: string
  rq_summary :: string
  rq_state :: request_state
  rq_created :: time
  rq_expires :: time
  rq_decided_at :: "time option"
  rq_decided_device :: "string option"
  rq_error :: "string option"

record challenge =
  ch_nonce :: string
  ch_approval :: string
  ch_device :: string
  ch_principal :: string
  ch_digest :: string
  ch_issued :: time
  ch_expires :: time
  ch_consumed :: bool
  ch_payload_sha256 :: string

record enrollment_token =
  tk_hash :: string
  tk_principal :: string
  tk_created :: time
  tk_expires :: time
  tk_consumed :: bool

record audit_row =
  au_ts :: time
  au_approval :: "string option"
  au_device :: "string option"
  au_event :: string
  au_reason :: "string option"
  au_identity :: "string option"

record att_challenge =
  ac_enrollment :: string
  ac_nonce :: string
  ac_device :: string
  ac_principal :: string
  ac_key_id :: string
  ac_pubkey_sha256 :: string
  ac_binding :: string
  ac_issued :: time
  ac_expires :: time
  ac_consumed :: bool
  ac_app_attest_key_id :: "string option"
  ac_superseded :: bool

record history_row =
  hs_device :: string
  hs_approval_key :: "string option"
  hs_app_attest_key :: "string option"
  hs_bound_at :: time
  hs_provenance :: string

record attempt =
  at_id :: string
  at_execution :: string
  at_approval :: string
  at_device :: "string option"
  at_capability :: string
  at_semantics :: semantics_text
  at_idempotency_key :: string
  at_status :: attempt_status
  at_lease_owner :: "string option"
  at_lease_expires :: "time option"
  at_claimed_at :: time
  at_boundary_at :: "time option"
  at_finished_at :: "time option"
  at_detail :: "string option"
  at_bound :: bool
  at_core :: "string option"
  at_principal :: "string option"
  at_environment :: "string option"
  at_enrollment :: "string option"
  at_approval_key :: "string option"
  at_app_attest_key :: "string option"

record revocation =
  rv_kind :: revoke_kind
  rv_value :: string
  rv_reason :: "string option"
  rv_at :: time

record store =
  st_devices :: "device list"
  st_requests :: "approval_request list"
  st_challenges :: "challenge list"
  st_tokens :: "enrollment_token list"
  st_audit :: "audit_row list"
  st_att_challenges :: "att_challenge list"
  st_history :: "history_row list"
  st_attempts :: "attempt list"
  st_revocations :: "revocation list"

definition empty_store :: store where
  "empty_store = \<lparr>st_devices = [], st_requests = [], st_challenges = [], st_tokens = [],
     st_audit = [], st_att_challenges = [], st_history = [], st_attempts = [],
     st_revocations = []\<rparr>"

abbreviation get_device :: "string \<Rightarrow> store \<Rightarrow> device option" where
  "get_device d s \<equiv> by_key dv_id d (st_devices s)"

abbreviation get_request :: "string \<Rightarrow> store \<Rightarrow> approval_request option" where
  "get_request a s \<equiv> by_key rq_id a (st_requests s)"

abbreviation get_challenge :: "string \<Rightarrow> store \<Rightarrow> challenge option" where
  "get_challenge n s \<equiv> by_key ch_nonce n (st_challenges s)"

abbreviation get_att_challenge :: "string \<Rightarrow> store \<Rightarrow> att_challenge option" where
  "get_att_challenge e s \<equiv> by_key ac_enrollment e (st_att_challenges s)"

abbreviation get_attempt :: "string \<Rightarrow> store \<Rightarrow> attempt option" where
  "get_attempt a s \<equiv> by_key at_id a (st_attempts s)"

section \<open>Audit, revocations, journal indexes\<close>

definition audit :: "time \<Rightarrow> string \<Rightarrow> string option \<Rightarrow> string option \<Rightarrow> string option
    \<Rightarrow> string option \<Rightarrow> store \<Rightarrow> store" where
  "audit now event approval dev reason idn s =
     s\<lparr>st_audit := st_audit s @ [\<lparr>au_ts = now, au_approval = approval, au_device = dev,
        au_event = event, au_reason = reason, au_identity = idn\<rparr>]\<rparr>"

lemma audit_fields [simp]:
  "st_devices (audit n e a d r i s) = st_devices s"
  "st_requests (audit n e a d r i s) = st_requests s"
  "st_challenges (audit n e a d r i s) = st_challenges s"
  "st_tokens (audit n e a d r i s) = st_tokens s"
  "st_att_challenges (audit n e a d r i s) = st_att_challenges s"
  "st_history (audit n e a d r i s) = st_history s"
  "st_attempts (audit n e a d r i s) = st_attempts s"
  "st_revocations (audit n e a d r i s) = st_revocations s"
  by (simp_all add: audit_def)

lemma audit_trail:
  "st_audit (audit n e a d r i s) = st_audit s @ [\<lparr>au_ts = n, au_approval = a, au_device = d,
     au_event = e, au_reason = r, au_identity = i\<rparr>]"
  by (simp add: audit_def)

text \<open>\<open>SELECT 1 FROM revocations WHERE kind=? AND value=?\<close>.\<close>

definition revoked_pair :: "identity \<Rightarrow> store \<Rightarrow> bool" where
  "revoked_pair i s \<longleftrightarrow> list_ex (\<lambda>r. rv_kind r = fst i \<and> rv_value r = snd i) (st_revocations s)"

text \<open>\<open>SELECT kind FROM revocations WHERE (kind=? AND value=?) OR ... LIMIT 1\<close>.\<close>

definition first_revoked :: "identity list \<Rightarrow> store \<Rightarrow> revoke_kind option" where
  "first_revoked ids s =
     map_option rv_kind (select_one (\<lambda>r. (rv_kind r, rv_value r) \<in> set ids) (st_revocations s))"

lemma first_revoked_None_iff:
  "first_revoked ids s = None \<longleftrightarrow> (\<forall>i\<in>set ids. \<not> revoked_pair i s)"
  by (force simp: first_revoked_def select_one_def revoked_pair_def find_None_iff list_ex_iff)

lemma revoked_pair_audit [simp]: "revoked_pair i (audit n e a d r x s) = revoked_pair i s"
  by (simp add: revoked_pair_def)

text \<open>
  The indexes \<open>idx_attempt_one_success\<close> and \<open>idx_attempt_one_open\<close>: per execution identity at most
  one attempt that succeeded and at most one that is open. Every statement that writes the table
  goes through \<open>put_attempts\<close>, which raises the database's \<open>IntegrityError\<close> otherwise.
\<close>

definition one_per_execution :: "(attempt \<Rightarrow> bool) \<Rightarrow> attempt list \<Rightarrow> bool" where
  "one_per_execution p t \<longleftrightarrow> distinct (map at_execution (filter p t))"

definition journal_indexes :: "attempt list \<Rightarrow> bool" where
  "journal_indexes t \<longleftrightarrow> one_per_execution (\<lambda>a. at_status a = SUCCEEDED) t \<and>
                        one_per_execution (\<lambda>a. is_open (at_status a)) t"

definition put_attempts :: "attempt list \<Rightarrow> store \<Rightarrow> store result" where
  "put_attempts t s = (if journal_indexes t then Inr (s\<lparr>st_attempts := t\<rparr>) else Inl IntegrityError)"

lemma put_attempts_Inr_iff:
  "put_attempts t s = Inr s' \<longleftrightarrow> journal_indexes t \<and> s' = s\<lparr>st_attempts := t\<rparr>"
  by (auto simp: put_attempts_def)

lemma one_per_execution_unique:
  "one_per_execution p t \<Longrightarrow> a \<in> set t \<Longrightarrow> b \<in> set t \<Longrightarrow> p a \<Longrightarrow> p b \<Longrightarrow>
   at_execution a = at_execution b \<Longrightarrow> a = b"
  by (auto simp: one_per_execution_def distinct_map inj_on_def)

section \<open>Well-formedness\<close>

definition store_keys_distinct :: "store \<Rightarrow> bool" where
  "store_keys_distinct s \<longleftrightarrow>
     distinct (map dv_id (st_devices s)) \<and> distinct (map rq_id (st_requests s)) \<and>
     distinct (map ch_nonce (st_challenges s)) \<and> distinct (map tk_hash (st_tokens s)) \<and>
     distinct (map ac_enrollment (st_att_challenges s)) \<and> distinct (map at_id (st_attempts s)) \<and>
     distinct (map (\<lambda>r. (rv_kind r, rv_value r)) (st_revocations s))"

lemma store_keys_distinct_audit [simp]:
  "store_keys_distinct (audit n e a d r i s) = store_keys_distinct s"
  by (simp add: store_keys_distinct_def)

end
