(* ===== verification/Store_Requests.thy ===== *)
theory Store_Requests
  imports Store_Schema
begin

text \<open>
  The request half of \<open>store.py\<close>: pairing tokens, the lifecycle of an approval request (creation,
  the compare-and-swap transition, the bulk expiry sweep) and the single-use challenges.
\<close>

section \<open>Pairing tokens\<close>

definition add_enrollment_token ::
  "time \<Rightarrow> string \<Rightarrow> string \<Rightarrow> time \<Rightarrow> store \<Rightarrow> unit result \<times> store" where
  "add_enrollment_token now token_hash who expires_at s =
     (case insert_pk tk_hash \<lparr>tk_hash = token_hash, tk_principal = who, tk_created = now,
             tk_expires = expires_at, tk_consumed = False\<rparr> (st_tokens s) of
        Inl e \<Rightarrow> (Inl e, s)
      | Inr t \<Rightarrow> (Inr (), audit now ''enroll_token_created'' None None (Some who) None
                            (s\<lparr>st_tokens := t\<rparr>)))"

definition consume_enrollment_token ::
  "time \<Rightarrow> string \<Rightarrow> store \<Rightarrow> (string option \<times> string) \<times> store" where
  "consume_enrollment_token now token_hash s =
     (let hit = (\<lambda>t. tk_hash t = token_hash \<and> (\<not> tk_consumed t \<and> tk_expires t \<ge> now));
          s' = s\<lparr>st_tokens := update_where hit (\<lambda>t. t\<lparr>tk_consumed := True\<rparr>) (st_tokens s)\<rparr>
      in if rowcount hit (st_tokens s) = 1
         then ((map_option tk_principal (by_key tk_hash token_hash (st_tokens s')), ''ok''), s')
         else case by_key tk_hash token_hash (st_tokens s') of
             None \<Rightarrow> ((None, ''unknown''), s')
           | Some r \<Rightarrow> if tk_consumed r then ((None, ''already_consumed''), s')
                       else ((None, ''expired''), s'))"

section \<open>Requests\<close>

definition create_request_row :: "time \<Rightarrow> approval_id \<Rightarrow> string \<Rightarrow> string \<Rightarrow> string \<Rightarrow> string \<Rightarrow> string
    \<Rightarrow> digest \<Rightarrow> display_text \<Rightarrow> time \<Rightarrow> store \<Rightarrow> unit result \<times> store" where
  "create_request_row now aid who tool mode task workspace digest summary expires_at s =
     (case insert_pk rq_id
            \<lparr>rq_id = aid, rq_principal = who, rq_tool = tool, rq_mode = mode, rq_task = task,
             rq_workspace = workspace, rq_digest = digest, rq_summary = summary,
             rq_state = PENDING, rq_created = now, rq_expires = expires_at,
             rq_decided_at = None, rq_decided_device = None, rq_error = None\<rparr> (st_requests s) of
        Inl e \<Rightarrow> (Inl e, s)
      | Inr t \<Rightarrow> (Inr (), audit now ''request_created'' (Some aid) None (Some who) None
                            (s\<lparr>st_requests := t\<rparr>)))"

text \<open>\<open>_cas_transition\<close>: the state change, run inside an open write transaction.\<close>

definition cas_transition :: "time \<Rightarrow> string \<Rightarrow> request_state \<Rightarrow> string option \<Rightarrow> string option
    \<Rightarrow> bool \<Rightarrow> store \<Rightarrow> (request_state \<times> store) result" where
  "cas_transition now aid new_state dev err stamp s =
     (if new_state = EXECUTING then Inl ExecutionBypassError
      else case get_request aid s of
        None \<Rightarrow> Inl (StoreError ''unknown approval_id'')
      | Some r \<Rightarrow>
          let cur = rq_state r in
          if new_state \<notin> set (ALLOWED cur)
          then Inl (IllegalTransition (state_name cur @ '' -> '' @ state_name new_state))
          else
            let hit = (\<lambda>q. rq_id q = aid \<and> rq_state q = cur);
                s' = s\<lparr>st_requests := update_where hit
                   (\<lambda>q. q\<lparr>rq_state := new_state,
                         rq_decided_at := (if stamp then Some now else rq_decided_at q),
                         rq_decided_device := coalesce dev (rq_decided_device q),
                         rq_error := coalesce err (rq_error q)\<rparr>) (st_requests s)\<rparr>
            in if rowcount hit (st_requests s) \<noteq> 1
               then Inl (ConcurrentTransition aid)
               else Inr (cur, audit now (''state_'' @ state_name new_state) (Some aid) dev err None s'))"

definition transition :: "time \<Rightarrow> string \<Rightarrow> request_state \<Rightarrow> string option \<Rightarrow> string option
    \<Rightarrow> store \<Rightarrow> request_state result \<times> store" where
  "transition now aid new_state dev err s =
     atomically s (cas_transition now aid new_state dev err False s)"

text \<open>The sweep: which requests are due, one bulk update, one audit row per request.\<close>

definition request_due :: "time \<Rightarrow> approval_request \<Rightarrow> bool" where
  "request_due now r \<longleftrightarrow> rq_state r \<in> {PENDING, APPROVED} \<and> rq_expires r < now"

definition expire_due :: "time \<Rightarrow> store \<Rightarrow> store" where
  "expire_due now s =
     (let due = map rq_id (filter (request_due now) (st_requests s)) in
      if due = [] then s
      else fold (\<lambda>aid. audit now (''state_'' @ state_name EXPIRED) (Some aid) None (Some ''ttl'') None)
             due (s\<lparr>st_requests := update_where (request_due now)
                     (\<lambda>r. r\<lparr>rq_state := EXPIRED\<rparr>) (st_requests s)\<rparr>))"

definition list_pending :: "time \<Rightarrow> string option \<Rightarrow> store \<Rightarrow> approval_request list \<times> store" where
  "list_pending now who s =
     (let s' = expire_due now s in
      (case who of
         None \<Rightarrow> filter (\<lambda>r. rq_state r = PENDING) (st_requests s')
       | Some p \<Rightarrow> filter (\<lambda>r. rq_state r = PENDING \<and> rq_principal r = p) (st_requests s'), s'))"

section \<open>Challenges\<close>

definition add_challenge :: "time \<Rightarrow> string \<Rightarrow> string \<Rightarrow> string \<Rightarrow> string \<Rightarrow> string \<Rightarrow> time \<Rightarrow> string
    \<Rightarrow> store \<Rightarrow> unit result \<times> store" where
  "add_challenge now nonce aid dev who digest expires_at payload_sha256 s =
     atomically s
       (let s1 = s\<lparr>st_challenges := update_where (\<lambda>c. ch_approval c = aid \<and> \<not> ch_consumed c)
                     (\<lambda>c. c\<lparr>ch_consumed := True\<rparr>) (st_challenges s)\<rparr>
        in case insert_pk ch_nonce
               \<lparr>ch_nonce = nonce, ch_approval = aid, ch_device = dev, ch_principal = who,
                ch_digest = digest, ch_issued = now, ch_expires = expires_at,
                ch_consumed = False, ch_payload_sha256 = payload_sha256\<rparr> (st_challenges s1) of
             Inl e \<Rightarrow> Inl e
           | Inr t \<Rightarrow> Inr ((), audit now ''challenge_issued'' (Some aid) (Some dev) None None
                                (s1\<lparr>st_challenges := t\<rparr>)))"

definition challenge_hit :: "time \<Rightarrow> string \<Rightarrow> string \<Rightarrow> string \<Rightarrow> string \<Rightarrow> string
    \<Rightarrow> challenge \<Rightarrow> bool" where
  "challenge_hit now aid dev who digest payload_sha256 c \<longleftrightarrow>
     \<not> ch_consumed c \<and> ch_expires c \<ge> now \<and> ch_approval c = aid \<and> ch_device c = dev \<and>
     ch_principal c = who \<and> ch_digest c = digest \<and> ch_payload_sha256 c \<noteq> [] \<and>
     ch_payload_sha256 c = payload_sha256"

text \<open>\<open>_cas_consume_challenge\<close>, inside an open write transaction.\<close>

definition cas_consume_challenge :: "time \<Rightarrow> string \<Rightarrow> string \<Rightarrow> string \<Rightarrow> string \<Rightarrow> string \<Rightarrow> string
    \<Rightarrow> store \<Rightarrow> string \<times> store" where
  "cas_consume_challenge now nonce aid dev who digest payload_sha256 s =
     (let hit = (\<lambda>c. ch_nonce c = nonce \<and> challenge_hit now aid dev who digest payload_sha256 c);
          s' = s\<lparr>st_challenges := update_where hit (\<lambda>c. c\<lparr>ch_consumed := True\<rparr>) (st_challenges s)\<rparr>
      in if rowcount hit (st_challenges s) = 1 then (''ok'', s')
         else case get_challenge nonce s' of
             None \<Rightarrow> (''unknown'', s')
           | Some r \<Rightarrow>
               if ch_consumed r then (''replay'', s')
               else if now > ch_expires r then (''expired'', s')
               else if ch_approval r \<noteq> aid \<or> ch_device r \<noteq> dev \<or> ch_principal r \<noteq> who
                    \<or> ch_digest r \<noteq> digest then (''mismatch'', s')
               else (''display_mismatch'', s'))"

definition consume_challenge :: "time \<Rightarrow> string \<Rightarrow> string \<Rightarrow> string \<Rightarrow> string \<Rightarrow> string \<Rightarrow> string
    \<Rightarrow> store \<Rightarrow> string result \<times> store" where
  "consume_challenge now nonce aid dev who digest payload_sha256 s =
     atomically s (Inr (cas_consume_challenge now nonce aid dev who digest payload_sha256 s))"

section \<open>Lemmas: transitions\<close>

lemma cas_transition_Inr:
  assumes "cas_transition now aid st dev err stamp s = Inr (cur, s')"
  shows "\<exists>r. get_request aid s = Some r \<and> rq_state r = cur \<and> request_edge cur st \<and> st \<noteq> EXECUTING \<and>
    s' = audit now (''state_'' @ state_name st) (Some aid) dev err None
      (s\<lparr>st_requests := update_where (\<lambda>q. rq_id q = aid \<and> rq_state q = cur)
         (\<lambda>q. q\<lparr>rq_state := st, rq_decided_at := (if stamp then Some now else rq_decided_at q),
               rq_decided_device := coalesce dev (rq_decided_device q),
               rq_error := coalesce err (rq_error q)\<rparr>) (st_requests s)\<rparr>)"
  using assms
  by (auto simp: cas_transition_def Let_def request_edge_def split: option.splits if_splits)

lemma cas_transition_frame:
  assumes "cas_transition now aid st dev err stamp s = Inr (cur, s')"
  shows "st_devices s' = st_devices s" "st_challenges s' = st_challenges s"
    "st_tokens s' = st_tokens s" "st_att_challenges s' = st_att_challenges s"
    "st_history s' = st_history s" "st_attempts s' = st_attempts s"
    "st_revocations s' = st_revocations s" "map rq_id (st_requests s') = map rq_id (st_requests s)"
  using cas_transition_Inr [OF assms] by (auto simp: keys_update)

lemma cas_transition_target:
  assumes "cas_transition now aid st dev err stamp s = Inr (cur, s')"
  shows "\<exists>r. get_request aid s = Some r \<and> rq_state r = cur \<and> request_edge cur st \<and> st \<noteq> EXECUTING \<and>
    get_request aid s' = Some (r\<lparr>rq_state := st,
      rq_decided_at := (if stamp then Some now else rq_decided_at r),
      rq_decided_device := coalesce dev (rq_decided_device r),
      rq_error := coalesce err (rq_error r)\<rparr>)"
  using cas_transition_Inr [OF assms]
  by (auto simp: by_key_update dest: by_key_SomeD)

lemma cas_transition_other:
  assumes "cas_transition now aid st dev err stamp s = Inr (cur, s')" and "k \<noteq> aid"
  shows "get_request k s' = get_request k s"
  using cas_transition_Inr [OF assms(1)] assms(2)
  by (cases "get_request k s") (auto simp: by_key_update dest: by_key_SomeD)

text \<open>The swap succeeds exactly on an allowed edge; only the missing row and the edge can refuse it.\<close>

lemma cas_transition_succeeds:
  assumes "distinct (map rq_id (st_requests s))" and "get_request aid s = Some r"
    and "request_edge (rq_state r) st" and "st \<noteq> EXECUTING"
  shows "\<exists>s'. cas_transition now aid st dev err stamp s = Inr (rq_state r, s')"
  using assms rowcount_key_1 [OF assms(1,2), of "\<lambda>q. rq_state q = rq_state r"]
  by (auto simp: cas_transition_def Let_def request_edge_def)

section \<open>Lemmas: challenges and tokens\<close>

lemma cas_consume_frame:
  assumes "cas_consume_challenge now n aid dev who dg p s = (out, s')"
  shows "s' = s\<lparr>st_challenges := update_where
      (\<lambda>c. ch_nonce c = n \<and> challenge_hit now aid dev who dg p c)
      (\<lambda>c. c\<lparr>ch_consumed := True\<rparr>) (st_challenges s)\<rparr>"
  using assms
  by (auto simp: cas_consume_challenge_def Let_def split: option.splits if_splits)

lemma cas_consume_keys:
  "cas_consume_challenge now n aid dev who dg p s = (out, s') \<Longrightarrow>
   map ch_nonce (st_challenges s') = map ch_nonce (st_challenges s)"
  by (drule cas_consume_frame) (simp add: keys_update)

lemma cas_consume_ok:
  assumes "distinct (map ch_nonce (st_challenges s))"
    and "cas_consume_challenge now n aid dev who dg p s = (''ok'', s')"
  shows "\<exists>c. get_challenge n s = Some c \<and> challenge_hit now aid dev who dg p c \<and>
             get_challenge n s' = Some (c\<lparr>ch_consumed := True\<rparr>)"
proof -
  from assms(2) have "rowcount (\<lambda>c. ch_nonce c = n \<and> challenge_hit now aid dev who dg p c)
      (st_challenges s) = 1"
    by (auto simp: cas_consume_challenge_def Let_def split: option.splits if_splits)
  from rowcount_1_by_key [OF assms(1) this]
  obtain c where c: "get_challenge n s = Some c" "challenge_hit now aid dev who dg p c" by blast
  with cas_consume_frame [OF assms(2)] show ?thesis
    by (auto simp: by_key_update dest: by_key_SomeD)
qed

lemma cas_consume_refused:
  assumes "distinct (map ch_nonce (st_challenges s))"
    and "cas_consume_challenge now n aid dev who dg p s = (out, s')" and "out \<noteq> ''ok''"
  shows "s' = s"
proof -
  let ?hit = "\<lambda>c. ch_nonce c = n \<and> challenge_hit now aid dev who dg p c"
  from assms(2,3) have "rowcount ?hit (st_challenges s) \<noteq> 1"
    by (auto simp: cas_consume_challenge_def Let_def split: option.splits if_splits)
  with rowcount_key_le_1 [OF assms(1), of n] have "rowcount ?hit (st_challenges s) = 0"
    by (metis le_neq_implies_less less_one)
  then have "\<forall>c\<in>set (st_challenges s). \<not> ?hit c"
    by (auto simp: rowcount_def filter_empty_conv)
  then have "update_where ?hit (\<lambda>c. c\<lparr>ch_consumed := True\<rparr>) (st_challenges s) = st_challenges s"
    by (intro update_where_id) blast
  with cas_consume_frame [OF assms(2)] show ?thesis by simp
qed

text \<open>A nonce is spent once its row is consumed; the row stays.\<close>

definition nonce_spent :: "string \<Rightarrow> store \<Rightarrow> bool" where
  "nonce_spent n s \<longleftrightarrow> (\<exists>c. get_challenge n s = Some c \<and> ch_consumed c)"

lemma nonce_spent_consume:
  "nonce_spent n s \<Longrightarrow> nonce_spent n (snd (cas_consume_challenge now m aid dev who dg p s))"
  using cas_consume_frame [of now m aid dev who dg p s]
  by (cases "cas_consume_challenge now m aid dev who dg p s")
    (auto simp: nonce_spent_def by_key_update_Some)

lemma nonce_spent_add:
  "nonce_spent n s \<Longrightarrow> nonce_spent n (snd (add_challenge now m aid dev who dg e p s))"
  unfolding add_challenge_def nonce_spent_def
  by (rule atomically_snd)
    (auto simp: by_key_update_Some Let_def insert_pk_Inr_iff by_key_append split: sum.splits)

lemma nonce_spent_refuses:
  "nonce_spent n s \<Longrightarrow> distinct (map ch_nonce (st_challenges s)) \<Longrightarrow>
   fst (cas_consume_challenge now n aid dev who dg p s) \<noteq> ''ok''"
  using cas_consume_ok [of s now n aid dev who dg p]
  by (cases "cas_consume_challenge now n aid dev who dg p s")
    (auto simp: nonce_spent_def challenge_hit_def)

lemma token_consumed_once:
  assumes "distinct (map tk_hash (st_tokens s))"
    and "consume_enrollment_token now h s = ((Some p, st), s')"
  shows "st = ''ok'' \<and> (\<exists>t. by_key tk_hash h (st_tokens s) = Some t \<and> \<not> tk_consumed t \<and> now \<le> tk_expires t \<and>
           tk_principal t = p \<and> by_key tk_hash h (st_tokens s') = Some (t\<lparr>tk_consumed := True\<rparr>))"
proof -
  let ?q = "\<lambda>t. \<not> tk_consumed t \<and> tk_expires t \<ge> now"
  from assms(2) have one: "rowcount (\<lambda>t. tk_hash t = h \<and> ?q t) (st_tokens s) = 1"
    by (auto simp: consume_enrollment_token_def Let_def split: if_splits option.splits)
  from rowcount_1_by_key [OF assms(1) this]
  obtain t where "by_key tk_hash h (st_tokens s) = Some t" "?q t" by blast
  with one assms(2) show ?thesis
    by (auto simp: consume_enrollment_token_def Let_def by_key_update dest: by_key_SomeD)
qed

section \<open>Lemmas: the sweep\<close>

lemma fold_audit_frame:
  "(\<forall>x\<in>set xs. \<forall>s. P (f x s) = P s) \<Longrightarrow> P (fold f xs s) = P s"
  by (induction xs arbitrary: s) auto

lemma expire_due_requests:
  "st_requests (expire_due now s) =
     update_where (request_due now) (\<lambda>r. r\<lparr>rq_state := EXPIRED\<rparr>) (st_requests s)"
proof -
  have "update_where (request_due now) (\<lambda>r. r\<lparr>rq_state := EXPIRED\<rparr>) t = t"
    if "filter (request_due now) t = []" for t
    using that by (intro update_where_id) (auto simp: filter_empty_conv)
  then show ?thesis
    by (auto simp: expire_due_def Let_def fold_audit_frame [where P = st_requests])
qed

lemma expire_due_frame:
  "st_devices (expire_due now s) = st_devices s" "st_challenges (expire_due now s) = st_challenges s"
  "st_tokens (expire_due now s) = st_tokens s"
  "st_att_challenges (expire_due now s) = st_att_challenges s"
  "st_history (expire_due now s) = st_history s" "st_attempts (expire_due now s) = st_attempts s"
  "st_revocations (expire_due now s) = st_revocations s"
  by (auto simp: expire_due_def Let_def fold_audit_frame [where P = st_devices]
      fold_audit_frame [where P = st_challenges] fold_audit_frame [where P = st_tokens]
      fold_audit_frame [where P = st_att_challenges] fold_audit_frame [where P = st_history]
      fold_audit_frame [where P = st_attempts] fold_audit_frame [where P = st_revocations])

end
