(* ===== verification/Store_Revocation.thy ===== *)
theory Store_Revocation
  imports Store_Requests
begin

text \<open>
  The revocation half of \<open>store.py\<close> and the revocation planning of \<open>control.py\<close>: durable, terminal
  revocations of device, approval key and App Attest key identities, written together with the
  status of every device record they doom.
\<close>

record revocation_result =
  rr_operation :: string
  rr_committed :: bool
  rr_newly :: "identity list"
  rr_already :: "identity list"
  rr_affected :: "string list"

definition rr_identities :: "revocation_result \<Rightarrow> identity list" where
  "rr_identities r = rr_newly r @ rr_already r"

section \<open>Writing\<close>

text \<open>One entry of \<open>_write_revocations\<close>: an insert that does nothing on conflict, and its audit row.\<close>

definition write_entry :: "time \<Rightarrow> string option \<Rightarrow> string option \<Rightarrow> identity
    \<Rightarrow> (identity list \<times> identity list) \<times> store \<Rightarrow> (identity list \<times> identity list) \<times> store" where
  "write_entry now reason dev i acc = (case acc of ((newly, already), s) \<Rightarrow>
     if revoked_pair i s
     then ((newly, already @ [i]),
           audit now ''revocation_reaffirmed'' None dev reason (Some (identity_text i)) s)
     else ((newly @ [i], already),
           audit now (revoke_event (fst i)) None dev reason (Some (identity_text i))
             (s\<lparr>st_revocations := st_revocations s @
                 [\<lparr>rv_kind = fst i, rv_value = snd i, rv_reason = reason, rv_at = now\<rparr>]\<rparr>)))"

definition doom_device :: "time \<Rightarrow> string \<Rightarrow> store \<Rightarrow> store" where
  "doom_device now did s =
     audit now ''device_status'' None (Some did) (Some (device_status_name DEVICE_REVOKED))
       (Some (identity_text (REVOKE_DEVICE, did)))
       (s\<lparr>st_devices := update_where (\<lambda>d. dv_id d = did) (\<lambda>d. d\<lparr>dv_status := DEVICE_REVOKED\<rparr>)
            (st_devices s)\<rparr>)"

definition write_revocations :: "time \<Rightarrow> identity list \<Rightarrow> string option \<Rightarrow> string option
    \<Rightarrow> string list \<Rightarrow> store \<Rightarrow> (identity list \<times> identity list) \<times> store" where
  "write_revocations now entries reason dev doomed s =
     (case fold (write_entry now reason dev) entries (([], []), s) of
        (outs, s') \<Rightarrow> (outs, fold (doom_device now) doomed s'))"

fun check_entries :: "identity list \<Rightarrow> unit result" where
  "check_entries [] = Inr ()"
| "check_entries ((k, v) # es) =
     (if k \<notin> set REVOKE_KINDS then Inl (ValueError ''unknown revocation kind'')
      else if v = [] then Inl (ValueError ''revocation value must not be empty'')
      else check_entries es)"

type_synonym revocation_plan = "device list \<Rightarrow> history_row list \<Rightarrow> identity list \<times> string list"

definition revoke_planned :: "time \<Rightarrow> revocation_plan \<Rightarrow> string option \<Rightarrow> string option \<Rightarrow> string
    \<Rightarrow> store \<Rightarrow> revocation_result result \<times> store" where
  "revoke_planned now plan reason dev operation s =
     atomically s
       (case plan (st_devices s) (st_history s) of (entries, doomed) \<Rightarrow>
          (case check_entries entries of
             Inl e \<Rightarrow> Inl e
           | Inr _ \<Rightarrow>
               (case write_revocations now entries reason dev doomed s of ((newly, already), s') \<Rightarrow>
                  Inr (\<lparr>rr_operation = operation, rr_committed = True, rr_newly = newly,
                        rr_already = already, rr_affected = doomed\<rparr>, s'))))"

definition match_plan :: "identity list \<Rightarrow> (device \<Rightarrow> bool) \<Rightarrow> revocation_plan" where
  "match_plan entries match rows hist =
     (entries, map dv_id (filter (\<lambda>r. dv_status r \<noteq> DEVICE_REVOKED \<and> match r) rows))"

definition revoke_identities :: "time \<Rightarrow> identity list \<Rightarrow> (device \<Rightarrow> bool) \<Rightarrow> string option
    \<Rightarrow> string option \<Rightarrow> string \<Rightarrow> store \<Rightarrow> revocation_result result \<times> store" where
  "revoke_identities now entries match reason dev operation s =
     (case check_entries entries of
        Inl e \<Rightarrow> (Inl e, s)
      | Inr _ \<Rightarrow> revoke_planned now (match_plan entries match) reason dev operation s)"

section \<open>Reading\<close>

definition is_revoked :: "revoke_kind \<Rightarrow> string \<Rightarrow> store \<Rightarrow> bool" where
  "is_revoked kind value s = (if value = [] then False else revoked_pair (kind, value) s)"

fun revoked_identities :: "identity list \<Rightarrow> store \<Rightarrow> revoke_kind option" where
  "revoked_identities [] s = None"
| "revoked_identities ((k, v) # is) s =
     (if v \<noteq> [] \<and> is_revoked k v s then Some k else revoked_identities is s)"

lemma revoked_identities_None_iff:
  "revoked_identities is s = None \<longleftrightarrow> (\<forall>(k, v)\<in>set is. v \<noteq> [] \<longrightarrow> \<not> revoked_pair (k, v) s)"
  by (induction "is" s rule: revoked_identities.induct) (auto simp: is_revoked_def)

section \<open>Which identities a device record carries, and what a revocation dooms\<close>

text \<open>\<open>MobileApprovalControlPlane._identities\<close>.\<close>

definition identities_of :: "(string \<Rightarrow> string) \<Rightarrow> device \<Rightarrow> identity list" where
  "identities_of H dev =
     [(REVOKE_DEVICE, dv_id dev)]
     @ (if dv_public_key dev = [] then []
        else case from_hex (dv_public_key dev) of
            None \<Rightarrow> [] | Some pk \<Rightarrow> [(REVOKE_APPROVAL_KEY, fingerprint H pk)])
     @ (case dv_app_attest_key_id dev of
          None \<Rightarrow> [] | Some k \<Rightarrow> if k = [] then [] else [(REVOKE_APP_ATTEST_KEY, k)])"

text \<open>The two entries that one history row of the device contributes.\<close>

definition history_identities :: "string \<Rightarrow> history_row list \<Rightarrow> identity list" where
  "history_identities did hist =
     concat (map (\<lambda>h. if hs_device h \<noteq> did then []
        else (if truthy (hs_approval_key h)
              then [(REVOKE_APPROVAL_KEY, or_empty (hs_approval_key h))] else [])
           @ (if truthy (hs_app_attest_key h)
              then [(REVOKE_APP_ATTEST_KEY, or_empty (hs_app_attest_key h))] else [])) hist)"

text \<open>\<open>[e for e in entries if not (e in seen or seen.add(e))]\<close>: the first occurrence of each stays.\<close>

fun dedup :: "'a list \<Rightarrow> 'a list \<Rightarrow> 'a list" where
  "dedup seen [] = []"
| "dedup seen (x # xs) = (if x \<in> set seen then dedup seen xs else x # dedup (x # seen) xs)"

lemma set_dedup: "set (dedup seen xs) = set xs - set seen"
  by (induction seen xs rule: dedup.induct) auto

lemma distinct_dedup: "distinct (dedup seen xs)"
  by (induction seen xs rule: dedup.induct) (auto simp: set_dedup)

definition device_plan :: "(string \<Rightarrow> string) \<Rightarrow> string \<Rightarrow> revocation_plan" where
  "device_plan H did rows hist =
     (let target = by_key dv_id did rows;
          entries = dedup [] ([(REVOKE_DEVICE, did)]
            @ (case target of None \<Rightarrow> []
               | Some t \<Rightarrow> filter (\<lambda>(k, v). k \<noteq> REVOKE_DEVICE \<and> v \<noteq> []) (identities_of H t))
            @ history_identities did hist);
          values = map snd entries;
          doomed = map dv_id (filter (\<lambda>r. dv_status r \<noteq> DEVICE_REVOKED \<and>
                      (\<exists>i\<in>set (identities_of H r). snd i \<in> set values)) rows)
      in (entries, doomed))"

definition revoke_device :: "(string \<Rightarrow> string) \<Rightarrow> time \<Rightarrow> string \<Rightarrow> string option
    \<Rightarrow> store \<Rightarrow> revocation_result result \<times> store" where
  "revoke_device H now did reason s =
     revoke_planned now (device_plan H did) reason (Some did) ''revoke-device'' s"

definition approval_fingerprint :: "(string \<Rightarrow> string) \<Rightarrow> device \<Rightarrow> string option" where
  "approval_fingerprint H row =
     (if dv_public_key row = [] then None
      else case from_hex (dv_public_key row) of None \<Rightarrow> None | Some pk \<Rightarrow> Some (fingerprint H pk))"

definition revoke_approval_key :: "(string \<Rightarrow> string) \<Rightarrow> time \<Rightarrow> string \<Rightarrow> string option
    \<Rightarrow> store \<Rightarrow> revocation_result result \<times> store" where
  "revoke_approval_key H now fp reason s =
     revoke_identities now [(REVOKE_APPROVAL_KEY, fp)]
       (\<lambda>row. approval_fingerprint H row = Some fp) reason None ''revoke-approval-key'' s"

definition same_app_attest_key :: "string option \<Rightarrow> string \<Rightarrow> bool" where
  "same_app_attest_key stored canonical =
     (if \<not> truthy stored then False
      else case canonical_app_attest_key_id (or_empty stored) of
          None \<Rightarrow> False | Some c \<Rightarrow> c = canonical)"

definition revoke_app_attest_key :: "time \<Rightarrow> string \<Rightarrow> string option
    \<Rightarrow> store \<Rightarrow> revocation_result result \<times> store" where
  "revoke_app_attest_key now key reason s =
     (case canonical_app_attest_key_id key of
        None \<Rightarrow> (Inl (ValueError ''app_attest_key_id''), s)
      | Some canonical \<Rightarrow>
          revoke_identities now [(REVOKE_APP_ATTEST_KEY, canonical)]
            (\<lambda>row. same_app_attest_key (dv_app_attest_key_id row) canonical)
            reason None ''revoke-app-attest-key'' s)"

section \<open>Lemmas\<close>

lemma revoked_pair_append:
  "revoked_pair i (s\<lparr>st_revocations := st_revocations s @ [r]\<rparr>) \<longleftrightarrow>
   revoked_pair i s \<or> i = (rv_kind r, rv_value r)"
  by (cases i) (auto simp: revoked_pair_def)

lemma write_entry_revoked:
  "revoked_pair i (snd (write_entry now reason dev j acc)) \<longleftrightarrow> revoked_pair i (snd acc) \<or> i = j"
  by (auto simp: write_entry_def revoked_pair_append split: prod.splits)

lemma fold_write_revoked:
  "revoked_pair i (snd (fold (write_entry now reason dev) es acc)) \<longleftrightarrow>
   revoked_pair i (snd acc) \<or> i \<in> set es"
  by (induction es arbitrary: acc) (auto simp: write_entry_revoked)

lemma write_entry_frame:
  "st_devices (snd (write_entry now reason dev i acc)) = st_devices (snd acc)"
  "st_requests (snd (write_entry now reason dev i acc)) = st_requests (snd acc)"
  "st_challenges (snd (write_entry now reason dev i acc)) = st_challenges (snd acc)"
  "st_tokens (snd (write_entry now reason dev i acc)) = st_tokens (snd acc)"
  "st_att_challenges (snd (write_entry now reason dev i acc)) = st_att_challenges (snd acc)"
  "st_history (snd (write_entry now reason dev i acc)) = st_history (snd acc)"
  "st_attempts (snd (write_entry now reason dev i acc)) = st_attempts (snd acc)"
  by (auto simp: write_entry_def split: prod.splits)

lemma fold_write_frame:
  "st_devices (snd (fold (write_entry now reason dev) es acc)) = st_devices (snd acc)"
  "st_requests (snd (fold (write_entry now reason dev) es acc)) = st_requests (snd acc)"
  "st_challenges (snd (fold (write_entry now reason dev) es acc)) = st_challenges (snd acc)"
  "st_tokens (snd (fold (write_entry now reason dev) es acc)) = st_tokens (snd acc)"
  "st_att_challenges (snd (fold (write_entry now reason dev) es acc)) = st_att_challenges (snd acc)"
  "st_history (snd (fold (write_entry now reason dev) es acc)) = st_history (snd acc)"
  "st_attempts (snd (fold (write_entry now reason dev) es acc)) = st_attempts (snd acc)"
  by (induction es arbitrary: acc) (auto simp: write_entry_frame)

lemma write_entry_distinct:
  "distinct (map (\<lambda>r. (rv_kind r, rv_value r)) (st_revocations (snd acc))) \<Longrightarrow>
   distinct (map (\<lambda>r. (rv_kind r, rv_value r))
     (st_revocations (snd (write_entry now reason dev i acc))))"
  by (cases i) (auto simp: write_entry_def revoked_pair_def list_ex_iff split: prod.splits)

lemma fold_write_distinct:
  "distinct (map (\<lambda>r. (rv_kind r, rv_value r)) (st_revocations (snd acc))) \<Longrightarrow>
   distinct (map (\<lambda>r. (rv_kind r, rv_value r))
     (st_revocations (snd (fold (write_entry now reason dev) es acc))))"
  by (induction es arbitrary: acc) (auto simp: write_entry_distinct)

lemma doom_device_frame [simp]:
  "st_requests (doom_device now d s) = st_requests s"
  "st_challenges (doom_device now d s) = st_challenges s"
  "st_tokens (doom_device now d s) = st_tokens s"
  "st_att_challenges (doom_device now d s) = st_att_challenges s"
  "st_history (doom_device now d s) = st_history s"
  "st_attempts (doom_device now d s) = st_attempts s"
  "st_revocations (doom_device now d s) = st_revocations s"
  by (simp_all add: doom_device_def)

lemma fold_doom_frame:
  "st_requests (fold (doom_device now) ds s) = st_requests s"
  "st_challenges (fold (doom_device now) ds s) = st_challenges s"
  "st_tokens (fold (doom_device now) ds s) = st_tokens s"
  "st_att_challenges (fold (doom_device now) ds s) = st_att_challenges s"
  "st_history (fold (doom_device now) ds s) = st_history s"
  "st_attempts (fold (doom_device now) ds s) = st_attempts s"
  "st_revocations (fold (doom_device now) ds s) = st_revocations s"
  by (induction ds arbitrary: s) auto

lemma fold_doom_devices:
  "st_devices (fold (doom_device now) ds s) =
   map (\<lambda>d. if dv_id d \<in> set ds then d\<lparr>dv_status := DEVICE_REVOKED\<rparr> else d) (st_devices s)"
  by (induction ds arbitrary: s) (auto simp: doom_device_def update_where_def)

text \<open>What \<open>write_revocations\<close> leaves behind.\<close>

lemma write_revocations_state:
  assumes "write_revocations now es reason dev doomed s = (outs, s')"
  shows "st_devices s' = map (\<lambda>d. if dv_id d \<in> set doomed then d\<lparr>dv_status := DEVICE_REVOKED\<rparr> else d)
           (st_devices s)"
    "\<And>i. revoked_pair i s' \<longleftrightarrow> revoked_pair i s \<or> i \<in> set es"
    "st_requests s' = st_requests s" "st_challenges s' = st_challenges s"
    "st_tokens s' = st_tokens s" "st_att_challenges s' = st_att_challenges s"
    "st_history s' = st_history s" "st_attempts s' = st_attempts s"
proof -
  let ?w = "snd (fold (write_entry now reason dev) es (([], []), s))"
  from assms have s': "s' = fold (doom_device now) doomed ?w"
    by (auto simp: write_revocations_def split: prod.splits)
  show "st_devices s' = map (\<lambda>d. if dv_id d \<in> set doomed then d\<lparr>dv_status := DEVICE_REVOKED\<rparr> else d)
           (st_devices s)"
    by (simp add: s' fold_doom_devices fold_write_frame)
  show "\<And>i. revoked_pair i s' \<longleftrightarrow> revoked_pair i s \<or> i \<in> set es"
    using fold_write_revoked [of _ now reason dev es "(([], []), s)"]
    by (simp add: s' revoked_pair_def fold_doom_frame)
  show "st_requests s' = st_requests s" "st_challenges s' = st_challenges s"
    "st_tokens s' = st_tokens s" "st_att_challenges s' = st_att_challenges s"
    "st_history s' = st_history s" "st_attempts s' = st_attempts s"
    by (simp_all add: s' fold_doom_frame fold_write_frame)
qed

lemma revoke_planned_Inr:
  assumes "revoke_planned now plan reason dev op s = (Inr res, s')"
  shows "\<exists>entries doomed outs. plan (st_devices s) (st_history s) = (entries, doomed) \<and>
     check_entries entries = Inr () \<and> write_revocations now entries reason dev doomed s = (outs, s') \<and>
     res = \<lparr>rr_operation = op, rr_committed = True, rr_newly = fst outs, rr_already = snd outs,
            rr_affected = doomed\<rparr>"
  using assms
  by (auto simp: revoke_planned_def atomically_Inr_iff split: prod.splits sum.splits)

lemma fold_write_lists:
  assumes "fold (write_entry now reason dev) es ((ns, al), s) = ((ns', al'), s')"
  shows "\<exists>ns2 as2. ns' = ns @ ns2 \<and> al' = al @ as2 \<and> set ns2 \<union> set as2 = set es \<and>
     (\<forall>i\<in>set ns2. \<not> revoked_pair i s) \<and>
     length ns2 + length as2 = length es"
  using assms
proof (induction es arbitrary: ns al s)
  case (Cons i es)
  let ?acc = "write_entry now reason dev i ((ns, al), s)"
  obtain ns1 as1 s1 where acc: "?acc = ((ns1, as1), s1)" by (metis prod.exhaust)
  with Cons.prems have "fold (write_entry now reason dev) es ((ns1, as1), s1) = ((ns', al'), s')"
    by simp
  from Cons.IH [OF this] obtain ns2 as2 where ih: "ns' = ns1 @ ns2" "al' = as1 @ as2"
    "set ns2 \<union> set as2 = set es" "\<forall>i\<in>set ns2. \<not> revoked_pair i s1"
    "length ns2 + length as2 = length es" by blast
  have mono: "revoked_pair j s \<Longrightarrow> revoked_pair j s1" for j
    using write_entry_revoked [of j now reason dev i "((ns, al), s)"] acc by simp
  show ?case
  proof (cases "revoked_pair i s")
    case True
    with acc have "ns1 = ns" "as1 = al @ [i]" by (auto simp: write_entry_def)
    with ih mono show ?thesis
      by (intro exI [of _ ns2] exI [of _ "i # as2"]) auto
  next
    case False
    with acc have "ns1 = ns @ [i]" "as1 = al" by (auto simp: write_entry_def)
    with ih mono False show ?thesis
      by (intro exI [of _ "i # ns2"] exI [of _ as2]) auto
  qed
qed simp

text \<open>What a committed revocation establishes, for any plan.\<close>

lemma revoke_planned_effect:
  assumes "revoke_planned now plan reason dev op s = (Inr res, s')"
    and "plan (st_devices s) (st_history s) = (entries, doomed)"
  shows "(\<forall>i. revoked_pair i s' \<longleftrightarrow> revoked_pair i s \<or> i \<in> set entries) \<and>
    set (rr_identities res) = set entries \<and> (\<forall>i\<in>set (rr_newly res). \<not> revoked_pair i s) \<and>
    rr_affected res = doomed \<and>
    (\<forall>d\<in>set (st_devices s'). dv_id d \<in> set doomed \<longrightarrow> dv_status d = DEVICE_REVOKED)"
proof -
  from revoke_planned_Inr [OF assms(1)] assms(2) obtain outs where
    w: "write_revocations now entries reason dev doomed s = (outs, s')"
    and res: "res = \<lparr>rr_operation = op, rr_committed = True, rr_newly = fst outs,
                rr_already = snd outs, rr_affected = doomed\<rparr>" by auto
  from w obtain s1 where
    f: "fold (write_entry now reason dev) entries (([], []), s) = ((fst outs, snd outs), s1)"
    by (auto simp: write_revocations_def split: prod.splits)
  from fold_write_lists [OF f] write_revocations_state(1,2) [OF w] res
  show ?thesis by (auto simp: rr_identities_def)
qed

end
