(* ===== verification/Store_Fixture.thy ===== *)
theory Store_Fixture
  imports Store_Revocation
begin

text \<open>
  A small concrete database that the witnesses evaluate the operations on: one attested device of
  the principal owner, one pending request, one open challenge for it.
\<close>

text \<open>The digest of the fixture: the identity, an injective instance of the parameter \<open>H\<close>.\<close>

definition id_hash :: "string \<Rightarrow> string" where
  "id_hash x = x"

definition demo_device :: device where
  "demo_device = \<lparr>dv_id = ''dev-1'', dv_key_id = ''k'', dv_public_key = ''6b31'',
     dv_principal = ''owner'', dv_transport_hash = Some ''th'', dv_attested = True,
     dv_status = DEVICE_ACTIVE, dv_enrolled_at = 0, dv_attestation = ATT_ATTESTED,
     dv_app_attest_key_id = Some ''aak'', dv_app_attest_public_key = Some ''6131'',
     dv_app_attest_counter = 1, dv_attested_at = Some 0, dv_app_id = Some ''app'',
     dv_environment = Some ''production'', dv_enrollment = Some ''enr-1''\<rparr>"

definition demo_request :: approval_request where
  "demo_request = \<lparr>rq_id = ''a1'', rq_principal = ''owner'', rq_tool = ''codex_task'',
     rq_mode = ''modify'', rq_task = ''x'', rq_workspace = [], rq_digest = ''dg'',
     rq_summary = ''s'', rq_state = PENDING, rq_created = 0, rq_expires = 100,
     rq_decided_at = None, rq_decided_device = None, rq_error = None\<rparr>"

definition demo_challenge :: challenge where
  "demo_challenge = \<lparr>ch_nonce = ''n1'', ch_approval = ''a1'', ch_device = ''dev-1'',
     ch_principal = ''owner'', ch_digest = ''dg'', ch_issued = 1, ch_expires = 60,
     ch_consumed = False, ch_payload_sha256 = ''sha''\<rparr>"

definition demo_store :: store where
  "demo_store = empty_store\<lparr>st_devices := [demo_device], st_requests := [demo_request],
     st_challenges := [demo_challenge]\<rparr>"

text \<open>The same database after the approval, after the claim, and after the device was revoked.\<close>

definition demo_approved :: store where
  "demo_approved = demo_store\<lparr>st_requests := [demo_request\<lparr>rq_state := APPROVED,
     rq_decided_at := Some 5, rq_decided_device := Some ''dev-1''\<rparr>]\<rparr>"

definition demo_attempt :: attempt where
  "demo_attempt = \<lparr>at_id = ''att-1'', at_execution = ''exec-1'', at_approval = ''a1'',
     at_device = Some ''dev-1'', at_capability = ''codex_task'',
     at_semantics = Sem NON_IDEMPOTENT_WRITE, at_idempotency_key = ''ik'', at_status = CLAIMED,
     at_lease_owner = Some ''core-1'', at_lease_expires = Some 306, at_claimed_at = 6,
     at_boundary_at = None, at_finished_at = None, at_detail = None, at_bound = True,
     at_core = Some ''core'', at_principal = Some ''owner'', at_environment = Some ''production'',
     at_enrollment = Some ''enr-1'', at_approval_key = Some (fingerprint id_hash ''k1''),
     at_app_attest_key = Some ''aak''\<rparr>"

definition demo_executing :: approval_request where
  "demo_executing = demo_request\<lparr>rq_state := EXECUTING, rq_decided_at := Some 5,
     rq_decided_device := Some ''dev-1''\<rparr>"

definition demo_claimed :: store where
  "demo_claimed = demo_store\<lparr>st_requests := [demo_executing], st_attempts := [demo_attempt]\<rparr>"

definition demo_revoked :: store where
  "demo_revoked = demo_claimed\<lparr>st_revocations := [\<lparr>rv_kind = REVOKE_DEVICE, rv_value = ''dev-1'',
     rv_reason = None, rv_at = 7\<rparr>]\<rparr>"

definition demo_identities :: "identity list" where
  "demo_identities = [(REVOKE_DEVICE, ''dev-1''), (REVOKE_APPROVAL_KEY, fingerprint id_hash ''k1''),
                      (REVOKE_APP_ATTEST_KEY, ''aak'')]"

lemmas demo_defs = demo_store_def demo_approved_def demo_claimed_def demo_revoked_def
  empty_store_def demo_device_def demo_request_def demo_challenge_def demo_executing_def
  demo_attempt_def demo_identities_def

lemma demo_distinct [simp]:
  "store_keys_distinct demo_approved" "store_keys_distinct demo_claimed"
  "store_keys_distinct demo_revoked"
  by (simp_all add: store_keys_distinct_def demo_defs)

lemma demo_store_distinct [simp]: "store_keys_distinct demo_store"
  by (simp add: store_keys_distinct_def demo_store_def empty_store_def)

end
