(* ===== verification/Store_Decision.thy ===== *)
theory Store_Decision
  imports Store_Fixture
begin

text \<open>
  The decision half of \<open>store.py\<close>: the one authority predicate that a human decision and a recovery
  retry share, and the commit of a decision as one transaction.
\<close>

section \<open>Authority\<close>

record authority =
  au_refusal :: "string option"
  au_revoked_kind :: "string option"
  au_fingerprint :: "string option"
  au_app_attest :: "string option"

definition authority_identities :: "(string \<Rightarrow> string) \<Rightarrow> device \<Rightarrow> string \<Rightarrow> identity list" where
  "authority_identities H dev pk =
     [(REVOKE_DEVICE, dv_id dev), (REVOKE_APPROVAL_KEY, fingerprint H pk),
      (REVOKE_APP_ATTEST_KEY, or_empty (dv_app_attest_key_id dev))]"

text \<open>\<open>_execution_authority\<close>; \<open>envs\<close> is the allowed set, empty when there is no policy.\<close>

definition execution_authority :: "(string \<Rightarrow> string) \<Rightarrow> approval_request \<Rightarrow> device \<Rightarrow> string list
    \<Rightarrow> store \<Rightarrow> authority" where
  "execution_authority H req dev envs s =
     (case from_hex (dv_public_key dev) of
        None \<Rightarrow> \<lparr>au_refusal = Some ''device_key_unreadable'', au_revoked_kind = None,
                 au_fingerprint = None, au_app_attest = None\<rparr>
      | Some pk \<Rightarrow>
          let fp = fingerprint H pk;
              aakid = or_empty (dv_app_attest_key_id dev);
              refuse = (\<lambda>reason kind. \<lparr>au_refusal = reason, au_revoked_kind = kind,
                          au_fingerprint = Some fp, au_app_attest = Some aakid\<rparr>);
              revoked = first_revoked (authority_identities H dev pk) s
          in if revoked \<noteq> None \<or> dv_status dev = DEVICE_REVOKED
             then refuse (Some ''device_revoked'')
                    (Some (case revoked of Some k \<Rightarrow> kind_name k
                                         | None \<Rightarrow> device_status_name (dv_status dev)))
             else if dv_status dev \<noteq> DEVICE_ACTIVE then refuse (Some ''device_not_active'') None
             else if dv_attestation dev \<noteq> ATT_ATTESTED
             then refuse (Some ''device_not_attested'') None
             else if \<not> truthy (dv_enrollment dev) then refuse (Some ''no_current_enrollment'') None
             else if dv_principal dev \<noteq> rq_principal req
             then refuse (Some ''principal_mismatch'') None
             else if envs = [] \<or> or_empty (dv_environment dev) \<notin> set envs
             then refuse (Some ''device_environment_not_allowed'') None
             else refuse None None)"

text \<open>What the predicate promises when it does not refuse.\<close>

definition holds_authority :: "(string \<Rightarrow> string) \<Rightarrow> approval_request \<Rightarrow> device \<Rightarrow> string list
    \<Rightarrow> store \<Rightarrow> bool" where
  "holds_authority H req dev envs s \<longleftrightarrow>
     (\<exists>pk. from_hex (dv_public_key dev) = Some pk \<and>
        (\<forall>i\<in>set (authority_identities H dev pk). \<not> revoked_pair i s)) \<and>
     dv_status dev = DEVICE_ACTIVE \<and> dv_attestation dev = ATT_ATTESTED \<and>
     truthy (dv_enrollment dev) \<and> dv_principal dev = rq_principal req \<and>
     or_empty (dv_environment dev) \<in> set envs"

lemma execution_authority_None_iff:
  "au_refusal (execution_authority H req dev envs s) = None \<longleftrightarrow> holds_authority H req dev envs s"
  by (auto simp: execution_authority_def holds_authority_def Let_def
      first_revoked_None_iff [symmetric] split: option.splits)

lemma execution_authority_fp:
  "au_refusal (execution_authority H req dev envs s) = None \<Longrightarrow>
   \<exists>pk. from_hex (dv_public_key dev) = Some pk \<and>
     au_fingerprint (execution_authority H req dev envs s) = Some (fingerprint H pk) \<and>
     au_app_attest (execution_authority H req dev envs s) = Some (or_empty (dv_app_attest_key_id dev))"
  by (auto simp: execution_authority_def Let_def split: option.splits if_splits)

section \<open>The decision\<close>

definition decision_deny :: "time \<Rightarrow> string \<Rightarrow> string \<Rightarrow> string \<Rightarrow> store \<Rightarrow> (string \<times> store) result" where
  "decision_deny now aid did reason s =
     Inr (reason, audit now ''decision_rejected'' (Some aid) (Some did) (Some reason) None s)"

text \<open>\<open>UPDATE devices SET app_attest_counter=? WHERE device_id=? AND app_attest_counter < ?\<close>.\<close>

definition bump_counter :: "string \<Rightarrow> int option \<Rightarrow> store \<Rightarrow> store" where
  "bump_counter did counter s = (case counter of
       None \<Rightarrow> s
     | Some c \<Rightarrow> s\<lparr>st_devices := update_where (\<lambda>d. dv_id d = did \<and> dv_app_attest_counter d < c)
                      (\<lambda>d. d\<lparr>dv_app_attest_counter := c\<rparr>) (st_devices s)\<rparr>)"

text \<open>The part of the transaction behind all checks: burn the nonce, advance the counter, swap.\<close>

definition decision_write :: "time \<Rightarrow> string \<Rightarrow> string \<Rightarrow> request_state \<Rightarrow> string \<Rightarrow> string
    \<Rightarrow> int option \<Rightarrow> approval_request \<Rightarrow> store \<Rightarrow> (string \<times> store) result" where
  "decision_write now aid did new_state nonce psha counter req s =
     (case cas_consume_challenge now nonce aid did (rq_principal req) (rq_digest req) psha s of
        (nst, s1) \<Rightarrow>
          if nst \<noteq> ''ok'' then decision_deny now aid did (''nonce_'' @ nst) s1
          else
            let s2 = (if new_state = APPROVED then bump_counter did counter s1 else s1)
            in case cas_transition now aid new_state (Some did) None True s2 of
                 Inl e \<Rightarrow> Inl e
               | Inr (_, s3) \<Rightarrow> Inr (''ok'', s3))"

definition commit_decision_body :: "(string \<Rightarrow> string) \<Rightarrow> time \<Rightarrow> string \<Rightarrow> string \<Rightarrow> request_state
    \<Rightarrow> string \<Rightarrow> string \<Rightarrow> string \<Rightarrow> string option \<Rightarrow> int option \<Rightarrow> string list \<Rightarrow> store
    \<Rightarrow> (string \<times> store) result" where
  "commit_decision_body H now aid did new_state nonce psha vpk vaapk counter envs s =
     (case get_request aid s of
        None \<Rightarrow> decision_deny now aid did ''unknown_request'' s
      | Some req \<Rightarrow>
          if rq_state req \<noteq> PENDING then decision_deny now aid did ''not_pending'' s
          else if now > rq_expires req then decision_deny now aid did ''request_expired'' s
          else case get_device did s of
            None \<Rightarrow> decision_deny now aid did ''unknown_device'' s
          | Some dev \<Rightarrow>
              let auth = execution_authority H req dev envs s in
              if au_refusal auth = Some ''device_revoked'' then
                decision_deny now aid did ''device_revoked''
                  (audit now ''decision_rejected_revoked_key'' (Some aid) (Some did)
                     (au_revoked_kind auth) None s)
              else if au_refusal auth = Some ''device_environment_not_allowed'' then
                decision_deny now aid did ''device_environment_not_allowed''
                  (audit now ''decision_rejected_environment'' (Some aid) (Some did)
                     (dv_environment dev) None s)
              else (case au_refusal auth of
                Some reason \<Rightarrow> decision_deny now aid did reason s
              | None \<Rightarrow>
                  if Some (fingerprint H vpk) \<noteq> au_fingerprint auth
                  then decision_deny now aid did ''device_rebound'' s
                  else if new_state = APPROVED \<and> vaapk = None
                  then decision_deny now aid did ''assertion_required'' s
                  else if new_state = APPROVED \<and>
                       to_hex (or_empty vaapk) \<noteq> or_empty (dv_app_attest_public_key dev)
                  then decision_deny now aid did ''device_rebound'' s
                  else decision_write now aid did new_state nonce psha counter req s))"

text \<open>
  A lost compare-and-swap rolls everything back, is audited on its own and answered as a conflict;
  any other exception rolls back and escapes.
\<close>

definition commit_decision :: "(string \<Rightarrow> string) \<Rightarrow> time \<Rightarrow> string \<Rightarrow> string \<Rightarrow> request_state
    \<Rightarrow> string \<Rightarrow> string \<Rightarrow> string \<Rightarrow> string option \<Rightarrow> int option \<Rightarrow> string list \<Rightarrow> store
    \<Rightarrow> string result \<times> store" where
  "commit_decision H now aid did new_state nonce psha vpk vaapk counter envs s =
     (let conflict = (\<lambda>m. (Inr ''already_decided'',
            audit now ''decision_conflict'' (Some aid) (Some did) (Some (take 120 m)) None s))
      in case commit_decision_body H now aid did new_state nonce psha vpk vaapk counter envs s of
           Inl (IllegalTransition m) \<Rightarrow> conflict m
         | Inl (ConcurrentTransition m) \<Rightarrow> conflict m
         | Inl e \<Rightarrow> (Inl e, s)
         | Inr (out, s') \<Rightarrow> (Inr out, s'))"

section \<open>Lemmas\<close>

lemma decision_deny_Inr:
  "decision_deny now aid did reason s = Inr (out, s') \<longleftrightarrow>
   out = reason \<and> s' = audit now ''decision_rejected'' (Some aid) (Some did) (Some reason) None s"
  by (auto simp: decision_deny_def)

lemma bump_counter_frame [simp]:
  "st_requests (bump_counter did c s) = st_requests s"
  "st_challenges (bump_counter did c s) = st_challenges s"
  "st_tokens (bump_counter did c s) = st_tokens s"
  "st_att_challenges (bump_counter did c s) = st_att_challenges s"
  "st_history (bump_counter did c s) = st_history s"
  "st_attempts (bump_counter did c s) = st_attempts s"
  "st_revocations (bump_counter did c s) = st_revocations s"
  "st_audit (bump_counter did c s) = st_audit s"
  by (simp_all add: bump_counter_def split: option.split)

lemma bump_counter_device:
  "get_device did s = Some dev \<Longrightarrow>
   get_device did (bump_counter did c s) = Some (dev\<lparr>dv_app_attest_counter :=
     (case c of None \<Rightarrow> dv_app_attest_counter dev | Some n \<Rightarrow> max (dv_app_attest_counter dev) n)\<rparr>)"
  by (auto simp: bump_counter_def by_key_update_Some max_def dest: by_key_SomeD split: option.split)

lemma decision_write_ok:
  assumes "distinct (map ch_nonce (st_challenges s))"
    and "decision_write now aid did st nonce psha counter req s = Inr (''ok'', s')"
  shows "\<exists>s1 s2 cur. cas_consume_challenge now nonce aid did (rq_principal req) (rq_digest req) psha s
       = (''ok'', s1) \<and> s2 = (if st = APPROVED then bump_counter did counter s1 else s1) \<and>
     cas_transition now aid st (Some did) None True s2 = Inr (cur, s')"
  using assms
  by (auto simp: decision_write_def Let_def decision_deny_def split: prod.splits sum.splits if_splits)

lemma decision_write_returns:
  assumes "store_keys_distinct s" and "st \<in> {APPROVED, DENIED}"
    and "get_request aid s = Some req" and "rq_state req = PENDING"
  shows "\<exists>out s'. decision_write now aid did st nonce psha counter req s = Inr (out, s') \<and>
           out \<noteq> ''already_decided''"
proof -
  obtain nst s1 where c: "cas_consume_challenge now nonce aid did (rq_principal req) (rq_digest req)
      psha s = (nst, s1)" by fastforce
  let ?s2 = "if st = APPROVED then bump_counter did counter s1 else s1"
  have rq: "st_requests ?s2 = st_requests s" using cas_consume_frame [OF c] by simp
  have "\<exists>s'. cas_transition now aid st (Some did) None True ?s2 = Inr (rq_state req, s')"
    by (rule cas_transition_succeeds)
      (use assms rq in \<open>auto simp: store_keys_distinct_def\<close>)
  with c show ?thesis by (auto simp: decision_write_def Let_def decision_deny_def)
qed

text \<open>The checks that stand in front of the write.\<close>

definition decision_checked :: "(string \<Rightarrow> string) \<Rightarrow> time \<Rightarrow> string \<Rightarrow> string \<Rightarrow> request_state \<Rightarrow> string
    \<Rightarrow> string option \<Rightarrow> string list \<Rightarrow> approval_request \<Rightarrow> device \<Rightarrow> store \<Rightarrow> bool" where
  "decision_checked H now aid did st vpk vaapk envs req dev s \<longleftrightarrow>
     get_request aid s = Some req \<and> rq_state req = PENDING \<and> now \<le> rq_expires req \<and>
     get_device did s = Some dev \<and> holds_authority H req dev envs s \<and>
     (\<exists>pk. from_hex (dv_public_key dev) = Some pk \<and> fingerprint H vpk = fingerprint H pk) \<and>
     (st = APPROVED \<longrightarrow> (\<exists>k. vaapk = Some k \<and> to_hex k = or_empty (dv_app_attest_public_key dev)))"

definition decision_denied :: "time \<Rightarrow> string \<Rightarrow> string \<Rightarrow> store \<Rightarrow> (string \<times> store) result \<Rightarrow> bool" where
  "decision_denied now aid did s r \<longleftrightarrow>
     (\<exists>reason s1. r = decision_deny now aid did reason s1 \<and> reason \<notin> {''ok'', ''already_decided''} \<and>
        (s1 = s \<or> (\<exists>ev x. s1 = audit now ev (Some aid) (Some did) x None s)))"

lemma decision_deniedI [simp]:
  "reason \<notin> {''ok'', ''already_decided''} \<Longrightarrow> decision_denied now aid did s (decision_deny now aid did reason s)"
  "reason \<notin> {''ok'', ''already_decided''} \<Longrightarrow> decision_denied now aid did s
     (decision_deny now aid did reason (audit now ev (Some aid) (Some did) x None s))"
  by (auto simp: decision_denied_def)

lemma commit_decision_body_cases:
  assumes "commit_decision_body H now aid did st nonce psha vpk vaapk counter envs s = r"
  shows "decision_denied now aid did s r \<or>
         (\<exists>req dev. decision_checked H now aid did st vpk vaapk envs req dev s \<and>
            r = decision_write now aid did st nonce psha counter req s)"
proof (cases "get_request aid s")
  case None
  with assms show ?thesis by (auto simp: commit_decision_body_def)
next
  case (Some req)
  note req = this
  show ?thesis
  proof (cases "rq_state req \<noteq> PENDING \<or> now > rq_expires req \<or> get_device did s = None")
    case True
    with assms req show ?thesis
      by (auto simp: commit_decision_body_def split: if_splits)
  next
    case False
    then obtain dev where dev: "get_device did s = Some dev" by auto
    let ?auth = "execution_authority H req dev envs s"
    show ?thesis
    proof (cases "au_refusal ?auth")
      case None
      then have auth: "holds_authority H req dev envs s"
        by (simp add: execution_authority_None_iff)
      from execution_authority_fp [OF None] obtain pk where
        pk: "from_hex (dv_public_key dev) = Some pk"
        "au_fingerprint ?auth = Some (fingerprint H pk)" by blast
      show ?thesis
      proof (cases "decision_checked H now aid did st vpk vaapk envs req dev s")
        case True
        with assms req dev None pk False show ?thesis
          by (auto simp: commit_decision_body_def Let_def decision_checked_def)
      next
        case bad: False
        with assms req dev None pk False auth show ?thesis
          by (cases vaapk) (auto simp: commit_decision_body_def Let_def decision_checked_def split: if_splits)
      qed
    next
      case (Some reason)
      then have "reason \<notin> {''ok'', ''already_decided''}"
        by (auto simp: execution_authority_def Let_def split: option.splits if_splits)
      with Some assms req dev False show ?thesis
        by (auto simp: commit_decision_body_def Let_def split: if_splits)
    qed
  qed
qed

lemma commit_decision_ok:
  assumes "distinct (map ch_nonce (st_challenges s))"
    and "commit_decision H now aid did st nonce psha vpk vaapk counter envs s = (Inr ''ok'', s')"
  shows "\<exists>req dev. decision_checked H now aid did st vpk vaapk envs req dev s \<and>
           decision_write now aid did st nonce psha counter req s = Inr (''ok'', s')"
proof -
  have body: "commit_decision_body H now aid did st nonce psha vpk vaapk counter envs s = Inr (''ok'', s')"
    using assms(2) by (auto simp: commit_decision_def Let_def split: sum.splits exn.splits)
  from commit_decision_body_cases [OF this] show ?thesis
    by (auto simp: decision_denied_def decision_deny_def)
qed

lemma decision_ok_effect:
  assumes keys: "store_keys_distinct s"
    and ok: "commit_decision H now aid did st nonce psha vpk vaapk counter envs s = (Inr ''ok'', s')"
  shows "\<exists>req dev c. decision_checked H now aid did st vpk vaapk envs req dev s \<and>
     get_challenge nonce s = Some c \<and>
     challenge_hit now aid did (rq_principal req) (rq_digest req) psha c \<and> nonce_spent nonce s' \<and>
     get_request aid s' = Some (req\<lparr>rq_state := st, rq_decided_at := Some now,
        rq_decided_device := Some did\<rparr>)"
proof -
  have ks: "distinct (map ch_nonce (st_challenges s))"
    using keys by (simp add: store_keys_distinct_def)
  obtain req dev where chk: "decision_checked H now aid did st vpk vaapk envs req dev s"
    and w: "decision_write now aid did st nonce psha counter req s = Inr (''ok'', s')"
    using commit_decision_ok [OF ks ok] by blast
  obtain s1 s2 cur where
    c1: "cas_consume_challenge now nonce aid did (rq_principal req) (rq_digest req) psha s = (''ok'', s1)"
    and s2: "s2 = (if st = APPROVED then bump_counter did counter s1 else s1)"
    and c2: "cas_transition now aid st (Some did) None True s2 = Inr (cur, s')"
    using decision_write_ok [OF ks w] by blast
  from cas_consume_ok [OF ks c1] obtain c where
    c: "get_challenge nonce s = Some c"
    "challenge_hit now aid did (rq_principal req) (rq_digest req) psha c"
    "get_challenge nonce s1 = Some (c\<lparr>ch_consumed := True\<rparr>)" by blast
  have "st_requests s2 = st_requests s" "st_challenges s2 = st_challenges s1"
    using cas_consume_frame [OF c1] s2 by simp_all
  moreover have "st_challenges s' = st_challenges s2" by (rule cas_transition_frame(2) [OF c2])
  moreover from cas_transition_target [OF c2] obtain r where
    "get_request aid s2 = Some r"
    "get_request aid s' = Some (r\<lparr>rq_state := st, rq_decided_at := Some now,
        rq_decided_device := Some did, rq_error := rq_error r\<rparr>)" by auto
  moreover have "get_request aid s = Some req" using chk by (simp add: decision_checked_def)
  ultimately show ?thesis using chk c by (auto simp: nonce_spent_def)
qed

text \<open>
  C1: an answer ok to a decision means that, in the state the transaction started from, the request
  was pending and unexpired, the device was active, attested, enrolled, of the request's principal
  and in an allowed environment, none of its three identities was revoked, the key the signature was
  verified against is the device's, for an approval the App Attest key is the device's too, and the
  nonce was open for exactly this request, device, principal, action and displayed text. After it the
  request is decided by that device at that time, and the nonce is spent.
\<close>

theorem decision_ok_means_authority:
  assumes keys: "store_keys_distinct s"
    and ok: "commit_decision H now aid did st nonce psha vpk vaapk counter envs s = (Inr ''ok'', s')"
  shows "\<exists>req dev c. decision_checked H now aid did st vpk vaapk envs req dev s \<and>
     get_challenge nonce s = Some c \<and>
     challenge_hit now aid did (rq_principal req) (rq_digest req) psha c \<and> nonce_spent nonce s' \<and>
     get_request aid s' = Some (req\<lparr>rq_state := st, rq_decided_at := Some now,
        rq_decided_device := Some did\<rparr>)"
  by (rule decision_ok_effect [OF keys ok])

definition demo_decided :: store where
  "demo_decided = snd (commit_decision id_hash 5 ''a1'' ''dev-1'' APPROVED ''n1'' ''sha''
     ''k1'' (Some ''a1'') (Some 2) [''production''] demo_store)"

lemma demo_decision:
  "commit_decision id_hash 5 ''a1'' ''dev-1'' APPROVED ''n1'' ''sha'' ''k1'' (Some ''a1'') (Some 2)
     [''production''] demo_store = (Inr ''ok'', demo_decided)"
proof -
  have "fst (commit_decision id_hash 5 ''a1'' ''dev-1'' APPROVED ''n1'' ''sha'' ''k1''
     (Some ''a1'') (Some 2) [''production''] demo_store) = Inr ''ok''" by code_simp
  then show ?thesis by (metis demo_decided_def prod.collapse)
qed

theorem decision_ok_means_authority_witness:
  "\<exists>req dev. decision_checked id_hash 5 ''a1'' ''dev-1'' APPROVED ''k1'' (Some ''a1'')
     [''production''] req dev demo_store"
  using decision_ok_means_authority [OF demo_store_distinct demo_decision] by blast

text \<open>
  A decision never escapes as a conflict or an exception for want of the swap: under the write
  lock, once all checks and the nonce have passed, an approval or a denial always commits.
\<close>

theorem decision_never_conflicts:
  assumes "store_keys_distinct s" and "st \<in> {APPROVED, DENIED}"
  shows "\<exists>out. fst (commit_decision H now aid did st nonce psha vpk vaapk counter envs s) = Inr out \<and>
           out \<noteq> ''already_decided''"
proof -
  let ?r = "commit_decision_body H now aid did st nonce psha vpk vaapk counter envs s"
  have "\<exists>out s'. ?r = Inr (out, s') \<and> out \<noteq> ''already_decided''"
    using commit_decision_body_cases [of H now aid did st nonce psha vpk vaapk counter envs s, OF refl]
      decision_write_returns [OF assms]
    by (auto simp: decision_denied_def decision_deny_def decision_checked_def)
  then show ?thesis by (auto simp: commit_decision_def)
qed

theorem decision_never_conflicts_witness:
  "\<exists>out. fst (commit_decision id_hash 5 ''a1'' ''dev-1'' DENIED ''n1'' ''sha'' ''k1'' None None []
     demo_store) = Inr out \<and> out \<noteq> ''already_decided''"
  by (rule decision_never_conflicts) simp_all

end
