(* ===== verification/Store_Journal.thy ===== *)
theory Store_Journal
  imports Store_Decision
begin

text \<open>
  The execution journal of \<open>store.py\<close>: the claim that moves a request to EXECUTING together with its
  attempt row, the durable boundary in front of the external call, the recorded outcome, the
  recovery lease, and the authority re-check in front of a recovery retry.
\<close>

definition exec_deny :: "time \<Rightarrow> string option \<Rightarrow> string option \<Rightarrow> string \<Rightarrow> store
    \<Rightarrow> (string \<times> store) result" where
  "exec_deny now aid dev reason s =
     Inr (reason, audit now ''execution_rejected'' aid dev (Some reason) None s)"

section \<open>The claim\<close>

text \<open>\<open>_claim_execution\<close>: one conditional UPDATE of the request, and its audit row.\<close>

definition claim_hit :: "time \<Rightarrow> string \<Rightarrow> string \<Rightarrow> identity list \<Rightarrow> store \<Rightarrow> approval_request \<Rightarrow> bool" where
  "claim_hit now aid did identities s r \<longleftrightarrow>
     rq_id r = aid \<and> rq_state r = APPROVED \<and> rq_decided_device r = Some did \<and> rq_expires r > now \<and>
     list_ex (\<lambda>d. Some (dv_id d) = rq_decided_device r \<and> dv_status d = DEVICE_ACTIVE \<and>
                  dv_attestation d = ATT_ATTESTED) (st_devices s) \<and>
     \<not> list_ex (\<lambda>i. revoked_pair i s) identities"

definition claim_execution_row :: "time \<Rightarrow> string \<Rightarrow> string \<Rightarrow> identity list \<Rightarrow> store
    \<Rightarrow> (bool \<times> store) result" where
  "claim_execution_row now aid did identities s =
     (if identities = [] then Inl (ValueError ''claim_execution requires at least one identity'')
      else
        let hit = claim_hit now aid did identities s;
            won = (rowcount hit (st_requests s) = 1);
            s' = s\<lparr>st_requests := update_where hit (\<lambda>r. r\<lparr>rq_state := EXECUTING\<rparr>) (st_requests s)\<rparr>
        in Inr (won, audit now (if won then ''state_'' @ state_name EXECUTING
                                else ''execution_claim_rejected'') (Some aid) (Some did)
                       (if won then None else Some ''expired_revoked_or_inactive'') None s'))"

record snapshot =
  sn_core :: string
  sn_principal :: string
  sn_environment :: string
  sn_enrollment :: string
  sn_approval_key :: string
  sn_app_attest_key :: string

text \<open>\<open>_claim_authority_snapshot\<close>: all six fields, or none.\<close>

definition claim_authority_snapshot :: "(string \<Rightarrow> string) \<Rightarrow> string \<Rightarrow> string \<Rightarrow> string option
    \<Rightarrow> store \<Rightarrow> snapshot option" where
  "claim_authority_snapshot H aid did core s =
     (case (get_request aid s, get_device did s) of
        (Some req, Some dev) \<Rightarrow>
          (case from_hex (dv_public_key dev) of
             None \<Rightarrow> None
           | Some pk \<Rightarrow>
               let fp = fingerprint H pk;
                   aakid = or_empty (dv_app_attest_key_id dev);
                   enr = or_empty (dv_enrollment dev);
                   env = or_empty (dv_environment dev)
               in if fp \<noteq> [] \<and> aakid \<noteq> [] \<and> enr \<noteq> [] \<and> env \<noteq> [] \<and> rq_principal req \<noteq> [] \<and> truthy core
                  then Some \<lparr>sn_core = or_empty core, sn_principal = rq_principal req,
                             sn_environment = env, sn_enrollment = enr, sn_approval_key = fp,
                             sn_app_attest_key = aakid\<rparr>
                  else None)
      | _ \<Rightarrow> None)"

definition attempt_id_for :: "(string \<Rightarrow> string) \<Rightarrow> string \<Rightarrow> string \<Rightarrow> string \<Rightarrow> string" where
  "attempt_id_for H eid now_repr owner =
     ''att-'' @ take 24 (sha256_hex H (eid @ ''|'' @ now_repr @ ''|'' @ owner))"

definition new_attempt :: "time \<Rightarrow> string \<Rightarrow> string \<Rightarrow> string \<Rightarrow> string \<Rightarrow> string \<Rightarrow> semantics_text
    \<Rightarrow> string \<Rightarrow> string \<Rightarrow> time \<Rightarrow> snapshot option \<Rightarrow> attempt" where
  "new_attempt now att eid aid did capability sem idem owner lease snap =
     \<lparr>at_id = att, at_execution = eid, at_approval = aid, at_device = Some did,
      at_capability = capability, at_semantics = sem, at_idempotency_key = idem,
      at_status = CLAIMED, at_lease_owner = Some owner, at_lease_expires = Some (now + lease),
      at_claimed_at = now, at_boundary_at = None, at_finished_at = None, at_detail = None,
      at_bound = (snap \<noteq> None), at_core = map_option sn_core snap,
      at_principal = map_option sn_principal snap,
      at_environment = map_option sn_environment snap,
      at_enrollment = map_option sn_enrollment snap,
      at_approval_key = map_option sn_approval_key snap,
      at_app_attest_key = map_option sn_app_attest_key snap\<rparr>"

text \<open>\<open>now_repr\<close> is the text \<open>repr(now)\<close> that goes into the attempt id.\<close>

definition claim_execution_attempt :: "(string \<Rightarrow> string) \<Rightarrow> time \<Rightarrow> string \<Rightarrow> string \<Rightarrow> string
    \<Rightarrow> identity list \<Rightarrow> string \<Rightarrow> string \<Rightarrow> semantics_text \<Rightarrow> string \<Rightarrow> string \<Rightarrow> time
    \<Rightarrow> string option \<Rightarrow> store \<Rightarrow> (string option \<times> string) result \<times> store" where
  "claim_execution_attempt H now now_repr aid did identities eid capability sem idem owner lease
       core s =
     (if identities = [] then (Inl (ValueError ''claim_execution requires at least one identity''), s)
      else if sem \<notin> set ALL_SEMANTICS then (Inl (ValueError ''unknown execution semantics''), s)
      else atomically s
        (if list_ex (\<lambda>a. at_execution a = eid \<and> at_status a = SUCCEEDED) (st_attempts s)
         then Inr ((None, ''already_succeeded''),
                audit now ''execution_already_succeeded'' (Some aid) (Some did) (Some eid) None s)
         else case select_one (\<lambda>a. at_execution a = eid \<and> is_open (at_status a)) (st_attempts s) of
           Some row \<Rightarrow> Inr ((None, ''attempt_in_flight:'' @ status_name (at_status row)),
                audit now ''execution_attempt_in_flight'' (Some aid) (Some did)
                  (Some (status_name (at_status row))) None s)
         | None \<Rightarrow>
             (case claim_execution_row now aid did identities s of
                Inl e \<Rightarrow> Inl e
              | Inr (won, s1) \<Rightarrow>
                  if \<not> won then Inr ((None, ''claim_rejected''), s1)
                  else
                    let att = attempt_id_for H eid now_repr owner;
                        snap = claim_authority_snapshot H aid did core s1
                    in case insert_pk at_id
                          (new_attempt now att eid aid did capability sem idem owner lease snap)
                          (st_attempts s1) of
                         Inl e \<Rightarrow> Inl e
                       | Inr t \<Rightarrow>
                           (case put_attempts t s1 of
                              Inl e \<Rightarrow> Inl e
                            | Inr s2 \<Rightarrow> Inr ((Some att, ''ok''),
                                audit now ''execution_attempt_claimed'' (Some aid) (Some did)
                                  (Some att) None s2)))))"

section \<open>The durable boundary\<close>

definition update_attempt :: "string \<Rightarrow> attempt_status \<Rightarrow> (attempt \<Rightarrow> attempt) \<Rightarrow> store
    \<Rightarrow> (bool \<times> store) result" where
  "update_attempt att st f s =
     (let hit = (\<lambda>a. at_id a = att \<and> at_status a = st) in
      case put_attempts (update_where hit f (st_attempts s)) s of
        Inl e \<Rightarrow> Inl e
      | Inr s' \<Rightarrow> Inr (rowcount hit (st_attempts s) = 1, s'))"

definition begin_external :: "time \<Rightarrow> string \<Rightarrow> identity list \<Rightarrow> store \<Rightarrow> string result \<times> store" where
  "begin_external now att identities s =
     (if identities = []
      then (Inl (ValueError ''begin_external_execution requires at least one identity''), s)
      else atomically s
        (case get_attempt att s of
           None \<Rightarrow> exec_deny now None None ''unknown_attempt'' s
         | Some row \<Rightarrow>
             if at_status row \<noteq> CLAIMED
             then exec_deny now (Some (at_approval row)) (at_device row)
                    (''attempt_not_claimed:'' @ status_name (at_status row)) s
             else if list_ex (\<lambda>i. revoked_pair i s) identities then
               (case update_attempt att CLAIMED (\<lambda>a. a\<lparr>at_status := ABANDONED,
                       at_finished_at := Some now,
                       at_detail := Some ''revoked_before_external_start''\<rparr>) s of
                  Inl e \<Rightarrow> Inl e
                | Inr (_, s1) \<Rightarrow>
                    (case cas_transition now (at_approval row) FAILED (at_device row)
                            (Some ''revoked_before_external_start'') False s1 of
                       Inl e \<Rightarrow> Inl e
                     | Inr (_, s2) \<Rightarrow> Inr (''device_revoked'',
                         audit now ''execution_abandoned_revoked'' (Some (at_approval row))
                           (at_device row) (Some att) None s2)))
             else
               (case update_attempt att CLAIMED (\<lambda>a. a\<lparr>at_status := EXTERNAL_PENDING,
                       at_boundary_at := Some now\<rparr>) s of
                  Inl e \<Rightarrow> Inl e
                | Inr (hit, s1) \<Rightarrow>
                    if \<not> hit then exec_deny now (Some (at_approval row)) (at_device row)
                                    ''boundary_lost'' s1
                    else Inr (''ok'', audit now ''execution_external_boundary''
                           (Some (at_approval row)) (at_device row) (Some att) None s1))))"

section \<open>The outcome\<close>

definition finished_row :: "time \<Rightarrow> attempt_status \<Rightarrow> string option \<Rightarrow> attempt \<Rightarrow> attempt" where
  "finished_row now st detail a = a\<lparr>at_status := st, at_finished_at := Some now,
     at_detail := (if truthy detail then Some (take 200 (or_empty detail)) else None),
     at_lease_owner := None, at_lease_expires := None\<rparr>"

lemma finished_row_fields [simp]:
  "at_id (finished_row now st detail a) = at_id a"
  "at_execution (finished_row now st detail a) = at_execution a"
  "at_approval (finished_row now st detail a) = at_approval a"
  "at_status (finished_row now st detail a) = st"
  by (simp_all add: finished_row_def)

definition finish_body :: "time \<Rightarrow> string \<Rightarrow> attempt_status \<Rightarrow> string option \<Rightarrow> request_state option
    \<Rightarrow> attempt_status option \<Rightarrow> store \<Rightarrow> (string \<times> store) result" where
  "finish_body now att st detail req_state expected s =
     (case get_attempt att s of
        None \<Rightarrow> exec_deny now None None ''unknown_attempt'' s
      | Some row \<Rightarrow>
          let aid = Some (at_approval row); dev = at_device row in
          if at_status row \<in> set TERMINAL_STATUSES
          then exec_deny now aid dev (''attempt_already_final:'' @ status_name (at_status row)) s
          else if expected \<noteq> None \<and> Some (at_status row) \<noteq> expected
          then exec_deny now aid dev (''expected_status_mismatch:'' @
                 status_name (the expected) @ ''->'' @ status_name (at_status row)) s
          else
            (case update_attempt att (at_status row) (finished_row now st detail) s of
               Inl e \<Rightarrow> Inl e
             | Inr (hit, s1) \<Rightarrow>
                 if \<not> hit then exec_deny now aid dev ''outcome_lost'' s1
                 else
                   (case (case req_state of
                       None \<Rightarrow> Inr s1
                     | Some rs \<Rightarrow>
                         (case cas_transition now (at_approval row) rs dev
                             (if st = SUCCEEDED then None
                              else if truthy detail then Some (take 120 (or_empty detail))
                              else Some (status_name st)) False s1 of
                            Inl e \<Rightarrow> Inl e | Inr (_, s2) \<Rightarrow> Inr s2)) of
                      Inl e \<Rightarrow> Inl e
                    | Inr s2 \<Rightarrow> Inr (''ok'', audit now (''execution_'' @ status_lower st) aid dev
                                      (Some att) None s2))))"

definition finish_attempt :: "time \<Rightarrow> string \<Rightarrow> attempt_status \<Rightarrow> string option \<Rightarrow> request_state option
    \<Rightarrow> attempt_status option \<Rightarrow> store \<Rightarrow> string result \<times> store" where
  "finish_attempt now att st detail req_state expected s =
     (let conflict = (\<lambda>m. (Inr ''conflict'',
            audit now ''execution_outcome_conflict'' None None (Some (take 120 m)) None s))
      in case finish_body now att st detail req_state expected s of
           Inl (IllegalTransition m) \<Rightarrow> conflict m
         | Inl (ConcurrentTransition m) \<Rightarrow> conflict m
         | Inl e \<Rightarrow> (Inl e, s)
         | Inr (out, s') \<Rightarrow> (Inr out, s'))"

definition finish_execution_attempt :: "time \<Rightarrow> string \<Rightarrow> attempt_status \<Rightarrow> string option
    \<Rightarrow> request_state option \<Rightarrow> attempt_status option \<Rightarrow> store \<Rightarrow> string result \<times> store" where
  "finish_execution_attempt now att st detail req_state expected s =
     (if st \<notin> {SUCCEEDED, FAILED_SAFE, UNKNOWN, ABANDONED}
      then (Inl (ValueError ''not an outcome''), s)
      else finish_attempt now att st detail req_state expected s)"

section \<open>Reading the journal, and the recovery lease\<close>

definition open_attempt_for :: "string \<Rightarrow> store \<Rightarrow> attempt option" where
  "open_attempt_for eid s =
     select_one (\<lambda>a. at_execution a = eid \<and> is_open (at_status a)) (st_attempts s)"

definition open_attempt_by_id :: "string \<Rightarrow> store \<Rightarrow> attempt option" where
  "open_attempt_by_id att s =
     select_one (\<lambda>a. at_id a = att \<and> is_open (at_status a)) (st_attempts s)"

definition open_execution_attempts :: "store \<Rightarrow> attempt list" where
  "open_execution_attempts s =
     sort_key at_claimed_at (filter (\<lambda>a. is_open (at_status a)) (st_attempts s))"

definition attempts_for :: "string \<Rightarrow> store \<Rightarrow> attempt list" where
  "attempts_for eid s = sort_key at_claimed_at (filter (\<lambda>a. at_execution a = eid) (st_attempts s))"

definition lease_hit :: "time \<Rightarrow> string \<Rightarrow> attempt \<Rightarrow> bool" where
  "lease_hit now owner a \<longleftrightarrow> is_open (at_status a) \<and>
     (at_lease_owner a = None \<or> at_lease_owner a = Some owner \<or>
      (case at_lease_expires a of None \<Rightarrow> False | Some e \<Rightarrow> e < now))"

definition acquire_recovery_lease :: "time \<Rightarrow> string \<Rightarrow> string \<Rightarrow> time \<Rightarrow> store
    \<Rightarrow> string result \<times> store" where
  "acquire_recovery_lease now att owner lease s = atomically s
     (let hit = (\<lambda>a. at_id a = att \<and> lease_hit now owner a) in
      case put_attempts (update_where hit (\<lambda>a. a\<lparr>at_lease_owner := Some owner,
              at_lease_expires := Some (now + lease)\<rparr>) (st_attempts s)) s of
        Inl e \<Rightarrow> Inl e
      | Inr s' \<Rightarrow>
          if rowcount hit (st_attempts s) = 1
          then Inr (''ok'', audit now ''execution_lease_acquired'' None None
                     (Some (att @ '':'' @ owner)) None s')
          else Inr (''lease_held'', s'))"

section \<open>The re-check in front of a retry\<close>

definition binding_fields :: "attempt \<Rightarrow> approval_request \<Rightarrow> device \<Rightarrow> string option \<Rightarrow> string option
    \<Rightarrow> string option \<Rightarrow> (string \<times> string option \<times> string) list" where
  "binding_fields a req dev fp aakid core =
     [(''core_instance'', at_core a, or_empty core),
      (''principal'', at_principal a, rq_principal req),
      (''environment'', at_environment a, or_empty (dv_environment dev)),
      (''enrollment'', at_enrollment a, or_empty (dv_enrollment dev)),
      (''approval_key'', at_approval_key a, or_empty fp),
      (''app_attest_key'', at_app_attest_key a, or_empty aakid)]"

text \<open>\<open>_claim_binding_mismatch\<close>: the first field that changed since the claim.\<close>

definition claim_binding_mismatch :: "time \<Rightarrow> attempt \<Rightarrow> approval_request \<Rightarrow> device \<Rightarrow> string option
    \<Rightarrow> string option \<Rightarrow> string option \<Rightarrow> store \<Rightarrow> string option \<times> store" where
  "claim_binding_mismatch now a req dev fp aakid core s =
     (if \<not> at_bound a then (Some ''claim_identity_unbound'', s)
      else case List.find (\<lambda>(l, claimed, current). or_empty claimed \<noteq> current)
                  (binding_fields a req dev fp aakid core) of
             None \<Rightarrow> (None, s)
           | Some (label, _) \<Rightarrow>
               (Some (''claim_authority_changed:'' @ label),
                audit now ''execution_rejected_claim_rebound'' (Some (at_approval a)) (at_device a)
                  (Some label) None s))"

definition recheck_body :: "(string \<Rightarrow> string) \<Rightarrow> time \<Rightarrow> string \<Rightarrow> string list \<Rightarrow> string option
    \<Rightarrow> store \<Rightarrow> (string \<times> store) result" where
  "recheck_body H now att envs core s =
     (case get_attempt att s of
        None \<Rightarrow> exec_deny now None None ''unknown_attempt'' s
      | Some a \<Rightarrow>
          let deny = (\<lambda>reason. exec_deny now (Some (at_approval a)) (at_device a) reason) in
          if \<not> is_open (at_status a)
          then deny (''attempt_not_open:'' @ status_name (at_status a)) s
          else case execution_id_for H (or_empty core) (at_approval a) of
            Inl e \<Rightarrow> Inl e
          | Inr eid \<Rightarrow>
              if at_execution a \<noteq> eid then deny ''wrong_core_instance'' s
              else case get_request (at_approval a) s of
                None \<Rightarrow> deny ''unknown_request'' s
              | Some req \<Rightarrow>
                  if rq_state req \<notin> {EXECUTING, APPROVED}
                  then deny (''request_not_executable:'' @ state_name (rq_state req)) s
                  else if now > rq_expires req then deny ''request_expired'' s
                  else if rq_decided_device req \<noteq> at_device a
                  then deny ''device_binding_mismatch'' s
                  else case select_one (\<lambda>d. Some (dv_id d) = at_device a) (st_devices s) of
                    None \<Rightarrow> deny ''unknown_device'' s
                  | Some dev \<Rightarrow>
                      let auth = execution_authority H req dev envs s in
                      (case au_refusal auth of
                         Some reason \<Rightarrow>
                           deny reason
                             (if reason = ''device_revoked''
                              then audit now ''execution_rejected_revoked_key''
                                     (Some (at_approval a)) (at_device a)
                                     (if truthy (au_revoked_kind auth) then au_revoked_kind auth
                                      else Some (device_status_name (dv_status dev))) None s
                              else s)
                       | None \<Rightarrow>
                           (case claim_binding_mismatch now a req dev (au_fingerprint auth)
                                   (au_app_attest auth) core s of
                              (Some bound, s') \<Rightarrow> deny bound s'
                            | (None, s') \<Rightarrow> Inr (''ok'', s'))))"

definition recheck_execution_authority :: "(string \<Rightarrow> string) \<Rightarrow> time \<Rightarrow> string \<Rightarrow> string list
    \<Rightarrow> string option \<Rightarrow> store \<Rightarrow> string result \<times> store" where
  "recheck_execution_authority H now att envs core s = atomically s (recheck_body H now att envs core s)"

section \<open>Lemmas: the journal stays exclusive\<close>

text \<open>
  Stronger than both unique indexes together: per execution identity at most one attempt is open or
  has succeeded.
\<close>

definition live_attempt :: "attempt \<Rightarrow> bool" where
  "live_attempt a \<longleftrightarrow> is_open (at_status a) \<or> at_status a = SUCCEEDED"

definition journal_exclusive :: "attempt list \<Rightarrow> bool" where
  "journal_exclusive t \<longleftrightarrow> one_per_execution live_attempt t"

lemma live_statuses: "live_attempt a \<longleftrightarrow> at_status a \<noteq> FAILED_SAFE \<and> at_status a \<noteq> ABANDONED"
  by (cases "at_status a") (auto simp: live_attempt_def OPEN_STATUSES_def)

lemma one_per_execution_weaken:
  assumes "one_per_execution p t" and "\<And>a. q a \<Longrightarrow> p a"
  shows "one_per_execution q t"
proof -
  have "filter q t = filter q (filter p t)"
    using assms(2) by (auto intro: filter_cong)
  with assms(1) distinct_map_filter [of at_execution "filter p t" q] show ?thesis
    by (simp add: one_per_execution_def)
qed

lemma journal_exclusive_indexes: "journal_exclusive t \<Longrightarrow> journal_indexes t"
  unfolding journal_exclusive_def journal_indexes_def
  by (auto elim!: one_per_execution_weaken simp: live_attempt_def)

lemma one_per_execution_update:
  assumes "one_per_execution p t" and "\<And>a. h a \<Longrightarrow> at_execution (f a) = at_execution a"
    and "\<And>a. h a \<Longrightarrow> p (f a) \<Longrightarrow> p a"
  shows "one_per_execution p (update_where h f t)"
proof -
  let ?g = "\<lambda>a. if h a then f a else a"
  have "one_per_execution (p \<circ> ?g) t"
    using assms(3) by (intro one_per_execution_weaken [OF assms(1)]) (auto split: if_splits)
  moreover have "map at_execution (filter p (map ?g t)) = map at_execution (filter (p \<circ> ?g) t)"
    using assms(2) by (induction t) auto
  ultimately show ?thesis by (simp add: one_per_execution_def update_where_def)
qed

lemma journal_exclusive_update:
  assumes "journal_exclusive t" and "\<And>a. h a \<Longrightarrow> at_execution (f a) = at_execution a"
    and "\<And>a. h a \<Longrightarrow> is_open (at_status a)"
  shows "journal_exclusive (update_where h f t)"
  using assms unfolding journal_exclusive_def
  by (intro one_per_execution_update) (auto simp: live_attempt_def)

lemma journal_exclusive_append:
  "journal_exclusive t \<Longrightarrow> (\<And>b. b \<in> set t \<Longrightarrow> live_attempt b \<Longrightarrow> at_execution b \<noteq> at_execution a) \<Longrightarrow>
   journal_exclusive (t @ [a])"
  by (auto simp: journal_exclusive_def one_per_execution_def) metis

text \<open>A status update of an attempt that is still open never trips an index.\<close>

lemma update_attempt_open:
  assumes "journal_exclusive (st_attempts s)" and "is_open st"
    and "\<And>a. at_execution (f a) = at_execution a"
  shows "update_attempt att st f s = Inr (rowcount (\<lambda>a. at_id a = att \<and> at_status a = st) (st_attempts s) = 1,
      s\<lparr>st_attempts := update_where (\<lambda>a. at_id a = att \<and> at_status a = st) f (st_attempts s)\<rparr>)"
proof -
  have "journal_exclusive (update_where (\<lambda>a. at_id a = att \<and> at_status a = st) f (st_attempts s))"
    using assms by (intro journal_exclusive_update) auto
  then show ?thesis
    by (simp add: update_attempt_def Let_def put_attempts_def journal_exclusive_indexes)
qed

lemma update_attempt_Inr:
  assumes "update_attempt att st f s = Inr (hit, s')"
  shows "s' = s\<lparr>st_attempts := update_where (\<lambda>a. at_id a = att \<and> at_status a = st) f (st_attempts s)\<rparr>"
    and "hit = (rowcount (\<lambda>a. at_id a = att \<and> at_status a = st) (st_attempts s) = 1)"
  using assms by (auto simp: update_attempt_def Let_def put_attempts_Inr_iff split: sum.splits)

lemma exec_deny_Inr:
  "exec_deny now aid dev reason s = Inr (out, s') \<longleftrightarrow>
   out = reason \<and> s' = audit now ''execution_rejected'' aid dev (Some reason) None s"
  by (auto simp: exec_deny_def)

section \<open>Lemmas: the claim\<close>

text \<open>What a claim needs, and what it writes.\<close>

definition claim_authority :: "time \<Rightarrow> string \<Rightarrow> string \<Rightarrow> identity list \<Rightarrow> store \<Rightarrow> bool" where
  "claim_authority now aid did identities s \<longleftrightarrow>
     (\<exists>r. get_request aid s = Some r \<and> rq_state r = APPROVED \<and> rq_decided_device r = Some did \<and>
          now < rq_expires r) \<and>
     (\<exists>d\<in>set (st_devices s). dv_id d = did \<and> dv_status d = DEVICE_ACTIVE \<and>
          dv_attestation d = ATT_ATTESTED) \<and>
     (\<forall>i\<in>set identities. \<not> revoked_pair i s)"

lemma claim_row_Inr:
  assumes "claim_execution_row now aid did identities s = Inr (won, s')"
  shows "s' = audit now (if won then ''state_'' @ state_name EXECUTING else ''execution_claim_rejected'')
      (Some aid) (Some did) (if won then None else Some ''expired_revoked_or_inactive'') None
      (s\<lparr>st_requests := update_where (claim_hit now aid did identities s)
          (\<lambda>r. r\<lparr>rq_state := EXECUTING\<rparr>) (st_requests s)\<rparr>)"
    and "won = (rowcount (claim_hit now aid did identities s) (st_requests s) = 1)"
  using assms by (auto simp: claim_execution_row_def Let_def split: if_splits)

lemma claim_row_won:
  assumes "distinct (map rq_id (st_requests s))"
    and "claim_execution_row now aid did identities s = Inr (True, s')"
  shows "claim_authority now aid did identities s"
    and "\<exists>r. get_request aid s = Some r \<and> get_request aid s' = Some (r\<lparr>rq_state := EXECUTING\<rparr>)"
proof -
  let ?q = "\<lambda>r. rq_state r = APPROVED \<and> rq_decided_device r = Some did \<and> rq_expires r > now \<and>
     list_ex (\<lambda>d. Some (dv_id d) = rq_decided_device r \<and> dv_status d = DEVICE_ACTIVE \<and>
                  dv_attestation d = ATT_ATTESTED) (st_devices s) \<and>
     \<not> list_ex (\<lambda>i. revoked_pair i s) identities"
  have "claim_hit now aid did identities s = (\<lambda>r. rq_id r = aid \<and> ?q r)"
    by (auto simp: claim_hit_def fun_eq_iff)
  with claim_row_Inr(2) [OF assms(2)] have "rowcount (\<lambda>r. rq_id r = aid \<and> ?q r) (st_requests s) = 1"
    by simp
  from rowcount_1_by_key [OF assms(1) this] obtain r where r: "get_request aid s = Some r" "?q r"
    by blast
  then show "claim_authority now aid did identities s"
    by (auto simp: claim_authority_def list_ex_iff)
  from r have "claim_hit now aid did identities s r"
    by (auto simp: claim_hit_def dest: by_key_SomeD)
  with r claim_row_Inr(1) [OF assms(2)]
  show "\<exists>r. get_request aid s = Some r \<and> get_request aid s' = Some (r\<lparr>rq_state := EXECUTING\<rparr>)"
    by (auto simp: by_key_update_Some)
qed

lemma claim_row_frame:
  assumes "claim_execution_row now aid did identities s = Inr (won, s')"
  shows "st_devices s' = st_devices s" "st_attempts s' = st_attempts s"
    "st_challenges s' = st_challenges s" "st_tokens s' = st_tokens s"
    "st_att_challenges s' = st_att_challenges s" "st_history s' = st_history s"
    "st_revocations s' = st_revocations s" "map rq_id (st_requests s') = map rq_id (st_requests s)"
  using claim_row_Inr(1) [OF assms] by (auto simp: keys_update)

lemma new_attempt_fields [simp]:
  "at_id (new_attempt now att eid aid did cap sem idem owner lease snap) = att"
  "at_execution (new_attempt now att eid aid did cap sem idem owner lease snap) = eid"
  "at_approval (new_attempt now att eid aid did cap sem idem owner lease snap) = aid"
  "at_device (new_attempt now att eid aid did cap sem idem owner lease snap) = Some did"
  "at_status (new_attempt now att eid aid did cap sem idem owner lease snap) = CLAIMED"
  by (simp_all add: new_attempt_def)

text \<open>The answers of a claim that does not raise, and what each leaves behind.\<close>

lemma claim_attempt_cases:
  assumes "claim_execution_attempt H now nr aid did identities eid cap sem idem owner lease core s
      = (Inr (out, why), s')"
  obtains (refused) ev r where "out = None" "s' = audit now ev (Some aid) (Some did) r None s"
      "why \<noteq> ''claim_rejected''"
    | (rejected) "out = None" "why = ''claim_rejected''"
      "claim_execution_row now aid did identities s = Inr (False, s')"
    | (claimed) att s1 t where "out = Some att" "why = ''ok''"
      "\<forall>a\<in>set (st_attempts s). at_execution a = eid \<longrightarrow> \<not> live_attempt a"
      "claim_execution_row now aid did identities s = Inr (True, s1)"
      "att = attempt_id_for H eid nr owner"
      "t = st_attempts s @ [new_attempt now att eid aid did cap sem idem owner lease
              (claim_authority_snapshot H aid did core s1)]"
      "att \<notin> at_id ` set (st_attempts s)"
      "s' = audit now ''execution_attempt_claimed'' (Some aid) (Some did) (Some att) None
              (s1\<lparr>st_attempts := t\<rparr>)"
      "identities \<noteq> []"
proof -
  let ?succ = "list_ex (\<lambda>a. at_execution a = eid \<and> at_status a = SUCCEEDED) (st_attempts s)"
  let ?open = "select_one (\<lambda>a. at_execution a = eid \<and> is_open (at_status a)) (st_attempts s)"
  have ids: "identities \<noteq> []" using assms by (auto simp: claim_execution_attempt_def)
  consider "?succ" | row where "\<not> ?succ" "?open = Some row" | "\<not> ?succ" "?open = None" by fastforce
  then show thesis
  proof cases
    case 1
    with assms show thesis
      by (auto simp: claim_execution_attempt_def atomically_Inr_iff split: if_splits intro: refused)
  next
    case 2
    with assms show thesis
      by (auto simp: claim_execution_attempt_def atomically_Inr_iff split: if_splits intro: refused)
  next
    case 3
    then have none: "\<forall>a\<in>set (st_attempts s). at_execution a = eid \<longrightarrow> \<not> live_attempt a"
      by (auto simp: live_attempt_def list_ex_iff select_one_def find_None_iff)
    from 3 assms obtain won s1 where row: "claim_execution_row now aid did identities s = Inr (won, s1)"
      by (auto simp: claim_execution_attempt_def atomically_Inr_iff split: if_splits sum.splits)
    show thesis
    proof (cases won)
      case False
      with 3 assms row show thesis
        by (auto simp: claim_execution_attempt_def atomically_Inr_iff split: if_splits intro: rejected)
    next
      case True
      with 3 assms row none ids claim_row_frame(2) [OF row] show thesis
        by (auto simp: claim_execution_attempt_def atomically_Inr_iff Let_def insert_pk_Inr_iff
            put_attempts_Inr_iff split: if_splits sum.splits intro!: claimed)
    qed
  qed
qed

lemma claim_attempt_ok:
  assumes keys: "store_keys_distinct s"
    and c: "claim_execution_attempt H now nr aid did identities eid cap sem idem owner lease core s
      = (Inr (Some att, why), s')"
  shows "claim_authority now aid did identities s \<and> identities \<noteq> [] \<and>
    (\<forall>a\<in>set (st_attempts s). at_execution a = eid \<longrightarrow> \<not> live_attempt a) \<and>
    (\<exists>r. get_request aid s = Some r \<and> get_request aid s' = Some (r\<lparr>rq_state := EXECUTING\<rparr>)) \<and>
    (\<exists>a. get_attempt att s' = Some a \<and> at_execution a = eid \<and> at_approval a = aid \<and>
         at_status a = CLAIMED)"
  using c
proof (cases rule: claim_attempt_cases)
  case (claimed att' s1 t)
  have "distinct (map rq_id (st_requests s))" using keys by (simp add: store_keys_distinct_def)
  note won = claim_row_won [OF this claimed(4)]
  have "get_attempt att s' = Some (new_attempt now att eid aid did cap sem idem owner lease
      (claim_authority_snapshot H aid did core s1))"
    using claimed by_key_append_new [of at_id "new_attempt now att eid aid did cap sem idem owner
      lease (claim_authority_snapshot H aid did core s1)" "st_attempts s"] by simp
  with won claimed show ?thesis by auto
qed auto


lemma demo_claim:
  "\<exists>att s'. claim_execution_attempt id_hash 6 ''6.0'' ''a1'' ''dev-1'' demo_identities
     ''exec-1'' ''codex_task'' (Sem NON_IDEMPOTENT_WRITE) ''ik'' ''core-1'' 300 (Some ''core'')
     demo_approved = (Inr (Some att, ''ok''), s')"
proof -
  let ?r = "claim_execution_attempt id_hash 6 ''6.0'' ''a1'' ''dev-1'' demo_identities
     ''exec-1'' ''codex_task'' (Sem NON_IDEMPOTENT_WRITE) ''ik'' ''core-1'' 300 (Some ''core'')
     demo_approved"
  have "fst ?r = Inr (Some (attempt_id_for id_hash ''exec-1'' ''6.0'' ''core-1''), ''ok'')"
    by code_simp
  then show ?thesis by (metis prod.collapse)
qed


lemma begin_external_ok:
  assumes keys: "store_keys_distinct s"
    and b: "begin_external now att identities s = (Inr ''ok'', s')"
  shows "\<exists>a. get_attempt att s = Some a \<and> at_status a = CLAIMED \<and>
    (\<forall>i\<in>set identities. \<not> revoked_pair i s) \<and>
    get_attempt att s' = Some (a\<lparr>at_status := EXTERNAL_PENDING, at_boundary_at := Some now\<rparr>)"
proof (cases "get_attempt att s")
  case None
  with b show ?thesis
    by (auto simp: begin_external_def exec_deny_def split: if_splits)
next
  case (Some a)
  note a = this
  have st: "at_status a = CLAIMED"
    using b a by (auto simp: begin_external_def exec_deny_def split: if_splits)
  have nr: "\<forall>i\<in>set identities. \<not> revoked_pair i s"
    using b a st by (auto simp: begin_external_def atomically_Inr_iff list_ex_iff
        split: if_splits sum.splits)
  then have "\<not> list_ex (\<lambda>i. revoked_pair i s) identities" by (simp add: list_ex_iff)
  with b a st obtain hit s1 where
    u: "update_attempt att CLAIMED (\<lambda>a. a\<lparr>at_status := EXTERNAL_PENDING, at_boundary_at := Some now\<rparr>) s
       = Inr (hit, s1)"
    and h: "hit \<longrightarrow> s' = audit now ''execution_external_boundary'' (Some (at_approval a)) (at_device a)
       (Some att) None s1" "\<not> hit \<longrightarrow> False"
    by (auto simp: begin_external_def atomically_Inr_iff exec_deny_def split: if_splits sum.splits)
  have "get_attempt att s1 = Some (a\<lparr>at_status := EXTERNAL_PENDING, at_boundary_at := Some now\<rparr>)"
    using update_attempt_Inr(1) [OF u] a st by (auto simp: by_key_update_Some dest: by_key_SomeD)
  with h a st nr show ?thesis by auto
qed

text \<open>
  C4: the boundary in front of the external call is durable before anything may be called: an ok
  means the attempt was CLAIMED, no checked identity was revoked, and the attempt now says
  EXTERNAL_PENDING, stamped with the time of the boundary, everything else of it unchanged.
\<close>

theorem boundary_is_durable_first:
  assumes keys: "store_keys_distinct s"
    and b: "begin_external now att identities s = (Inr ''ok'', s')"
  shows "\<exists>a. get_attempt att s = Some a \<and> at_status a = CLAIMED \<and>
    (\<forall>i\<in>set identities. \<not> revoked_pair i s) \<and>
    get_attempt att s' = Some (a\<lparr>at_status := EXTERNAL_PENDING, at_boundary_at := Some now\<rparr>)"
  by (rule begin_external_ok [OF keys b])

theorem boundary_is_durable_first_witness:
  "\<exists>a. get_attempt ''att-1'' (snd (begin_external 7 ''att-1'' demo_identities demo_claimed)) = Some a
     \<and> at_status a = EXTERNAL_PENDING"
proof -
  let ?r = "begin_external 7 ''att-1'' demo_identities demo_claimed"
  have "fst ?r = Inr ''ok''" by code_simp
  then have "?r = (Inr ''ok'', snd ?r)" by (metis prod.collapse)
  from boundary_is_durable_first [OF demo_distinct(2) this] show ?thesis by auto
qed

section \<open>Lemmas: giving up, finishing, leases, re-checking\<close>

text \<open>
  If a checked identity was revoked while the attempt was merely CLAIMED, the attempt is
  abandoned without ever having crossed the boundary and its request is failed, both in the one
  transaction; no exception and no conflict can keep the request EXECUTING.
\<close>

theorem revoked_claim_never_starts:
  assumes keys: "store_keys_distinct s" and excl: "journal_exclusive (st_attempts s)"
    and a: "get_attempt att s = Some a" "at_status a = CLAIMED"
    and r: "get_request (at_approval a) s = Some r" "rq_state r = EXECUTING"
    and i: "i \<in> set identities" "revoked_pair i s"
  shows "\<exists>s' a' r'. begin_external now att identities s = (Inr ''device_revoked'', s') \<and>
    get_attempt att s' = Some a' \<and> at_status a' = ABANDONED \<and> at_boundary_at a' = at_boundary_at a \<and>
    get_request (at_approval a) s' = Some r' \<and> rq_state r' = FAILED"
proof -
  let ?f = "\<lambda>a. a\<lparr>at_status := ABANDONED, at_finished_at := Some now,
     at_detail := Some ''revoked_before_external_start''\<rparr>"
  let ?t = "update_where (\<lambda>a. at_id a = att \<and> at_status a = CLAIMED) ?f (st_attempts s)"
  let ?s1 = "s\<lparr>st_attempts := ?t\<rparr>"
  have u: "update_attempt att CLAIMED ?f s
      = Inr (rowcount (\<lambda>a. at_id a = att \<and> at_status a = CLAIMED) (st_attempts s) = 1, ?s1)"
    by (rule update_attempt_open [OF excl]) (simp_all add: OPEN_STATUSES_def)
  have "\<exists>s2. cas_transition now (at_approval a) FAILED (at_device a)
      (Some ''revoked_before_external_start'') False ?s1 = Inr (rq_state r, s2)"
    by (rule cas_transition_succeeds) (use keys r in \<open>simp_all add: store_keys_distinct_def\<close>)
  then obtain s2 where c: "cas_transition now (at_approval a) FAILED (at_device a)
      (Some ''revoked_before_external_start'') False ?s1 = Inr (rq_state r, s2)" by blast
  have rev: "list_ex (\<lambda>i. revoked_pair i s) identities" using i by (auto simp: list_ex_iff)
  have "get_attempt att ?s1 = Some (?f a)"
    using a by (auto simp: by_key_update_Some dest: by_key_SomeD)
  moreover have "st_attempts s2 = st_attempts ?s1" by (rule cas_transition_frame(6) [OF c])
  moreover from cas_transition_target [OF c] obtain q where
    "get_request (at_approval a) s2 = Some q" "rq_state q = FAILED" by auto
  moreover have "begin_external now att identities s = (Inr ''device_revoked'',
      audit now ''execution_abandoned_revoked'' (Some (at_approval a)) (at_device a) (Some att) None s2)"
    using a rev u c i by (auto simp: begin_external_def)
  ultimately show ?thesis by auto
qed

theorem revoked_claim_never_starts_witness:
  "\<exists>s' r'. begin_external 8 ''att-1'' demo_identities demo_revoked = (Inr ''device_revoked'', s') \<and>
     get_request ''a1'' s' = Some r' \<and> rq_state r' = FAILED"
proof -
  have 1: "journal_exclusive (st_attempts demo_revoked)"
    by (simp add: demo_defs journal_exclusive_def one_per_execution_def)
  have 2: "get_attempt ''att-1'' demo_revoked = Some demo_attempt" "at_status demo_attempt = CLAIMED"
    "at_approval demo_attempt = ''a1''"
    "get_request (at_approval demo_attempt) demo_revoked = Some demo_executing"
    "rq_state demo_executing = EXECUTING"
    by (simp_all add: demo_defs by_key_Cons)
  have 3: "(REVOKE_DEVICE, ''dev-1'') \<in> set demo_identities"
    "revoked_pair (REVOKE_DEVICE, ''dev-1'') demo_revoked"
    by (simp_all add: demo_defs revoked_pair_def)
  from revoked_claim_never_starts [OF demo_distinct(3) 1 2(1,2,4,5) 3, of 8] 2(3)
  show ?thesis by auto
qed

text \<open>What a recorded outcome needs and leaves.\<close>

lemma finish_body_ok:
  assumes "finish_body now att st detail rs expected s = Inr (''ok'', s')"
  shows "\<exists>a s1. get_attempt att s = Some a \<and> is_open (at_status a) \<and>
    (expected = None \<or> expected = Some (at_status a)) \<and>
    s1 = s\<lparr>st_attempts := update_where (\<lambda>b. at_id b = att \<and> at_status b = at_status a)
        (finished_row now st detail) (st_attempts s)\<rparr> \<and>
    (\<exists>s2. s' = audit now (''execution_'' @ status_lower st) (Some (at_approval a)) (at_device a)
         (Some att) None s2 \<and>
       (case rs of None \<Rightarrow> s2 = s1
        | Some q \<Rightarrow> \<exists>cur err. cas_transition now (at_approval a) q (at_device a) err False s1
              = Inr (cur, s2)))"
proof (cases "get_attempt att s")
  case None
  with assms show ?thesis by (simp add: finish_body_def exec_deny_def)
next
  case (Some a)
  with assms have op: "is_open (at_status a)" and ex: "expected = None \<or> expected = Some (at_status a)"
    by (auto simp: finish_body_def Let_def exec_deny_def open_or_terminal split: if_splits)
  with assms Some obtain s1 where
    u: "update_attempt att (at_status a) (finished_row now st detail) s = Inr (True, s1)"
    by (auto simp: finish_body_def Let_def exec_deny_def open_or_terminal split: if_splits sum.splits)
  let ?err = "if st = SUCCEEDED then None else if truthy detail then Some (take 120 (or_empty detail))
     else Some (status_name st)"
  let ?log = "audit now (''execution_'' @ status_lower st) (Some (at_approval a)) (at_device a)
     (Some att) None"
  have nt: "at_status a \<notin> set TERMINAL_STATUSES" using op by (simp only: open_or_terminal simp_thms)
  have ne: "\<not> (expected \<noteq> None \<and> Some (at_status a) \<noteq> expected)" using ex by auto
  have body: "finish_body now att st detail rs expected s =
     (case (case rs of None \<Rightarrow> Inr s1 | Some q \<Rightarrow>
        (case cas_transition now (at_approval a) q (at_device a) ?err False s1 of
           Inl e \<Rightarrow> Inl e | Inr (_, s2) \<Rightarrow> Inr s2)) of
        Inl e \<Rightarrow> Inl e | Inr s2 \<Rightarrow> Inr (''ok'', ?log s2))"
    by (simp only: finish_body_def Some option.case Let_def nt ne if_False u sum.case prod.case
        not_True_eq_False)
  have "\<exists>s2. s' = ?log s2 \<and> (case rs of None \<Rightarrow> s2 = s1
        | Some q \<Rightarrow> \<exists>cur err. cas_transition now (at_approval a) q (at_device a) err False s1
              = Inr (cur, s2))"
  proof (cases rs)
    case (Some q)
    with assms body obtain cur s2 where
      "cas_transition now (at_approval a) q (at_device a) ?err False s1 = Inr (cur, s2)"
      "s' = ?log s2"
      by (auto split: sum.splits)
    with Some show ?thesis by auto
  qed (use assms body in auto)
  with Some op ex update_attempt_Inr(1) [OF u] show ?thesis by blast
qed

lemma finish_attempt_ok:
  "finish_attempt now att st detail rs expected s = (Inr ''ok'', s') \<Longrightarrow>
   finish_body now att st detail rs expected s = Inr (''ok'', s')"
  by (auto simp: finish_attempt_def Let_def split: sum.splits exn.splits)

text \<open>
  An outcome that is recorded was recorded on an open attempt that still had the status the
  caller decided against; a scan that saw CLAIMED can therefore never close an attempt that crossed
  the boundary in the meantime. A request state that goes with it moved along its lifecycle.
\<close>

theorem outcome_needs_the_status_decided_on:
  assumes keys: "store_keys_distinct s"
    and f: "finish_execution_attempt now att st detail rs expected s = (Inr ''ok'', s')"
  shows "\<exists>a b. get_attempt att s = Some a \<and> is_open (at_status a) \<and>
    (expected = None \<or> expected = Some (at_status a)) \<and>
    get_attempt att s' = Some b \<and> at_status b = st \<and> at_execution b = at_execution a \<and>
    st \<in> {SUCCEEDED, FAILED_SAFE, UNKNOWN, ABANDONED} \<and>
    (rs = None \<or> (\<exists>q r r'. rs = Some q \<and> get_request (at_approval a) s = Some r \<and>
        request_edge (rq_state r) q \<and> get_request (at_approval a) s' = Some r' \<and> rq_state r' = q))"
proof -
  from f have st: "st \<in> {SUCCEEDED, FAILED_SAFE, UNKNOWN, ABANDONED}"
    by (auto simp: finish_execution_attempt_def split: if_splits)
  with f have fa: "finish_attempt now att st detail rs expected s = (Inr ''ok'', s')"
    by (auto simp: finish_execution_attempt_def)
  let ?f = "finished_row now st detail"
  obtain a s1 s2 where a: "get_attempt att s = Some a" "is_open (at_status a)"
    "expected = None \<or> expected = Some (at_status a)"
    and s1: "s1 = s\<lparr>st_attempts := update_where (\<lambda>b. at_id b = att \<and> at_status b = at_status a) ?f
                      (st_attempts s)\<rparr>"
    and s': "s' = audit now (''execution_'' @ status_lower st) (Some (at_approval a)) (at_device a)
         (Some att) None s2"
    and rs: "case rs of None \<Rightarrow> s2 = s1
        | Some q \<Rightarrow> \<exists>cur err. cas_transition now (at_approval a) q (at_device a) err False s1
              = Inr (cur, s2)"
    using finish_body_ok [OF finish_attempt_ok [OF fa]] by blast
  have "get_attempt att s1 = Some (?f a)"
    using a(1) unfolding s1 by (auto simp: by_key_update_Some dest: by_key_SomeD)
  moreover have "st_attempts s2 = st_attempts s1"
    using rs by (auto split: option.splits dest: cas_transition_frame(6))
  ultimately have b: "get_attempt att s' = Some (?f a)" by (simp add: s')
  have "rs = None \<or> (\<exists>q r r'. rs = Some q \<and> get_request (at_approval a) s = Some r \<and>
        request_edge (rq_state r) q \<and> get_request (at_approval a) s' = Some r' \<and> rq_state r' = q)"
  proof (cases rs)
    case (Some q)
    with rs obtain cur err where
      "cas_transition now (at_approval a) q (at_device a) err False s1 = Inr (cur, s2)" by auto
    from cas_transition_target [OF this] Some s1 s' show ?thesis by auto
  qed simp
  then show ?thesis
    using a b st by (intro exI [of _ a] exI [of _ "?f a"] conjI) simp_all
qed

theorem outcome_needs_the_status_decided_on_witness:
  "\<exists>b. get_attempt ''att-1'' (snd (finish_execution_attempt 9 ''att-1'' ABANDONED None
     (Some FAILED) (Some CLAIMED) demo_claimed)) = Some b \<and> at_status b = ABANDONED"
proof -
  let ?r = "finish_execution_attempt 9 ''att-1'' ABANDONED None (Some FAILED) (Some CLAIMED)
     demo_claimed"
  have "fst ?r = Inr ''ok''" by code_simp
  then have "?r = (Inr ''ok'', snd ?r)" by (metis prod.collapse)
  from outcome_needs_the_status_decided_on [OF demo_distinct(2) this] show ?thesis by auto
qed

end
