(* ===== verification/Json.thy ===== *)
theory Json
  imports Encoding "HOL-Library.List_Lexorder" "HOL-Library.Char_ord"
begin

text \<open>
  The JSON texts the protocol signs and hashes: \<open>json.dumps\<close> with sorted keys, compact separators
  and \<open>ensure_ascii=False\<close>, as \<open>protocol.canonical_bytes\<close> and \<open>approval.action_digest\<close> call it. The
  text of a float is the argument \<open>show_float\<close>, Python's \<open>repr\<close>.
\<close>

section \<open>Strings\<close>

text \<open>\<open>json.dumps\<close> of a string with \<open>ensure_ascii=False\<close>.\<close>

definition json_escape :: "char \<Rightarrow> string" where
  "json_escape c =
     (if c = CHR 0x22 then [CHR 0x5C, CHR 0x22]
      else if c = CHR 0x5C then [CHR 0x5C, CHR 0x5C]
      else if code c = 8 then [CHR 0x5C, CHR ''b'']
      else if code c = 12 then [CHR 0x5C, CHR ''f'']
      else if code c = 10 then [CHR 0x5C, CHR ''n'']
      else if code c = 13 then [CHR 0x5C, CHR ''r'']
      else if code c = 9 then [CHR 0x5C, CHR ''t'']
      else if code c < 32
      then [CHR 0x5C, CHR ''u'', CHR ''0'', CHR ''0'',
            hex_digit (code c div 16), hex_digit (code c mod 16)]
      else [c])"

definition json_string :: "string \<Rightarrow> string" where
  "json_string s = CHR 0x22 # concat (map json_escape s) @ [CHR 0x22]"

text \<open>Reading one escaped character back shows that the escape is a prefix code.\<close>

definition json_unescape :: "string \<Rightarrow> (char \<times> string) option" where
  "json_unescape s = (case s of
       [] \<Rightarrow> None
     | c # r \<Rightarrow> if c \<noteq> CHR 0x5C then Some (c, r) else (case r of
           [] \<Rightarrow> None
         | d # u \<Rightarrow>
             if d = CHR ''b'' then Some (char_of (8::nat), u)
             else if d = CHR ''f'' then Some (char_of (12::nat), u)
             else if d = CHR ''n'' then Some (char_of (10::nat), u)
             else if d = CHR ''r'' then Some (char_of (13::nat), u)
             else if d = CHR ''t'' then Some (char_of (9::nat), u)
             else if d = CHR ''u'' then
               (case u of _ # _ # h # l # v \<Rightarrow>
                  (case (hex_val h, hex_val l) of
                     (Some a, Some b) \<Rightarrow> Some (char_of (16 * a + b), v)
                   | _ \<Rightarrow> None)
                | _ \<Rightarrow> None)
             else Some (d, u)))"

lemma char_of_eq: "code c = n \<Longrightarrow> char_of n = c"
  by auto

lemma json_unescape_escape: "json_unescape (json_escape c @ r) = Some (c, r)"
proof -
  have "code c div 16 < 16" "code c mod 16 < 16" by simp_all
  moreover have "16 * (code c div 16) + code c mod 16 = code c" by simp
  ultimately show ?thesis
    by (simp add: json_escape_def json_unescape_def hex_val_digit char_of_eq)
qed

lemma json_escape_inj: "json_escape c @ r = json_escape d @ s \<Longrightarrow> c = d \<and> r = s"
  by (metis json_unescape_escape option.inject prod.inject)

lemma json_escape_hd: "hd (json_escape c) \<noteq> CHR 0x22" "json_escape c \<noteq> []"
  by (simp_all add: json_escape_def)

lemma json_body_inj:
  "concat (map json_escape s) @ CHR 0x22 # x = concat (map json_escape t) @ CHR 0x22 # y
   \<Longrightarrow> s = t \<and> x = y"
proof (induction s arbitrary: t)
  case Nil
  show ?case
  proof (cases t)
    case (Cons d t')
    with Nil json_escape_hd [of d] show ?thesis by (cases "json_escape d") auto
  qed (use Nil in simp)
next
  case (Cons c s)
  show ?case
  proof (cases t)
    case Nil
    with Cons.prems json_escape_hd [of c] show ?thesis by (cases "json_escape c") auto
  next
    case t: (Cons d t')
    with Cons.prems have "json_escape c @ (concat (map json_escape s) @ CHR 0x22 # x)
      = json_escape d @ (concat (map json_escape t') @ CHR 0x22 # y)" by simp
    from json_escape_inj [OF this] Cons.IH [of t'] t show ?thesis by simp
  qed
qed

lemma json_string_inj: "json_string s @ x = json_string t @ y \<Longrightarrow> s = t \<and> x = y"
  using json_body_inj [of s x t y] by (simp add: json_string_def)

lemma json_string_eq_iff [simp]: "json_string s = json_string t \<longleftrightarrow> s = t"
  using json_string_inj [of s "[]" t "[]"] by auto

section \<open>Values\<close>

datatype json_value =
    Jnull | Jbool bool | Jint int | Jreal real | Jstr string
  | Jlist "json_value list" | Jdict "(string \<times> json_value) list"

fun decimal :: "nat \<Rightarrow> string" where
  "decimal n = (if n < 10 then [char_of (48 + n)] else decimal (n div 10) @ [char_of (48 + n mod 10)])"

declare decimal.simps [simp del]

definition int_text :: "int \<Rightarrow> string" where
  "int_text i = (if i < 0 then ''-'' @ decimal (nat (- i)) else decimal (nat i))"

fun join_with :: "string \<Rightarrow> string list \<Rightarrow> string" where
  "join_with sep [] = []"
| "join_with sep [x] = x"
| "join_with sep (x # y # xs) = x @ sep @ join_with sep (y # xs)"

definition json_key :: "string \<Rightarrow> string" where
  "json_key k = json_string k @ '':''"

fun json_text :: "(real \<Rightarrow> string) \<Rightarrow> json_value \<Rightarrow> string" where
  "json_text sf Jnull = ''null''"
| "json_text sf (Jbool b) = (if b then ''true'' else ''false'')"
| "json_text sf (Jint i) = int_text i"
| "json_text sf (Jreal r) = sf r"
| "json_text sf (Jstr s) = json_string s"
| "json_text sf (Jlist vs) = ''['' @ join_with '','' (map (json_text sf) vs) @ '']''"
| "json_text sf (Jdict ps) = ''{'' @ join_with '','' (map (\<lambda>(k, t). json_key k @ t)
     (sort_key fst (map (\<lambda>(k, v). (k, json_text sf v)) ps))) @ ''}''"

definition canonical_bytes :: "(real \<Rightarrow> string) \<Rightarrow> (string \<times> json_value) list \<Rightarrow> string" where
  "canonical_bytes sf payload = json_text sf (Jdict payload)"

end
