(* ===== verification/Store_Enrollment.thy ===== *)
theory Store_Enrollment
  imports Store_Journal Json
begin

text \<open>
  The attestation lifecycle of a device in \<open>store.py\<close>: the atomic beginning of an enrollment, the
  one transition that makes a device trusted, its failure, and the migrations a store runs when it
  is opened.
\<close>

section \<open>Beginning an enrollment\<close>

definition enrolling_row :: "time \<Rightarrow> string \<Rightarrow> string \<Rightarrow> string \<Rightarrow> string \<Rightarrow> string option
    \<Rightarrow> string option \<Rightarrow> string \<Rightarrow> device" where
  "enrolling_row now did kid pk who aakid tch eid =
     \<lparr>dv_id = did, dv_key_id = kid, dv_public_key = pk, dv_principal = who,
      dv_transport_hash = tch, dv_attested = False, dv_status = DEVICE_ACTIVE,
      dv_enrolled_at = now, dv_attestation = ATT_PENDING, dv_app_attest_key_id = aakid,
      dv_app_attest_public_key = None, dv_app_attest_counter = 0, dv_attested_at = None,
      dv_app_id = None, dv_environment = None, dv_enrollment = Some eid\<rparr>"

text \<open>\<open>_begin_device_enrollment_write\<close>: one upsert whose update skips a revoked row.\<close>

definition begin_device_write :: "time \<Rightarrow> string \<Rightarrow> string \<Rightarrow> string \<Rightarrow> string \<Rightarrow> string option
    \<Rightarrow> string option \<Rightarrow> string \<Rightarrow> store \<Rightarrow> bool \<times> store" where
  "begin_device_write now did kid pk who aakid tch eid s =
     (let row = enrolling_row now did kid pk who aakid tch eid;
          began = audit now ''device_enroll_begin'' None (Some did) (Some who) None
      in case get_device did s of
           None \<Rightarrow> (True, began (s\<lparr>st_devices := st_devices s @ [row]\<rparr>))
         | Some d \<Rightarrow>
             if dv_status d = DEVICE_REVOKED
             then (False, audit now ''device_enroll_begin_rejected'' None (Some did)
                            (Some ''revoked'') None s)
             else (True, began (s\<lparr>st_devices := update_where
                            (\<lambda>d. dv_id d = did \<and> dv_status d \<noteq> DEVICE_REVOKED) (\<lambda>_. row)
                            (st_devices s)\<rparr>)))"

definition begin_enrollment_body :: "time \<Rightarrow> string \<Rightarrow> string \<Rightarrow> string \<Rightarrow> string \<Rightarrow> string option
    \<Rightarrow> identity list \<Rightarrow> string \<Rightarrow> string \<Rightarrow> string \<Rightarrow> string \<Rightarrow> time \<Rightarrow> string option \<Rightarrow> store
    \<Rightarrow> (string \<times> store) result" where
  "begin_enrollment_body now did kid pk who aakid identities eid nonce fp binding expires tch s =
     (if list_ex (\<lambda>i. revoked_pair i s) identities
      then Inr (''device_revoked'', audit now ''enrollment_rejected_revoked_key'' None (Some did)
             (Some ''identity_revoked'') None s)
      else case begin_device_write now did kid pk who aakid tch eid s of
        (False, s1) \<Rightarrow> Inr (''device_revoked'', audit now ''enrollment_rejected_revoked_key'' None
             (Some did) (Some ''device_record_terminal'') None s1)
      | (True, s1) \<Rightarrow>
          let s2 = s1\<lparr>st_att_challenges := update_where
                (\<lambda>c. ac_device c = did \<and> ac_enrollment c \<noteq> eid \<and> \<not> ac_consumed c \<and> \<not> ac_superseded c)
                (\<lambda>c. c\<lparr>ac_superseded := True\<rparr>) (st_att_challenges s1)\<rparr>
          in case insert_pk ac_enrollment
                \<lparr>ac_enrollment = eid, ac_nonce = nonce, ac_device = did, ac_principal = who,
                 ac_key_id = kid, ac_pubkey_sha256 = fp, ac_binding = binding, ac_issued = now,
                 ac_expires = expires, ac_consumed = False, ac_app_attest_key_id = aakid,
                 ac_superseded = False\<rparr> (st_att_challenges s2) of
               Inl e \<Rightarrow> Inl e
             | Inr t \<Rightarrow> Inr (''ok'', audit now ''attestation_challenge'' None (Some did) (Some eid)
                   (Some (identity_text (REVOKE_APPROVAL_KEY, fp)))
                   (s2\<lparr>st_att_challenges := t\<rparr>)))"

definition begin_enrollment_atomic :: "time \<Rightarrow> string \<Rightarrow> string \<Rightarrow> string \<Rightarrow> string \<Rightarrow> string option
    \<Rightarrow> identity list \<Rightarrow> string \<Rightarrow> string \<Rightarrow> string \<Rightarrow> string \<Rightarrow> time \<Rightarrow> string option \<Rightarrow> store
    \<Rightarrow> string result \<times> store" where
  "begin_enrollment_atomic now did kid pk who aakid identities eid nonce fp binding expires tch s =
     (if identities = []
      then (Inl (ValueError ''begin_enrollment requires the bound identities''), s)
      else atomically s
        (begin_enrollment_body now did kid pk who aakid identities eid nonce fp binding expires tch s))"

definition set_device_attestation_failed :: "time \<Rightarrow> string \<Rightarrow> string \<Rightarrow> string option \<Rightarrow> store
    \<Rightarrow> store" where
  "set_device_attestation_failed now eid did reason s =
     (let hit = (\<lambda>d. dv_id d = did \<and> dv_enrollment d = Some eid \<and> dv_attestation d = ATT_PENDING);
          detail = (if truthy reason then Some (take 120 (or_empty reason)) else None)
      in audit now (if rowcount hit (st_devices s) = 1 then ''device_attestation_failed''
                    else ''device_attestation_failed_stale'') None (Some did) detail None
           (s\<lparr>st_devices := update_where hit (\<lambda>d. d\<lparr>dv_attestation := ATT_FAILED\<rparr>)
                (st_devices s)\<rparr>))"

section \<open>The trusted transition\<close>

text \<open>
  What \<open>json.loads(bytes(ch["binding_raw"]).decode("utf-8"))\<close> gives: it raises, or a value without
  \<open>get\<close>, or an object, of which only the members that are strings can equal what they are compared
  with. The decoder \<open>loads\<close> is an argument: what follows holds for every one.
\<close>

datatype json_binding = Unreadable | NotAnObject | JObject "string \<Rightarrow> string option"

definition finalize_deny :: "time \<Rightarrow> string option \<Rightarrow> string \<Rightarrow> store \<Rightarrow> (string \<times> store) result" where
  "finalize_deny now did reason s =
     Inr (reason, audit now ''device_attest_rejected'' None did (Some reason) None s)"

text \<open>\<open>INSERT ... ON CONFLICT DO NOTHING\<close> under the unique index \<open>idx_hist_binding\<close>.\<close>

definition record_binding :: "time \<Rightarrow> string \<Rightarrow> string \<Rightarrow> string \<Rightarrow> history_row list \<Rightarrow> history_row list" where
  "record_binding now did fp aak hist =
     (if list_ex (\<lambda>h. hs_device h = did \<and> hs_approval_key h = Some fp \<and>
                     hs_app_attest_key h = Some aak) hist
      then hist
      else hist @ [\<lparr>hs_device = did, hs_approval_key = Some fp, hs_app_attest_key = Some aak,
                    hs_bound_at = now, hs_provenance = ''attestation_completed''\<rparr>])"

definition finalize_write :: "time \<Rightarrow> string \<Rightarrow> string \<Rightarrow> string \<Rightarrow> string \<Rightarrow> string \<Rightarrow> int
    \<Rightarrow> string \<Rightarrow> string \<Rightarrow> store \<Rightarrow> store" where
  "finalize_write now eid did fp aakid aapk counter env app_id s =
     audit now ''device_attested'' None (Some did) (Some env)
       (Some (identity_text (REVOKE_APP_ATTEST_KEY, aakid)))
       (s\<lparr>st_devices := update_where
            (\<lambda>d. dv_id d = did \<and> dv_status d = DEVICE_ACTIVE \<and> dv_attestation d = ATT_PENDING \<and>
                 dv_enrollment d = Some eid)
            (\<lambda>d. d\<lparr>dv_attestation := ATT_ATTESTED, dv_attested := True,
                   dv_app_attest_public_key := Some (to_hex aapk),
                   dv_app_attest_counter := counter, dv_environment := Some env,
                   dv_app_id := Some app_id, dv_attested_at := Some now\<rparr>) (st_devices s),
          st_att_challenges := update_where (\<lambda>c. ac_enrollment c = eid)
            (\<lambda>c. c\<lparr>ac_consumed := True\<rparr>) (st_att_challenges s),
          st_history := record_binding now did fp aakid (st_history s)\<rparr>)"

text \<open>The part behind the challenge and its binding: the device row against what was proved.\<close>

definition finalize_device :: "(string \<Rightarrow> string) \<Rightarrow> time \<Rightarrow> string \<Rightarrow> string \<Rightarrow> int \<Rightarrow> string \<Rightarrow> string
    \<Rightarrow> att_challenge \<Rightarrow> (string \<Rightarrow> string option) \<Rightarrow> device \<Rightarrow> store \<Rightarrow> (string \<times> store) result" where
  "finalize_device H now eid aapk counter env app_id ch binding dev s =
     (let did = ac_device ch; deny = finalize_deny now (Some did) in
      case from_hex (dv_public_key dev) of
        None \<Rightarrow> deny ''device_key_unreadable'' s
      | Some pk \<Rightarrow>
          let fp = fingerprint H pk in
          (case app_attest_identity_from_public_key H aapk of
             None \<Rightarrow> deny ''app_attest_key_mismatch'' s
           | Some aakid \<Rightarrow>
               let revoked = first_revoked [(REVOKE_DEVICE, did), (REVOKE_APPROVAL_KEY, fp),
                                            (REVOKE_APP_ATTEST_KEY, aakid)] s
               in if revoked \<noteq> None \<or> dv_status dev = DEVICE_REVOKED
                  then deny ''device_revoked''
                         (audit now ''enrollment_rejected_revoked_key'' None (Some did)
                            (Some (case revoked of Some k \<Rightarrow> kind_name k
                                     | None \<Rightarrow> device_status_name (dv_status dev))) None s)
                  else if or_empty (dv_enrollment dev) \<noteq> eid then deny ''enrollment_superseded'' s
                  else if ac_pubkey_sha256 ch \<noteq> fp then deny ''approval_key_mismatch'' s
                  else if ac_key_id ch \<noteq> dv_key_id dev then deny ''approval_key_mismatch'' s
                  else if ac_principal ch \<noteq> dv_principal dev then deny ''principal_mismatch'' s
                  else if binding ''approval_public_key_sha256'' \<noteq> Some fp
                  then deny ''approval_key_mismatch'' s
                  else if ac_app_attest_key_id ch \<noteq> Some aakid
                  then deny ''app_attest_key_mismatch'' s
                  else if or_empty (dv_app_attest_key_id dev) \<noteq> aakid
                  then deny ''device_rebound'' s
                  else if dv_status dev \<noteq> DEVICE_ACTIVE \<or> dv_attestation dev \<noteq> ATT_PENDING
                  then deny ''not_pending_attestation'' s
                  else if env = [] then deny ''environment_unknown'' s
                  else Inr (''ok'', finalize_write now eid did fp aakid aapk counter env app_id s)))"

definition finalize_body :: "(string \<Rightarrow> string) \<Rightarrow> (string \<Rightarrow> json_binding) \<Rightarrow> time \<Rightarrow> string \<Rightarrow> string
    \<Rightarrow> int \<Rightarrow> string \<Rightarrow> string \<Rightarrow> string \<Rightarrow> store \<Rightarrow> (string \<times> store) result" where
  "finalize_body H loads now eid aapk counter env app_id core s =
     (case get_att_challenge eid s of
        None \<Rightarrow> finalize_deny now None ''challenge_unknown'' s
      | Some ch \<Rightarrow>
          let did = ac_device ch; deny = finalize_deny now (Some did) in
          if ac_consumed ch then deny ''challenge_already_consumed'' s
          else if ac_superseded ch then deny ''challenge_superseded'' s
          else if now > ac_expires ch then deny ''challenge_expired'' s
          else if \<not> truthy (ac_app_attest_key_id ch) then deny ''challenge_unbound'' s
          else case loads (ac_binding ch) of
            Unreadable \<Rightarrow> deny ''challenge_binding_unreadable'' s
          | NotAnObject \<Rightarrow> if core = [] then deny ''wrong_core_instance'' s else Inl AttributeError
          | JObject binding \<Rightarrow>
              if core = [] \<or> binding ''core_instance_id'' \<noteq> Some core
              then deny ''wrong_core_instance'' s
              else if binding ''enrollment_id'' \<noteq> Some eid \<or> binding ''device_id'' \<noteq> Some did
              then deny ''challenge_binding_mismatch'' s
              else (case get_device did s of
                 None \<Rightarrow> deny ''unknown_device'' s
               | Some dev \<Rightarrow> finalize_device H now eid aapk counter env app_id ch binding dev s))"

definition finalize_attestation :: "(string \<Rightarrow> string) \<Rightarrow> (string \<Rightarrow> json_binding) \<Rightarrow> time \<Rightarrow> string
    \<Rightarrow> string \<Rightarrow> int \<Rightarrow> string \<Rightarrow> string \<Rightarrow> string \<Rightarrow> store \<Rightarrow> string result \<times> store" where
  "finalize_attestation H loads now eid aapk counter env app_id core s =
     atomically s (finalize_body H loads now eid aapk counter env app_id core s)"

section \<open>Lemmas\<close>

lemma finalize_deny_Inr:
  "finalize_deny now did reason s = Inr (out, s') \<longleftrightarrow>
   out = reason \<and> s' = audit now ''device_attest_rejected'' None did (Some reason) None s"
  by (auto simp: finalize_deny_def)

text \<open>What the device row must look like for the trusted transition.\<close>

definition enrollment_agrees :: "(string \<Rightarrow> string) \<Rightarrow> string \<Rightarrow> string \<Rightarrow> att_challenge \<Rightarrow> device
    \<Rightarrow> string \<Rightarrow> string \<Rightarrow> store \<Rightarrow> bool" where
  "enrollment_agrees H eid aapk ch dev fp aakid s \<longleftrightarrow>
     (\<exists>pk. from_hex (dv_public_key dev) = Some pk \<and> fp = fingerprint H pk) \<and>
     app_attest_identity_from_public_key H aapk = Some aakid \<and>
     \<not> revoked_pair (REVOKE_DEVICE, ac_device ch) s \<and> \<not> revoked_pair (REVOKE_APPROVAL_KEY, fp) s \<and>
     \<not> revoked_pair (REVOKE_APP_ATTEST_KEY, aakid) s \<and>
     or_empty (dv_enrollment dev) = eid \<and> ac_pubkey_sha256 ch = fp \<and> ac_key_id ch = dv_key_id dev \<and>
     ac_principal ch = dv_principal dev \<and> ac_app_attest_key_id ch = Some aakid \<and>
     or_empty (dv_app_attest_key_id dev) = aakid \<and> dv_status dev = DEVICE_ACTIVE \<and>
     dv_attestation dev = ATT_PENDING"

lemma finalize_device_ok:
  assumes "finalize_device H now eid aapk counter env app_id ch binding dev s = Inr (''ok'', s')"
  shows "\<exists>fp aakid. enrollment_agrees H eid aapk ch dev fp aakid s \<and> env \<noteq> [] \<and>
    s' = finalize_write now eid (ac_device ch) fp aakid aapk counter env app_id s"
proof (cases "from_hex (dv_public_key dev)")
  case None
  with assms show ?thesis by (simp add: finalize_device_def finalize_deny_Inr)
next
  case (Some pk)
  show ?thesis
  proof (cases "app_attest_identity_from_public_key H aapk")
    case None
    with assms Some show ?thesis by (simp add: finalize_device_def finalize_deny_Inr)
  next
    case aak: (Some aakid)
    show ?thesis
      by (rule exI [of _ "fingerprint H pk"], rule exI [of _ aakid])
        (use assms Some aak in \<open>simp add: finalize_device_def finalize_deny_Inr Let_def
          enrollment_agrees_def first_revoked_None_iff split: if_splits\<close>)
  qed
qed

lemma finalize_body_ok:
  assumes "finalize_body H loads now eid aapk counter env app_id core s = Inr (''ok'', s')"
  shows "\<exists>ch dev binding. get_att_challenge eid s = Some ch \<and> \<not> ac_consumed ch \<and>
    \<not> ac_superseded ch \<and> now \<le> ac_expires ch \<and> truthy (ac_app_attest_key_id ch) \<and>
    loads (ac_binding ch) = JObject binding \<and> core \<noteq> [] \<and>
    binding ''core_instance_id'' = Some core \<and> binding ''device_id'' = Some (ac_device ch) \<and>
    get_device (ac_device ch) s = Some dev \<and>
    finalize_device H now eid aapk counter env app_id ch binding dev s = Inr (''ok'', s')"
  using assms
  by (auto simp: finalize_body_def Let_def finalize_deny_Inr
      split: option.splits if_splits json_binding.splits)

lemma finalize_write_device:
  assumes "get_device did s = Some dev" "dv_status dev = DEVICE_ACTIVE"
    "dv_attestation dev = ATT_PENDING" "dv_enrollment dev = Some eid"
  shows "get_device did (finalize_write now eid did fp aakid aapk counter env app_id s) =
    Some (dev\<lparr>dv_attestation := ATT_ATTESTED, dv_attested := True,
      dv_app_attest_public_key := Some (to_hex aapk), dv_app_attest_counter := counter,
      dv_environment := Some env, dv_app_id := Some app_id, dv_attested_at := Some now\<rparr>)"
  using assms by (auto simp: finalize_write_def by_key_update_Some dest: by_key_SomeD)

text \<open>
  A device becomes trusted only through the enrollment that owns it now: the challenge was
  open, unexpired and issued by this core, the device row carries this enrollment, and approval
  key, key id, principal and App Attest key agree between the challenge, the device row and the
  verified attestation, none of them revoked. The same transaction spends the challenge and writes
  the binding into the identity history.
\<close>

theorem attestation_trusts_only_the_owning_enrollment:
  assumes "eid \<noteq> []"
    and f: "finalize_attestation H loads now eid aapk counter env app_id core s = (Inr ''ok'', s')"
  shows "\<exists>ch dev fp aakid. get_att_challenge eid s = Some ch \<and> \<not> ac_consumed ch \<and>
    \<not> ac_superseded ch \<and> now \<le> ac_expires ch \<and> get_device (ac_device ch) s = Some dev \<and>
    enrollment_agrees H eid aapk ch dev fp aakid s \<and>
    (\<exists>dev'. get_device (ac_device ch) s' = Some dev' \<and> dv_attestation dev' = ATT_ATTESTED \<and>
       dv_public_key dev' = dv_public_key dev \<and> dv_environment dev' = Some env \<and> env \<noteq> []) \<and>
    (\<exists>ch'. get_att_challenge eid s' = Some ch' \<and> ac_consumed ch') \<and>
    (\<exists>h\<in>set (st_history s'). hs_device h = ac_device ch \<and> hs_approval_key h = Some fp \<and>
       hs_app_attest_key h = Some aakid)"
proof -
  from f have "finalize_body H loads now eid aapk counter env app_id core s = Inr (''ok'', s')"
    by (simp add: finalize_attestation_def atomically_Inr_iff)
  from finalize_body_ok [OF this] obtain ch dev binding where
    1: "get_att_challenge eid s = Some ch" "\<not> ac_consumed ch" "\<not> ac_superseded ch"
    "now \<le> ac_expires ch" "get_device (ac_device ch) s = Some dev"
    and fd: "finalize_device H now eid aapk counter env app_id ch binding dev s = Inr (''ok'', s')"
    by blast
  from finalize_device_ok [OF fd] obtain fp aakid where
    2: "enrollment_agrees H eid aapk ch dev fp aakid s" "env \<noteq> []"
    and s': "s' = finalize_write now eid (ac_device ch) fp aakid aapk counter env app_id s" by blast
  have "dv_enrollment dev = Some eid"
    using 2(1) \<open>eid \<noteq> []\<close> by (cases "dv_enrollment dev") (auto simp: enrollment_agrees_def)
  then have "get_device (ac_device ch) s' = Some (dev\<lparr>dv_attestation := ATT_ATTESTED,
      dv_attested := True, dv_app_attest_public_key := Some (to_hex aapk),
      dv_app_attest_counter := counter, dv_environment := Some env, dv_app_id := Some app_id,
      dv_attested_at := Some now\<rparr>)"
    unfolding s' by (intro finalize_write_device) (use 1 2 in \<open>auto simp: enrollment_agrees_def\<close>)
  moreover have "get_att_challenge eid s' = Some (ch\<lparr>ac_consumed := True\<rparr>)"
    using 1(1) by (auto simp: s' finalize_write_def by_key_update_Some dest: by_key_SomeD)
  moreover have "\<exists>h\<in>set (st_history s'). hs_device h = ac_device ch \<and> hs_approval_key h = Some fp \<and>
       hs_app_attest_key h = Some aakid"
    by (auto simp: s' finalize_write_def record_binding_def list_ex_iff)
  ultimately show ?thesis using 1 2 by auto
qed

lemma enrolling_row_fields [simp]:
  "dv_id (enrolling_row now did kid pk who aakid tch eid) = did"
  "dv_status (enrolling_row now did kid pk who aakid tch eid) = DEVICE_ACTIVE"
  "dv_enrollment (enrolling_row now did kid pk who aakid tch eid) = Some eid"
  "dv_attestation (enrolling_row now did kid pk who aakid tch eid) = ATT_PENDING"
  by (simp_all add: enrolling_row_def)

lemma begin_device_write_True:
  assumes "begin_device_write now did kid pk who aakid tch eid s = (True, s')"
  shows "get_device did s' = Some (enrolling_row now did kid pk who aakid tch eid)"
    and "\<forall>d. get_device did s = Some d \<longrightarrow> dv_status d \<noteq> DEVICE_REVOKED"
    and "st_revocations s' = st_revocations s"
proof -
  let ?row = "enrolling_row now did kid pk who aakid tch eid"
  have upd: "by_key dv_id did (update_where (\<lambda>d. dv_id d = did \<and> dv_status d \<noteq> DEVICE_REVOKED)
      (\<lambda>_. ?row) (st_devices s)) = Some ?row"
    if "get_device did s = Some d" "dv_status d \<noteq> DEVICE_REVOKED" for d
    using that by (subst by_key_update_if) (auto dest: by_key_SomeD)
  have new: "by_key dv_id did (st_devices s @ [?row]) = Some ?row" if "get_device did s = None"
    using that by_key_append_new [of dv_id ?row "st_devices s"] by (simp add: by_key_None_iff)
  show "get_device did s' = Some ?row"
    "\<forall>d. get_device did s = Some d \<longrightarrow> dv_status d \<noteq> DEVICE_REVOKED"
    "st_revocations s' = st_revocations s"
    using assms upd new
    by (auto simp: begin_device_write_def Let_def split: option.splits if_splits)
qed

text \<open>What beginning an enrollment leaves when it answers ok.\<close>

lemma begin_enrollment_ok:
  assumes "begin_enrollment_atomic now did kid pk who aakid identities eid nonce fp binding expires tch s
      = (Inr ''ok'', s')"
  shows "(\<forall>i\<in>set identities. \<not> revoked_pair i s) \<and> identities \<noteq> [] \<and>
    get_device did s' = Some (enrolling_row now did kid pk who aakid tch eid) \<and>
    (\<forall>d. get_device did s = Some d \<longrightarrow> dv_status d \<noteq> DEVICE_REVOKED) \<and>
    st_revocations s' = st_revocations s"
proof -
  let ?row = "enrolling_row now did kid pk who aakid tch eid"
  from assms have ids: "identities \<noteq> []" by (auto simp: begin_enrollment_atomic_def)
  with assms have body: "begin_enrollment_body now did kid pk who aakid identities eid nonce fp
      binding expires tch s = Inr (''ok'', s')"
    by (simp add: begin_enrollment_atomic_def atomically_Inr_iff)
  then have nr: "\<not> list_ex (\<lambda>i. revoked_pair i s) identities"
    by (auto simp: begin_enrollment_body_def)
  obtain b s1 where w: "begin_device_write now did kid pk who aakid tch eid s = (b, s1)" by fastforce
  with body nr have b: b by (cases b) (simp_all add: begin_enrollment_body_def)
  have dev: "get_device did s1 = Some ?row"
    "\<forall>d. get_device did s = Some d \<longrightarrow> dv_status d \<noteq> DEVICE_REVOKED"
    "st_revocations s1 = st_revocations s"
    using begin_device_write_True [of now did kid pk who aakid tch eid s s1] w b by auto
  have "st_devices s' = st_devices s1" "st_revocations s' = st_revocations s1"
    using body nr w b by (auto simp: begin_enrollment_body_def Let_def split: sum.splits)
  with dev nr ids show ?thesis by (simp add: list_ex_iff)
qed

text \<open>A fresh pairing on the fixture, ready for its attestation.\<close>

definition demo_aapk :: string where
  "demo_aapk = replicate 32 CHR ''a''"

definition demo_aak :: string where
  "demo_aak = b64_encode demo_aapk"

definition demo_pairing :: store where
  "demo_pairing = empty_store\<lparr>
     st_devices := [enrolling_row 1 ''dev-2'' ''k2'' ''6b32'' ''owner'' (Some demo_aak) None ''enr-2''],
     st_att_challenges := [\<lparr>ac_enrollment = ''enr-2'', ac_nonce = ''n'', ac_device = ''dev-2'',
       ac_principal = ''owner'', ac_key_id = ''k2'', ac_pubkey_sha256 = fingerprint id_hash ''k2'',
       ac_binding = ''{}'', ac_issued = 1, ac_expires = 60, ac_consumed = False,
       ac_app_attest_key_id = Some demo_aak, ac_superseded = False\<rparr>]\<rparr>"

definition demo_loads :: "string \<Rightarrow> json_binding" where
  "demo_loads raw = JObject (\<lambda>k.
     if k = ''core_instance_id'' then Some ''core'' else if k = ''enrollment_id'' then Some ''enr-2''
     else if k = ''device_id'' then Some ''dev-2''
     else if k = ''approval_public_key_sha256'' then Some (fingerprint id_hash ''k2'') else None)"

lemma demo_aak_identity:
  "app_attest_identity_from_public_key id_hash demo_aapk = Some demo_aak"
proof -
  have "length demo_aapk = APP_ATTEST_KEY_ID_BYTES"
    by (simp add: demo_aapk_def APP_ATTEST_KEY_ID_BYTES_def)
  from canonical_of_encode [OF this] show ?thesis
    by (simp add: app_attest_identity_from_public_key_def id_hash_def demo_aak_def)
qed

lemma demo_aak_neq_Nil [simp]: "demo_aak \<noteq> []"
  by (simp add: demo_aak_def demo_aapk_def b64_encode_neq_Nil)

lemma demo_key_2 [simp]: "from_hex ''6b32'' = Some ''k2''"
  by code_simp

theorem attestation_trusts_only_the_owning_enrollment_witness:
  "\<exists>dev. get_device ''dev-2'' (snd (finalize_attestation id_hash demo_loads 9 ''enr-2'' demo_aapk 0
     ''production'' ''app'' ''core'' demo_pairing)) = Some dev \<and> dv_attestation dev = ATT_ATTESTED"
proof -
  let ?r = "finalize_attestation id_hash demo_loads 9 ''enr-2'' demo_aapk 0 ''production'' ''app''
     ''core'' demo_pairing"
  have "fst ?r = Inr ''ok''"
    by (simp add: finalize_attestation_def finalize_body_def finalize_device_def demo_pairing_def
        enrolling_row_def by_key_Cons demo_loads_def demo_aak_identity first_revoked_def
        select_one_def empty_store_def Let_def del: from_hex.simps)
  then have r: "?r = (Inr ''ok'', snd ?r)" by (metis prod.collapse)
  have "''enr-2'' \<noteq> []" by simp
  from attestation_trusts_only_the_owning_enrollment [OF this r]
  obtain ch dev where "get_att_challenge ''enr-2'' demo_pairing = Some ch"
    "get_device (ac_device ch) (snd ?r) = Some dev" "dv_attestation dev = ATT_ATTESTED" by blast
  then show ?thesis by (auto simp: demo_pairing_def by_key_Cons)
qed

text \<open>
  The newest enrollment wins. Once a pairing of a device has begun, the attestation of any
  other enrollment of that device is refused, however complete it is.
\<close>

theorem newest_enrollment_wins:
  assumes "begin_enrollment_atomic now did kid pk who aakid identities eid nonce fp binding expires tch s
      = (Inr ''ok'', s1)"
    and "get_att_challenge old s1 = Some ch" and "ac_device ch = did" and "old \<noteq> eid" and "old \<noteq> []"
  shows "fst (finalize_attestation H loads later old aapk counter env app_id core s1) \<noteq> Inr ''ok''"
proof
  assume "fst (finalize_attestation H loads later old aapk counter env app_id core s1) = Inr ''ok''"
  then obtain s2 where "finalize_body H loads later old aapk counter env app_id core s1 = Inr (''ok'', s2)"
    by (auto simp: finalize_attestation_def atomically_def split: sum.splits)
  from finalize_body_ok [OF this] assms obtain dev binding where
    dev: "get_device did s1 = Some dev"
    and "finalize_device H later old aapk counter env app_id ch binding dev s1 = Inr (''ok'', s2)" by auto
  from finalize_device_ok [OF this(2)] have "or_empty (dv_enrollment dev) = old"
    by (auto simp: enrollment_agrees_def)
  moreover have "dv_enrollment dev = Some eid"
    using begin_enrollment_ok [OF assms(1)] dev by (auto simp: enrolling_row_def)
  ultimately show False using assms(4) by simp
qed

definition demo_begin :: "string result \<times> store" where
  "demo_begin = begin_enrollment_atomic 2 ''dev-2'' ''k3'' ''6b33'' ''owner'' (Some demo_aak)
     [(REVOKE_DEVICE, ''dev-2'')] ''enr-3'' ''n3'' (fingerprint id_hash ''k3'') ''{}'' 70 None demo_pairing"

lemmas demo_begin_eval = demo_begin_def begin_enrollment_atomic_def begin_enrollment_body_def
  begin_device_write_def demo_pairing_def empty_store_def enrolling_row_def by_key_Cons
  revoked_pair_def update_where_def insert_pk_def Let_def

theorem newest_enrollment_wins_witness:
  "fst (finalize_attestation id_hash demo_loads 9 ''enr-2'' demo_aapk 0 ''production'' ''app'' ''core''
     (snd demo_begin)) \<noteq> Inr ''ok''"
proof -
  have "fst demo_begin = Inr ''ok''"
    by (simp add: demo_begin_eval)
  then have 1: "demo_begin = (Inr ''ok'', snd demo_begin)" by (metis prod.collapse)
  let ?ch = "the (get_att_challenge ''enr-2'' (snd demo_begin))"
  have "map_option ac_device (get_att_challenge ''enr-2'' (snd demo_begin)) = Some ''dev-2''"
    by (simp add: demo_begin_eval)
  then have 2: "get_att_challenge ''enr-2'' (snd demo_begin) = Some ?ch" "ac_device ?ch = ''dev-2''"
    by auto
  show ?thesis
    by (rule newest_enrollment_wins [OF 1 [unfolded demo_begin_def] 2 [unfolded demo_begin_def],
          folded demo_begin_def]) simp_all
qed

section \<open>Migrations at opening\<close>

text \<open>
  A store file is its tables and the number in \<open>schema_meta\<close> (0 when there is none or it is not a
  number), read under the write lock.
\<close>

definition legacy_entries :: "(string \<Rightarrow> string) \<Rightarrow> device \<Rightarrow> identity list" where
  "legacy_entries H d =
     [(REVOKE_DEVICE, dv_id d)]
     @ (if dv_public_key d = [] then []
        else case from_hex (dv_public_key d) of None \<Rightarrow> []
          | Some pk \<Rightarrow> [(REVOKE_APPROVAL_KEY, fingerprint H pk)])
     @ (if \<not> truthy (dv_app_attest_key_id d) then []
        else case canonical_app_attest_key_id (or_empty (dv_app_attest_key_id d)) of None \<Rightarrow> []
          | Some c \<Rightarrow> [(REVOKE_APP_ATTEST_KEY, c)])"

definition backfill_entry :: "time \<Rightarrow> string \<Rightarrow> identity \<Rightarrow> nat \<times> store \<Rightarrow> nat \<times> store" where
  "backfill_entry now did i acc = (case acc of (added, s) \<Rightarrow>
     if revoked_pair i s then (added, s)
     else (added + 1,
           audit now ''legacy_revocation_backfilled'' None (Some did)
             (Some ''pre-P1A devices.status=REVOKED'') (Some (identity_text i))
             (s\<lparr>st_revocations := st_revocations s @ [\<lparr>rv_kind = fst i, rv_value = snd i,
                  rv_reason = Some ''legacy pre-P1A revoked device'', rv_at = now\<rparr>]\<rparr>)))"

definition backfill_legacy_revocations :: "(string \<Rightarrow> string) \<Rightarrow> time \<Rightarrow> int \<times> store \<Rightarrow> int \<times> store" where
  "backfill_legacy_revocations H now f = (case f of (version, s) \<Rightarrow>
     if version \<ge> 2 then (version, s)
     else
       let rows = filter (\<lambda>d. dv_status d = DEVICE_REVOKED) (st_devices s);
           (added, s1) = fold (\<lambda>d acc. fold (backfill_entry now (dv_id d)) (legacy_entries H d) acc)
                           rows (0, s)
       in (2, audit now ''schema_migrated'' None None
                (Some (''v2: '' @ decimal added @ '' legacy identities backfilled'')) None s1))"

definition mark_claim_snapshot_migration :: "time \<Rightarrow> int \<times> store \<Rightarrow> int \<times> store" where
  "mark_claim_snapshot_migration now f = (case f of (version, s) \<Rightarrow>
     if version \<ge> 3 then (version, s)
     else (3, audit now ''schema_migrated'' None None
       (Some (''v3: claim-time authority snapshot; '' @
          decimal (rowcount (\<lambda>a. \<not> at_bound a) (st_attempts s)) @
          '' legacy attempt(s) left unbound and therefore never auto-retried'')) None s))"

text \<open>\<open>_canonicalise_app_attest_ids\<close>: first the device rows, then the revocations one by one.\<close>

definition canonical_device :: "device \<Rightarrow> device" where
  "canonical_device d = (case dv_app_attest_key_id d of
       None \<Rightarrow> d
     | Some k \<Rightarrow> (case canonical_app_attest_key_id k of
           None \<Rightarrow> d
         | Some c \<Rightarrow> if c \<noteq> [] \<and> c \<noteq> k then d\<lparr>dv_app_attest_key_id := Some c\<rparr> else d))"

definition canonicalise_revocation :: "revocation \<Rightarrow> revocation list \<Rightarrow> revocation list" where
  "canonicalise_revocation r t = (case canonical_app_attest_key_id (rv_value r) of
       None \<Rightarrow> t
     | Some c \<Rightarrow>
         if c = [] \<or> c = rv_value r then t
         else filter (\<lambda>q. \<not> (rv_kind q = REVOKE_APP_ATTEST_KEY \<and> rv_value q = rv_value r))
           (if list_ex (\<lambda>q. rv_kind q = REVOKE_APP_ATTEST_KEY \<and> rv_value q = c) t then t
            else t @ [\<lparr>rv_kind = REVOKE_APP_ATTEST_KEY, rv_value = c, rv_reason = rv_reason r,
                       rv_at = rv_at r\<rparr>]))"

definition canonicalise_app_attest_ids :: "store \<Rightarrow> store" where
  "canonicalise_app_attest_ids s =
     s\<lparr>st_devices := map canonical_device (st_devices s),
       st_revocations := fold canonicalise_revocation
         (filter (\<lambda>r. rv_kind r = REVOKE_APP_ATTEST_KEY) (st_revocations s)) (st_revocations s)\<rparr>"

definition open_store :: "(string \<Rightarrow> string) \<Rightarrow> time \<Rightarrow> int \<times> store \<Rightarrow> int \<times> store" where
  "open_store H now f =
     mark_claim_snapshot_migration now
       (backfill_legacy_revocations H now (fst f, canonicalise_app_attest_ids (snd f)))"

section \<open>Lemmas: migrations\<close>

lemma canonicalise_step_pair:
  "list_ex (\<lambda>q. rv_kind q = k \<and> rv_value q = v) (canonicalise_revocation r t) \<longleftrightarrow>
   (case canonical_app_attest_key_id (rv_value r) of
      None \<Rightarrow> list_ex (\<lambda>q. rv_kind q = k \<and> rv_value q = v) t
    | Some c \<Rightarrow>
        if c = [] \<or> c = rv_value r then list_ex (\<lambda>q. rv_kind q = k \<and> rv_value q = v) t
        else (k, v) \<noteq> (REVOKE_APP_ATTEST_KEY, rv_value r) \<and>
          ((k, v) = (REVOKE_APP_ATTEST_KEY, c) \<or> list_ex (\<lambda>q. rv_kind q = k \<and> rv_value q = v) t))"
  by (auto simp: canonicalise_revocation_def list_ex_iff split: option.split)

text \<open>The revoked key after the migration: its canonical form when it has one.\<close>

definition canonical_or_same :: "string \<Rightarrow> string" where
  "canonical_or_same v = (case canonical_app_attest_key_id v of
      None \<Rightarrow> v | Some c \<Rightarrow> if c = [] then v else c)"

lemma canonical_or_same_idem: "canonical_or_same (canonical_or_same v) = canonical_or_same v"
  using canonical_idem [of v] by (auto simp: canonical_or_same_def split: option.splits)

abbreviation aak_revoked :: "string \<Rightarrow> revocation list \<Rightarrow> bool" where
  "aak_revoked v t \<equiv> list_ex (\<lambda>q. rv_kind q = REVOKE_APP_ATTEST_KEY \<and> rv_value q = v) t"

lemma canonicalise_step_canonical:
  "aak_revoked (canonical_or_same (rv_value r)) (canonicalise_revocation r t) \<longleftrightarrow>
   canonical_or_same (rv_value r) \<noteq> rv_value r \<or> aak_revoked (rv_value r) t"
  by (auto simp: canonicalise_step_pair canonical_or_same_def split: option.splits)

lemma canonicalise_step_keeps:
  "aak_revoked (canonical_or_same v) t \<Longrightarrow> aak_revoked (canonical_or_same v) (canonicalise_revocation r t)"
  using canonical_or_same_idem [of v]
  by (auto simp: canonicalise_step_pair canonical_or_same_def split: option.splits if_splits)

lemma canonicalise_step_other:
  "aak_revoked v t \<Longrightarrow> rv_value r \<noteq> v \<Longrightarrow> aak_revoked v (canonicalise_revocation r t)"
  by (auto simp: canonicalise_step_pair split: option.splits)

lemma canonicalise_fold:
  assumes "aak_revoked v t \<or> aak_revoked (canonical_or_same v) t"
  shows "aak_revoked v (fold canonicalise_revocation rs t) \<or>
         aak_revoked (canonical_or_same v) (fold canonicalise_revocation rs t)"
    and "r \<in> set rs \<Longrightarrow> rv_value r = v \<Longrightarrow>
         aak_revoked (canonical_or_same v) (fold canonicalise_revocation rs t)"
proof -
  have step: "aak_revoked v (canonicalise_revocation q u) \<or>
      aak_revoked (canonical_or_same v) (canonicalise_revocation q u)"
    if "aak_revoked v u \<or> aak_revoked (canonical_or_same v) u" for q u
    using that canonicalise_step_other [of v u q] canonicalise_step_keeps [of v u q]
      canonicalise_step_canonical [of q u] by blast
  have hit: "aak_revoked (canonical_or_same v) (canonicalise_revocation q u)"
    if "aak_revoked v u \<or> aak_revoked (canonical_or_same v) u" "rv_value q = v" for q u
    using that canonicalise_step_keeps [of v u q] canonicalise_step_canonical [of q u] by blast
  have stays: "aak_revoked (canonical_or_same v) u \<Longrightarrow>
      aak_revoked (canonical_or_same v) (fold canonicalise_revocation qs u)" for qs u
    by (induction qs arbitrary: u) (auto intro: canonicalise_step_keeps)
  show "aak_revoked v (fold canonicalise_revocation rs t) \<or>
         aak_revoked (canonical_or_same v) (fold canonicalise_revocation rs t)"
    using assms step by (induction rs arbitrary: t) auto
  show "r \<in> set rs \<Longrightarrow> rv_value r = v \<Longrightarrow>
         aak_revoked (canonical_or_same v) (fold canonicalise_revocation rs t)"
    using assms
  proof (induction rs arbitrary: t)
    case (Cons q rs)
    then show ?case using step [of t q] hit [of t q] stays by (cases "q = r") auto
  qed simp
qed

lemma canonicalise_fold_kinds:
  "k \<noteq> REVOKE_APP_ATTEST_KEY \<Longrightarrow>
   list_ex (\<lambda>q. rv_kind q = k \<and> rv_value q = v) (fold canonicalise_revocation rs t) \<longleftrightarrow>
   list_ex (\<lambda>q. rv_kind q = k \<and> rv_value q = v) t"
  by (induction rs arbitrary: t) (auto simp: canonicalise_step_pair split: option.splits)

text \<open>
  Bringing stored App Attest identities to their canonical spelling loses no revocation: what
  was revoked in any spelling is revoked afterwards under the canonical one, which is the spelling
  the device rows carry from then on; every other revocation stays as it is.
\<close>

theorem canonicalisation_keeps_revocations:
  assumes "revoked_pair (k, v) s"
  shows "revoked_pair (k, if k = REVOKE_APP_ATTEST_KEY then canonical_or_same v else v)
    (canonicalise_app_attest_ids s)"
proof (cases "k = REVOKE_APP_ATTEST_KEY")
  case True
  with assms have v: "aak_revoked v (st_revocations s)" by (simp add: revoked_pair_def)
  then obtain r where "r \<in> set (filter (\<lambda>r. rv_kind r = REVOKE_APP_ATTEST_KEY) (st_revocations s))"
    "rv_value r = v" by (auto simp: list_ex_iff)
  from canonicalise_fold(2) [OF disjI1 [OF v] this] True show ?thesis
    by (simp add: revoked_pair_def canonicalise_app_attest_ids_def)
next
  case False
  with assms canonicalise_fold_kinds [OF False] show ?thesis
    by (simp add: revoked_pair_def canonicalise_app_attest_ids_def)
qed

text \<open>A device revoked before its device id had a revocation of its own.\<close>

definition demo_legacy :: store where
  "demo_legacy = empty_store\<lparr>
     st_devices := [(enrolling_row 1 ''dev-2'' ''k2'' ''6b32'' ''owner'' (Some demo_aak) None ''enr-2'')
        \<lparr>dv_status := DEVICE_REVOKED\<rparr>],
     st_revocations := [\<lparr>rv_kind = REVOKE_APP_ATTEST_KEY, rv_value = demo_aak, rv_reason = None,
        rv_at = 0\<rparr>]\<rparr>"

theorem canonicalisation_keeps_revocations_witness:
  "revoked_pair (REVOKE_APP_ATTEST_KEY, demo_aak) (canonicalise_app_attest_ids demo_legacy)"
proof -
  have "revoked_pair (REVOKE_APP_ATTEST_KEY, demo_aak) demo_legacy"
    by (simp add: demo_legacy_def revoked_pair_def)
  from canonicalisation_keeps_revocations [OF this] show ?thesis
    using canonical_of_encode [of demo_aapk]
    by (simp add: canonical_or_same_def demo_aak_def demo_aapk_def APP_ATTEST_KEY_ID_BYTES_def
        split: if_splits)
qed

lemma backfill_entry_pair:
  "revoked_pair i (snd (backfill_entry now d j acc)) \<longleftrightarrow> revoked_pair i (snd acc) \<or> i = j"
  by (cases acc) (auto simp: backfill_entry_def revoked_pair_append)

lemma backfill_fold_pair:
  "revoked_pair i (snd (fold (backfill_entry now d) es acc)) \<longleftrightarrow>
   revoked_pair i (snd acc) \<or> i \<in> set es"
  by (induction es arbitrary: acc) (auto simp: backfill_entry_pair)

lemma backfill_rows_pair:
  "revoked_pair i (snd (fold (\<lambda>d acc. fold (backfill_entry now (dv_id d)) (legacy_entries H d) acc)
      rows acc)) \<longleftrightarrow> revoked_pair i (snd acc) \<or> (\<exists>d\<in>set rows. i \<in> set (legacy_entries H d))"
  by (induction rows arbitrary: acc) (auto simp: backfill_fold_pair)

text \<open>
  Opening a store of an older version revokes, for every device that was revoked before
  revocations had a table of their own, its device id and the key material its row still carries;
  revocations that were there stay.
\<close>

theorem legacy_revocations_are_backfilled:
  assumes "version < 2"
  shows "revoked_pair i (snd (backfill_legacy_revocations H now (version, s))) \<longleftrightarrow>
    revoked_pair i s \<or> (\<exists>d\<in>set (st_devices s). dv_status d = DEVICE_REVOKED \<and> i \<in> set (legacy_entries H d))"
  using assms backfill_rows_pair [of i now H "filter (\<lambda>d. dv_status d = DEVICE_REVOKED) (st_devices s)" "(0, s)"]
  by (auto simp: backfill_legacy_revocations_def Let_def split: prod.splits)

theorem legacy_revocations_are_backfilled_witness:
  "revoked_pair (REVOKE_DEVICE, ''dev-2'') (snd (backfill_legacy_revocations id_hash 9 (0, demo_legacy)))"
proof -
  have "(0 :: int) < 2" by simp
  from legacy_revocations_are_backfilled [OF this, of "(REVOKE_DEVICE, ''dev-2'')" id_hash 9 demo_legacy]
  show ?thesis by (simp add: demo_legacy_def legacy_entries_def enrolling_row_def)
qed

end
