(* ===== verification/Store_Recovery.thy ===== *)
theory Store_Recovery
  imports Store_Journal
begin

text \<open>
  What the journal promises a recovery: the re-check in front of a retry, and the recovery lease.
\<close>

lemma recheck_body_ok:
  assumes "recheck_body H now att envs core s = Inr (''ok'', s')"
  shows "\<exists>a req dev. get_attempt att s = Some a \<and> is_open (at_status a) \<and>
    execution_id_for H (or_empty core) (at_approval a) = Inr (at_execution a) \<and>
    get_request (at_approval a) s = Some req \<and> rq_state req \<in> {EXECUTING, APPROVED} \<and>
    now \<le> rq_expires req \<and> rq_decided_device req = at_device a \<and>
    select_one (\<lambda>d. Some (dv_id d) = at_device a) (st_devices s) = Some dev \<and>
    au_refusal (execution_authority H req dev envs s) = None \<and>
    claim_binding_mismatch now a req dev (au_fingerprint (execution_authority H req dev envs s))
      (au_app_attest (execution_authority H req dev envs s)) core s = (None, s')"
proof (cases "get_attempt att s")
  case None
  with assms show ?thesis by (simp add: recheck_body_def exec_deny_def)
next
  case (Some a)
  note a = this
  have op: "is_open (at_status a)"
    using assms a by (auto simp: recheck_body_def Let_def exec_deny_def split: if_splits)
  have eid: "execution_id_for H (or_empty core) (at_approval a) = Inr (at_execution a)"
    using assms a op
    by (auto simp: recheck_body_def Let_def exec_deny_def split: if_splits sum.splits)
  obtain req where req: "get_request (at_approval a) s = Some req"
    using assms a op eid
    by (cases "get_request (at_approval a) s") (simp_all add: recheck_body_def Let_def exec_deny_def)
  have rq: "rq_state req \<in> {EXECUTING, APPROVED}" "now \<le> rq_expires req"
    "rq_decided_device req = at_device a"
    using assms a op eid req
    by (simp_all add: recheck_body_def Let_def exec_deny_def split: if_splits)
  let ?sel = "select_one (\<lambda>d. Some (dv_id d) = at_device a) (st_devices s)"
  obtain dev where dev: "?sel = Some dev"
    using assms a op eid req rq
    by (cases ?sel) (auto simp: recheck_body_def Let_def exec_deny_def)
  let ?auth = "execution_authority H req dev envs s"
  have "au_refusal ?auth \<noteq> Some ''ok''"
    by (auto simp: execution_authority_def Let_def split: option.splits)
  then have ref: "au_refusal ?auth = None"
    using assms a op eid req rq dev
    by (cases "au_refusal ?auth") (auto simp: recheck_body_def Let_def exec_deny_def)
  have "claim_binding_mismatch now a req dev (au_fingerprint ?auth) (au_app_attest ?auth) core s
      = (None, s')"
    using assms a op eid req rq dev ref
    by (cases "claim_binding_mismatch now a req dev (au_fingerprint ?auth) (au_app_attest ?auth) core s")
      (auto simp: recheck_body_def Let_def exec_deny_def claim_binding_mismatch_def
        split: option.splits if_splits)
  with a op eid req rq dev ref show ?thesis by blast
qed

lemma claim_binding_None:
  assumes "claim_binding_mismatch now a req dev fp aakid core s = (None, s')"
  shows "at_bound a \<and> s' = s \<and> (\<forall>(l, claimed, current)\<in>set (binding_fields a req dev fp aakid core).
           or_empty claimed = current)"
  using assms
  by (auto simp: claim_binding_mismatch_def find_None_iff split: if_splits option.splits)

text \<open>
  C5: a recovery retry that is allowed runs under exactly the authority of its claim: the attempt
  is open and belongs to this core, its request is still executable and unexpired, the device that
  decided it holds full authority today, and core, principal, environment, enrollment, approval key
  and App Attest key all equal what the claim recorded. Asking changes nothing.
\<close>

theorem retry_runs_under_the_claimed_authority:
  assumes "recheck_execution_authority H now att envs core s = (Inr ''ok'', s')"
  shows "\<exists>a req dev pk. get_attempt att s = Some a \<and> is_open (at_status a) \<and>
    execution_id_for H (or_empty core) (at_approval a) = Inr (at_execution a) \<and>
    get_request (at_approval a) s = Some req \<and> rq_state req \<in> {EXECUTING, APPROVED} \<and>
    now \<le> rq_expires req \<and> rq_decided_device req = Some (dv_id dev) \<and> dev \<in> set (st_devices s) \<and>
    holds_authority H req dev envs s \<and> from_hex (dv_public_key dev) = Some pk \<and>
    at_bound a \<and> or_empty (at_core a) = or_empty core \<and>
    or_empty (at_principal a) = dv_principal dev \<and>
    or_empty (at_environment a) = or_empty (dv_environment dev) \<and>
    or_empty (at_enrollment a) = or_empty (dv_enrollment dev) \<and>
    or_empty (at_approval_key a) = fingerprint H pk \<and>
    or_empty (at_app_attest_key a) = or_empty (dv_app_attest_key_id dev) \<and> s' = s"
proof -
  have "recheck_body H now att envs core s = Inr (''ok'', s')"
    using assms by (simp add: recheck_execution_authority_def atomically_Inr_iff)
  from recheck_body_ok [OF this] obtain a req dev where
    1: "get_attempt att s = Some a" "is_open (at_status a)"
    "execution_id_for H (or_empty core) (at_approval a) = Inr (at_execution a)"
    "get_request (at_approval a) s = Some req" "rq_state req \<in> {EXECUTING, APPROVED}"
    "now \<le> rq_expires req" "rq_decided_device req = at_device a"
    "select_one (\<lambda>d. Some (dv_id d) = at_device a) (st_devices s) = Some dev"
    and 2: "au_refusal (execution_authority H req dev envs s) = None"
    and 3: "claim_binding_mismatch now a req dev (au_fingerprint (execution_authority H req dev envs s))
      (au_app_attest (execution_authority H req dev envs s)) core s = (None, s')" by blast
  from execution_authority_fp [OF 2] obtain pk where
    4: "from_hex (dv_public_key dev) = Some pk"
    "au_fingerprint (execution_authority H req dev envs s) = Some (fingerprint H pk)"
    "au_app_attest (execution_authority H req dev envs s) = Some (or_empty (dv_app_attest_key_id dev))"
    by blast
  have auth: "holds_authority H req dev envs s" using 2 by (simp add: execution_authority_None_iff)
  have dev: "dev \<in> set (st_devices s)" "at_device a = Some (dv_id dev)"
    using 1(8) by (auto simp: select_one_def find_Some_iff)
  from claim_binding_None [OF 3] 4 have 5: "at_bound a" "s' = s"
    "or_empty (at_core a) = or_empty core" "or_empty (at_principal a) = rq_principal req"
    "or_empty (at_environment a) = or_empty (dv_environment dev)"
    "or_empty (at_enrollment a) = or_empty (dv_enrollment dev)"
    "or_empty (at_approval_key a) = fingerprint H pk"
    "or_empty (at_app_attest_key a) = or_empty (dv_app_attest_key_id dev)"
    by (auto simp: binding_fields_def)
  have "dv_principal dev = rq_principal req" using auth by (simp add: holds_authority_def)
  with 1 4(1) 5 auth dev show ?thesis
    by (intro exI [of _ a] exI [of _ req] exI [of _ dev] exI [of _ pk]) simp
qed

definition demo_eid :: string where
  "demo_eid = ''exec-'' @ take 32 (sha256_hex id_hash (execution_preimage ''core'' ''a1''))"

definition demo_open :: store where
  "demo_open = demo_claimed\<lparr>st_attempts := [demo_attempt\<lparr>at_execution := demo_eid,
     at_status := EXTERNAL_PENDING, at_boundary_at := Some 7\<rparr>]\<rparr>"

theorem retry_runs_under_the_claimed_authority_witness:
  "snd (recheck_execution_authority id_hash 50 ''att-1'' [''production''] (Some ''core'') demo_open)
     = demo_open"
proof -
  let ?r = "recheck_execution_authority id_hash 50 ''att-1'' [''production''] (Some ''core'') demo_open"
  have "fst ?r = Inr ''ok''" by code_simp
  then have "?r = (Inr ''ok'', snd ?r)" by (metis prod.collapse)
  from retry_runs_under_the_claimed_authority [OF this] show ?thesis by blast
qed

section \<open>The lease\<close>

lemma acquire_lease_unfold:
  assumes "journal_exclusive (st_attempts s)"
  shows "acquire_recovery_lease now att owner lease s =
    (let hit = (\<lambda>a. at_id a = att \<and> lease_hit now owner a);
         s' = s\<lparr>st_attempts := update_where hit (\<lambda>a. a\<lparr>at_lease_owner := Some owner,
               at_lease_expires := Some (now + lease)\<rparr>) (st_attempts s)\<rparr>
     in if rowcount hit (st_attempts s) = 1
        then (Inr ''ok'', audit now ''execution_lease_acquired'' None None
                (Some (att @ '':'' @ owner)) None s')
        else (Inr ''lease_held'', s'))"
proof -
  let ?hit = "\<lambda>a. at_id a = att \<and> lease_hit now owner a"
  have "journal_exclusive (update_where ?hit (\<lambda>a. a\<lparr>at_lease_owner := Some owner,
               at_lease_expires := Some (now + lease)\<rparr>) (st_attempts s))"
    by (rule journal_exclusive_update [OF assms]) (auto simp: lease_hit_def)
  then show ?thesis
    by (simp add: acquire_recovery_lease_def Let_def put_attempts_def journal_exclusive_indexes)
qed



end
