(* ===== verification/Store_Reach.thy ===== *)
theory Store_Reach
  imports Store_Enrollment Store_Recovery
begin

text \<open>
  All public operations of the approval store as one step relation, the invariant every reachable
  database has, and the relation \<open>store_evolves\<close> between a database and any later one: what only
  ever grows, what never moves back, and what is never rewritten.
\<close>

section \<open>Steps\<close>

inductive store_step :: "(string \<Rightarrow> string) \<Rightarrow> (string \<Rightarrow> json_binding) \<Rightarrow> store \<Rightarrow> store \<Rightarrow> bool"
  for H loads where
  audit_row: "store_step H loads s (audit now ev a d r i s)"
| token_new: "store_step H loads s (snd (add_enrollment_token now h who expires s))"
| token_use: "store_step H loads s (snd (consume_enrollment_token now h s))"
| request_new: "store_step H loads s
    (snd (create_request_row now aid who tool mode task ws dg summary expires s))"
| request_move: "store_step H loads s (snd (transition now aid st dev err s))"
| request_expiry: "store_step H loads s (expire_due now s)"
| challenge_new: "store_step H loads s (snd (add_challenge now n aid dev who dg expires psha s))"
| challenge_use: "store_step H loads s (snd (consume_challenge now n aid dev who dg psha s))"
| revocation: "store_step H loads s (snd (revoke_planned now plan reason dev op s))"
| decision: "store_step H loads s
    (snd (commit_decision H now aid did st n psha vpk vaapk counter envs s))"
| claim: "store_step H loads s
    (snd (claim_execution_attempt H now nr aid did ids eid cap sem idem owner lease core s))"
| boundary: "store_step H loads s (snd (begin_external now att ids s))"
| outcome: "store_step H loads s (snd (finish_execution_attempt now att ast detail rs expected s))"
| lease: "store_step H loads s (snd (acquire_recovery_lease now att owner duration s))"
| recheck: "store_step H loads s (snd (recheck_execution_authority H now att envs core s))"
| enroll: "store_step H loads s (snd (begin_enrollment_atomic now did kid pk who aakid ids eid n fp
    binding expires tch s))"
| attest_failed: "store_step H loads s (set_device_attestation_failed now eid did reason s)"
| attest: "store_step H loads s
    (snd (finalize_attestation H loads now eid aapk counter env app_id core s))"

section \<open>The lifecycle of an attempt\<close>

definition outcomes :: "attempt_status set" where
  "outcomes = {SUCCEEDED, FAILED_SAFE, UNKNOWN, ABANDONED}"

definition attempt_edge :: "attempt_status \<Rightarrow> attempt_status \<Rightarrow> bool" where
  "attempt_edge a b \<longleftrightarrow> a = CLAIMED \<and> b = EXTERNAL_PENDING \<or> is_open a \<and> b \<in> outcomes"

interpretation attempt_graph: state_graph attempt_edge "\<lambda>st. st \<in> set TERMINAL_STATUSES"
  by unfold_locales (auto simp: attempt_edge_def TERMINAL_STATUSES_def OPEN_STATUSES_def)

text \<open>An attempt never goes back in front of its boundary.\<close>

lemma attempt_never_back:
  "reaches attempt_edge a b \<Longrightarrow> a \<noteq> CLAIMED \<Longrightarrow> b \<notin> {CLAIMED, EXTERNAL_PENDING} \<or> b = a"
  by (induction rule: reaches.induct)
    (auto simp: attempt_edge_def outcomes_def)

section \<open>What a later database keeps\<close>

definition device_rel :: "device \<Rightarrow> device \<Rightarrow> bool" where
  "device_rel d d' \<longleftrightarrow> (dv_status d = DEVICE_REVOKED \<longrightarrow>
     dv_status d' = DEVICE_REVOKED \<and> dv_public_key d' = dv_public_key d \<and>
     dv_app_attest_key_id d' = dv_app_attest_key_id d \<and> dv_principal d' = dv_principal d \<and>
     dv_enrollment d' = dv_enrollment d \<and>
     (dv_attestation d' = ATT_ATTESTED \<longrightarrow> dv_attestation d = ATT_ATTESTED))"

definition request_rel :: "approval_request \<Rightarrow> approval_request \<Rightarrow> bool" where
  "request_rel r r' \<longleftrightarrow> reaches request_edge (rq_state r) (rq_state r') \<and>
     (rq_decided_at r \<noteq> None \<longrightarrow> rq_decided_at r' = rq_decided_at r) \<and>
     (rq_principal r', rq_tool r', rq_mode r', rq_task r', rq_workspace r', rq_digest r',
      rq_summary r', rq_created r', rq_expires r') =
     (rq_principal r, rq_tool r, rq_mode r, rq_task r, rq_workspace r, rq_digest r,
      rq_summary r, rq_created r, rq_expires r)"

definition challenge_rel :: "challenge \<Rightarrow> challenge \<Rightarrow> bool" where
  "challenge_rel c c' \<longleftrightarrow> c' = c \<or> c' = c\<lparr>ch_consumed := True\<rparr>"

definition token_rel :: "enrollment_token \<Rightarrow> enrollment_token \<Rightarrow> bool" where
  "token_rel t t' \<longleftrightarrow> t' = t \<or> t' = t\<lparr>tk_consumed := True\<rparr>"

definition att_challenge_rel :: "att_challenge \<Rightarrow> att_challenge \<Rightarrow> bool" where
  "att_challenge_rel c c' \<longleftrightarrow> (ac_consumed c \<longrightarrow> ac_consumed c') \<and> (ac_superseded c \<longrightarrow> ac_superseded c') \<and>
     c'\<lparr>ac_consumed := False, ac_superseded := False\<rparr> = c\<lparr>ac_consumed := False, ac_superseded := False\<rparr>"

definition attempt_rel :: "attempt \<Rightarrow> attempt \<Rightarrow> bool" where
  "attempt_rel a a' \<longleftrightarrow> reaches attempt_edge (at_status a) (at_status a') \<and>
     (at_boundary_at a \<noteq> None \<longrightarrow> at_boundary_at a' = at_boundary_at a) \<and>
     a'\<lparr>at_status := CLAIMED, at_boundary_at := None, at_finished_at := None, at_detail := None,
        at_lease_owner := None, at_lease_expires := None\<rparr> =
     a\<lparr>at_status := CLAIMED, at_boundary_at := None, at_finished_at := None, at_detail := None,
        at_lease_owner := None, at_lease_expires := None\<rparr>"

definition grows :: "'a list \<Rightarrow> 'a list \<Rightarrow> bool" where
  "grows xs ys \<longleftrightarrow> (\<exists>zs. ys = xs @ zs)"

definition store_evolves :: "store \<Rightarrow> store \<Rightarrow> bool" where
  "store_evolves s t \<longleftrightarrow>
     table_evolves dv_id device_rel (st_devices s) (st_devices t) \<and>
     table_evolves rq_id request_rel (st_requests s) (st_requests t) \<and>
     table_evolves ch_nonce challenge_rel (st_challenges s) (st_challenges t) \<and>
     table_evolves tk_hash token_rel (st_tokens s) (st_tokens t) \<and>
     table_evolves ac_enrollment att_challenge_rel (st_att_challenges s) (st_att_challenges t) \<and>
     table_evolves at_id attempt_rel (st_attempts s) (st_attempts t) \<and>
     grows (st_audit s) (st_audit t) \<and> grows (st_history s) (st_history t) \<and>
     grows (st_revocations s) (st_revocations t)"

named_theorems rel_refl
named_theorems rel_trans

lemma device_rel_refl [rel_refl]: "device_rel d d"
  by (simp add: device_rel_def)

lemma device_rel_trans [rel_trans]: "device_rel a b \<Longrightarrow> device_rel b c \<Longrightarrow> device_rel a c"
  by (auto simp: device_rel_def)

lemma request_rel_refl [rel_refl]: "request_rel r r"
  by (simp add: request_rel_def reaches.start)

lemma request_rel_trans [rel_trans]: "request_rel a b \<Longrightarrow> request_rel b c \<Longrightarrow> request_rel a c"
  by (auto simp: request_rel_def intro: reaches_trans)

lemma challenge_rel_refl [rel_refl]: "challenge_rel c c"
  by (simp add: challenge_rel_def)

lemma challenge_rel_trans [rel_trans]: "challenge_rel a b \<Longrightarrow> challenge_rel b c \<Longrightarrow> challenge_rel a c"
  by (auto simp: challenge_rel_def)

lemma token_rel_refl [rel_refl]: "token_rel t t"
  by (simp add: token_rel_def)

lemma token_rel_trans [rel_trans]: "token_rel a b \<Longrightarrow> token_rel b c \<Longrightarrow> token_rel a c"
  by (auto simp: token_rel_def)

lemma att_challenge_rel_refl [rel_refl]: "att_challenge_rel c c"
  by (simp add: att_challenge_rel_def)

lemma att_challenge_rel_trans [rel_trans]:
  "att_challenge_rel a b \<Longrightarrow> att_challenge_rel b c \<Longrightarrow> att_challenge_rel a c"
  by (auto simp: att_challenge_rel_def)

lemma attempt_rel_refl [rel_refl]: "attempt_rel a a"
  by (simp add: attempt_rel_def reaches.start)

lemma attempt_rel_trans [rel_trans]: "attempt_rel a b \<Longrightarrow> attempt_rel b c \<Longrightarrow> attempt_rel a c"
  by (auto simp: attempt_rel_def intro: reaches_trans)

lemma grows_refl: "grows xs xs"
  by (simp add: grows_def)

lemma grows_trans: "grows xs ys \<Longrightarrow> grows ys zs \<Longrightarrow> grows xs zs"
  by (auto simp: grows_def)

lemma grows_append: "grows xs (xs @ ys)"
  by (simp add: grows_def)

lemma store_evolves_refl: "store_evolves s s"
  by (simp add: store_evolves_def grows_refl table_evolves_refl rel_refl)

lemma store_evolves_trans: "store_evolves s t \<Longrightarrow> store_evolves t u \<Longrightarrow> store_evolves s u"
  unfolding store_evolves_def
  by (intro conjI; elim conjE)
    (blast intro: table_evolves_trans rel_trans grows_trans)+

section \<open>The invariant, and steps that keep it\<close>

definition attempt_wf :: "attempt \<Rightarrow> bool" where
  "attempt_wf a \<longleftrightarrow> (at_status a = CLAIMED \<longrightarrow> at_boundary_at a = None) \<and>
     (at_status a = EXTERNAL_PENDING \<longrightarrow> at_boundary_at a \<noteq> None)"

definition store_inv :: "store \<Rightarrow> bool" where
  "store_inv s \<longleftrightarrow> store_keys_distinct s \<and> journal_exclusive (st_attempts s) \<and>
     (\<forall>r\<in>set (st_requests s). rq_state r = PENDING \<longrightarrow> rq_decided_at r = None) \<and>
     (\<forall>r\<in>set (st_requests s). rq_state r \<in> {EXECUTING, CONSUMED, FAILED} \<longrightarrow>
        (\<exists>a\<in>set (st_attempts s). at_approval a = rq_id r)) \<and>
     (\<forall>a\<in>set (st_attempts s). attempt_wf a)"

definition ok_step :: "store \<Rightarrow> store \<Rightarrow> bool" where
  "ok_step s t \<longleftrightarrow> (store_inv s \<longrightarrow> store_inv t \<and> store_evolves s t)"

named_theorems ok_steps \<open>the writes that keep the invariant and respect the evolution\<close>

lemma ok_refl [ok_steps]: "ok_step s s"
  by (simp add: ok_step_def store_evolves_refl)

lemma ok_trans: "ok_step s t \<Longrightarrow> ok_step t u \<Longrightarrow> ok_step s u"
  by (auto simp: ok_step_def intro: store_evolves_trans)

lemma ok_audit1: "ok_step s (audit now ev a d r i s)"
  by (simp add: ok_step_def store_inv_def store_evolves_def audit_trail grows_append grows_refl
      table_evolves_refl rel_refl)

lemma ok_audit [ok_steps]: "ok_step s t \<Longrightarrow> ok_step s (audit now ev a d r i t)"
  by (erule ok_trans) (rule ok_audit1)

lemma ok_atomically [ok_steps]:
  "(\<And>a t. b = Inr (a, t) \<Longrightarrow> ok_step s t) \<Longrightarrow> ok_step s (snd (atomically s b))"
  by (rule atomically_snd) (simp_all add: ok_refl)

lemma ok_requests:
  assumes "\<And>r. p r \<Longrightarrow> rq_id (f r) = rq_id r"
    and "\<And>r. store_inv s \<Longrightarrow> r \<in> set (st_requests s) \<Longrightarrow> p r \<Longrightarrow> request_rel r (f r) \<and>
       rq_state (f r) \<noteq> PENDING \<and> (rq_state (f r) \<in> {EXECUTING, CONSUMED, FAILED} \<longrightarrow>
         (\<exists>a\<in>set (st_attempts s). at_approval a = rq_id r))"
  shows "ok_step s (s\<lparr>st_requests := update_where p f (st_requests s)\<rparr>)"
proof -
  let ?t = "update_where p f (st_requests s)"
  have ids: "map rq_id ?t = map rq_id (st_requests s)"
    using assms(1) by (simp add: update_where_def)
  have ev: "table_evolves rq_id request_rel (st_requests s) ?t" if "store_inv s"
    using assms(2) [OF that] by (intro table_evolves_update) (auto simp: rel_refl assms(1))
  show ?thesis
    unfolding ok_step_def
  proof (intro impI conjI)
    assume inv: "store_inv s"
    show "store_evolves s (s\<lparr>st_requests := ?t\<rparr>)"
      using ev [OF inv] by (simp add: store_evolves_def grows_refl table_evolves_refl rel_refl)
    show "store_inv (s\<lparr>st_requests := ?t\<rparr>)"
      using inv assms(2) [OF inv]
      by (auto simp: store_inv_def store_keys_distinct_def ids set_update_where assms(1) split: if_splits)
  qed
qed

lemma ok_request_insert:
  assumes "insert_pk rq_id r (st_requests s) = Inr t" and "rq_state r = PENDING" "rq_decided_at r = None"
  shows "ok_step s (s\<lparr>st_requests := t\<rparr>)"
  using assms insert_pk_distinct [OF assms(1)]
  by (auto simp: ok_step_def store_inv_def store_keys_distinct_def store_evolves_def insert_pk_Inr_iff
      grows_refl table_evolves_refl rel_refl table_evolves_append)

lemma ok_challenges:
  assumes "\<And>c. p c \<Longrightarrow> f c = c\<lparr>ch_consumed := True\<rparr>"
  shows "ok_step s (s\<lparr>st_challenges := update_where p f (st_challenges s)\<rparr>)"
proof -
  have "map ch_nonce (update_where p f (st_challenges s)) = map ch_nonce (st_challenges s)"
    using assms by (simp add: update_where_def)
  moreover have "table_evolves ch_nonce challenge_rel (st_challenges s) (update_where p f (st_challenges s))"
    using assms by (intro table_evolves_update) (auto simp: challenge_rel_def)
  ultimately show ?thesis
    by (simp add: ok_step_def store_inv_def store_keys_distinct_def store_evolves_def grows_refl
        table_evolves_refl rel_refl)
qed

lemma ok_challenge_insert:
  assumes "insert_pk ch_nonce c (st_challenges s) = Inr t"
  shows "ok_step s (s\<lparr>st_challenges := t\<rparr>)"
  using assms insert_pk_distinct [OF assms(1)]
  by (auto simp: ok_step_def store_inv_def store_keys_distinct_def store_evolves_def insert_pk_Inr_iff
      grows_refl table_evolves_refl rel_refl table_evolves_append)

lemma ok_tokens:
  "ok_step s (s\<lparr>st_tokens := update_where p (\<lambda>t. t\<lparr>tk_consumed := True\<rparr>) (st_tokens s)\<rparr>)"
proof -
  have "table_evolves tk_hash token_rel (st_tokens s)
      (update_where p (\<lambda>t. t\<lparr>tk_consumed := True\<rparr>) (st_tokens s))"
    by (intro table_evolves_update) (auto simp: token_rel_def)
  then show ?thesis
    by (simp add: ok_step_def store_inv_def store_keys_distinct_def store_evolves_def grows_refl
        table_evolves_refl rel_refl keys_update)
qed

lemma ok_token_insert:
  assumes "insert_pk tk_hash c (st_tokens s) = Inr t"
  shows "ok_step s (s\<lparr>st_tokens := t\<rparr>)"
  using assms insert_pk_distinct [OF assms(1)]
  by (auto simp: ok_step_def store_inv_def store_keys_distinct_def store_evolves_def insert_pk_Inr_iff
      grows_refl table_evolves_refl rel_refl table_evolves_append)

lemma ok_att_challenges:
  assumes "\<And>c. f c = c\<lparr>ac_consumed := True\<rparr> \<or> f c = c\<lparr>ac_superseded := True\<rparr>"
  shows "ok_step s (s\<lparr>st_att_challenges := update_where p f (st_att_challenges s)\<rparr>)"
proof -
  have id: "ac_enrollment (f c) = ac_enrollment c" for c using assms [of c] by auto
  have "att_challenge_rel c (f c)" for c using assms [of c] by (auto simp: att_challenge_rel_def)
  then have "table_evolves ac_enrollment att_challenge_rel (st_att_challenges s)
      (update_where p f (st_att_challenges s))"
    by (intro table_evolves_update) (auto simp: rel_refl id)
  then show ?thesis
    by (simp add: ok_step_def store_inv_def store_keys_distinct_def store_evolves_def grows_refl
        table_evolves_refl rel_refl keys_update id)
qed

lemma ok_att_challenge_insert:
  assumes "insert_pk ac_enrollment c (st_att_challenges s) = Inr t"
  shows "ok_step s (s\<lparr>st_att_challenges := t\<rparr>)"
  using assms insert_pk_distinct [OF assms(1)]
  by (auto simp: ok_step_def store_inv_def store_keys_distinct_def store_evolves_def insert_pk_Inr_iff
      grows_refl table_evolves_refl rel_refl table_evolves_append)

lemma ok_devices:
  assumes "\<And>d. p d \<Longrightarrow> dv_id (f d) = dv_id d"
    and "\<And>d. store_inv s \<Longrightarrow> d \<in> set (st_devices s) \<Longrightarrow> p d \<Longrightarrow> device_rel d (f d)"
  shows "ok_step s (s\<lparr>st_devices := update_where p f (st_devices s)\<rparr>)"
proof -
  have ids: "map dv_id (update_where p f (st_devices s)) = map dv_id (st_devices s)"
    using assms(1) by (simp add: update_where_def)
  have "table_evolves dv_id device_rel (st_devices s) (update_where p f (st_devices s))"
    if "store_inv s" by (rule table_evolves_update) (use assms that rel_refl in auto)
  with ids show ?thesis
    by (simp add: ok_step_def store_inv_def store_keys_distinct_def store_evolves_def grows_refl
        table_evolves_refl rel_refl)
qed

lemma ok_device_insert:
  assumes "dv_id d \<notin> dv_id ` set (st_devices s)"
  shows "ok_step s (s\<lparr>st_devices := st_devices s @ [d]\<rparr>)"
  using assms
  by (auto simp: ok_step_def store_inv_def store_keys_distinct_def store_evolves_def
      grows_refl table_evolves_refl rel_refl table_evolves_append)

lemma ok_history: "grows (st_history s) h \<Longrightarrow> ok_step s (s\<lparr>st_history := h\<rparr>)"
  by (simp add: ok_step_def store_inv_def store_keys_distinct_def store_evolves_def
      grows_refl table_evolves_refl rel_refl)

lemma ok_revocation:
  assumes "\<not> revoked_pair (rv_kind r, rv_value r) s"
  shows "ok_step s (s\<lparr>st_revocations := st_revocations s @ [r]\<rparr>)"
  using assms
  by (auto simp: ok_step_def store_inv_def store_keys_distinct_def store_evolves_def
      grows_refl grows_append table_evolves_refl rel_refl revoked_pair_def list_ex_iff)

lemma ok_attempts:
  assumes same: "\<And>a. p a \<Longrightarrow> at_id (f a) = at_id a"
      "\<And>a. p a \<Longrightarrow> at_execution (f a) = at_execution a"
      "\<And>a. p a \<Longrightarrow> at_approval (f a) = at_approval a" "\<And>a. p a \<Longrightarrow> is_open (at_status a)"
    and rel: "\<And>a. p a \<Longrightarrow> attempt_wf a \<Longrightarrow> attempt_rel a (f a) \<and> attempt_wf (f a)"
  shows "ok_step s (s\<lparr>st_attempts := update_where p f (st_attempts s)\<rparr>)"
proof -
  let ?t = "update_where p f (st_attempts s)"
  have ids: "map at_id ?t = map at_id (st_attempts s)"
    using same by (simp add: update_where_def)
  have ev: "table_evolves at_id attempt_rel (st_attempts s) ?t"
    if "\<forall>a\<in>set (st_attempts s). attempt_wf a"
    by (rule table_evolves_update) (use that same rel rel_refl in auto)
  have wf: "\<forall>a\<in>set ?t. attempt_wf a" if "\<forall>a\<in>set (st_attempts s). attempt_wf a"
    using that rel by (auto simp: set_update_where)
  have excl: "journal_exclusive (st_attempts s) \<Longrightarrow> journal_exclusive ?t"
    by (rule journal_exclusive_update) (use same in auto)
  have keep: "\<exists>a\<in>set ?t. at_approval a = x" if "\<exists>a\<in>set (st_attempts s). at_approval a = x" for x
  proof -
    from that obtain a where a: "a \<in> set (st_attempts s)" "at_approval a = x" by auto
    let ?b = "if p a then f a else a"
    have "?b \<in> set ?t" using a(1) by (auto simp: set_update_where)
    moreover have "at_approval ?b = x" using a(2) same(3) by simp
    ultimately show ?thesis by blast
  qed
  show ?thesis
    using ids ev excl keep wf
    by (simp add: ok_step_def store_inv_def store_keys_distinct_def store_evolves_def
        grows_refl table_evolves_refl rel_refl)
qed

lemma ok_attempt_insert:
  assumes "at_id a \<notin> at_id ` set (st_attempts s)" and "attempt_wf a"
    and "\<forall>b\<in>set (st_attempts s). at_execution b = at_execution a \<longrightarrow> \<not> live_attempt b"
  shows "ok_step s (s\<lparr>st_attempts := st_attempts s @ [a]\<rparr>)"
proof -
  have "journal_exclusive (st_attempts s) \<Longrightarrow> journal_exclusive (st_attempts s @ [a])"
    using assms(3) by (intro journal_exclusive_append) auto
  then show ?thesis
    using assms(1,2)
    by (auto simp: ok_step_def store_inv_def store_keys_distinct_def store_evolves_def
        grows_refl table_evolves_refl rel_refl table_evolves_append)
qed

section \<open>Every operation keeps the invariant and only evolves the store\<close>

lemma ok_add_token: "ok_step s (snd (add_enrollment_token now h who expires s))"
  by (auto simp: add_enrollment_token_def split: sum.split intro!: ok_refl ok_audit ok_token_insert)

lemma ok_use_token: "ok_step s (snd (consume_enrollment_token now h s))"
proof -
  have "\<exists>p. snd (consume_enrollment_token now h s) =
      s\<lparr>st_tokens := update_where p (\<lambda>t. t\<lparr>tk_consumed := True\<rparr>) (st_tokens s)\<rparr>"
    by (auto simp: consume_enrollment_token_def Let_def split: option.split)
  then show ?thesis using ok_tokens by metis
qed

lemma ok_new_request: "ok_step s (snd (create_request_row now aid who tool mode task ws dg summary e s))"
  by (auto simp: create_request_row_def split: sum.split intro!: ok_refl ok_audit
      ok_request_insert)

lemma ok_cas:
  assumes "cas_transition now aid st dev err stamp s = Inr (cur, s')"
    and "stamp \<Longrightarrow> cur = PENDING"
  shows "ok_step s s'"
proof -
  from cas_transition_Inr [OF assms(1)]
  have edge: "request_edge cur st" "st \<noteq> EXECUTING"
    and s': "s' = audit now (''state_'' @ state_name st) (Some aid) dev err None
      (s\<lparr>st_requests := update_where (\<lambda>q. rq_id q = aid \<and> rq_state q = cur)
         (\<lambda>q. q\<lparr>rq_state := st, rq_decided_at := (if stamp then Some now else rq_decided_at q),
               rq_decided_device := coalesce dev (rq_decided_device q),
               rq_error := coalesce err (rq_error q)\<rparr>) (st_requests s)\<rparr>)" by auto
  have np: "st \<noteq> PENDING" and ex: "st \<in> {EXECUTING, CONSUMED, FAILED} \<Longrightarrow> cur = EXECUTING"
    using edge by (cases cur; auto)+
  have r: "reaches request_edge cur st" using edge(1) by (rule reaches_one)
  show ?thesis
    unfolding s'
    by (rule ok_audit, rule ok_requests)
      (use np ex r assms(2) in \<open>auto simp: request_rel_def store_inv_def\<close>)
qed

lemma ok_transition: "ok_step s (snd (transition now aid st dev err s))"
  unfolding transition_def by (rule ok_atomically) (erule ok_cas, simp)

lemma ok_expire: "ok_step s (expire_due now s)"
proof -
  have fold: "ok_step s (fold (\<lambda>aid. audit now ev (Some aid) None r None) xs t)" if "ok_step s t"
    for ev r xs t
    using that by (induction xs arbitrary: t) (auto intro: ok_audit)
  have "ok_step s (s\<lparr>st_requests := update_where (request_due now) (\<lambda>r. r\<lparr>rq_state := EXPIRED\<rparr>)
      (st_requests s)\<rparr>)"
  proof (rule ok_requests)
    fix r assume "request_due now r"
    then have "request_edge (rq_state r) EXPIRED" by (auto simp: request_due_def)
    then show "request_rel r (r\<lparr>rq_state := EXPIRED\<rparr>) \<and> rq_state (r\<lparr>rq_state := EXPIRED\<rparr>) \<noteq> PENDING \<and>
        (rq_state (r\<lparr>rq_state := EXPIRED\<rparr>) \<in> {EXECUTING, CONSUMED, FAILED} \<longrightarrow>
         (\<exists>a\<in>set (st_attempts s). at_approval a = rq_id r))"
      by (simp add: request_rel_def reaches_one)
  qed simp
  then show ?thesis by (simp add: expire_due_def Let_def ok_refl fold)
qed

lemma ok_new_challenge: "ok_step s (snd (add_challenge now n aid dev who dg e psha s))"
proof -
  define s1 where "s1 = s\<lparr>st_challenges := update_where (\<lambda>c. ch_approval c = aid \<and> \<not> ch_consumed c)
      (\<lambda>c. c\<lparr>ch_consumed := True\<rparr>) (st_challenges s)\<rparr>"
  have ok1: "ok_step s s1" unfolding s1_def by (rule ok_challenges) simp
  show ?thesis
    unfolding add_challenge_def Let_def s1_def [symmetric]
    by (rule ok_atomically)
      (auto split: sum.splits intro!: ok_audit ok_trans [OF ok1 ok_challenge_insert])
qed

lemma ok_cas_consume:
  "cas_consume_challenge now n aid dev who dg p s = (out, s') \<Longrightarrow> ok_step s s'"
  by (drule cas_consume_frame) (simp add: ok_challenges)

lemma ok_use_challenge: "ok_step s (snd (consume_challenge now n aid dev who dg p s))"
  unfolding consume_challenge_def by (rule ok_atomically) (auto intro: ok_cas_consume)

lemma ok_write_entry: "ok_step s (snd acc) \<Longrightarrow> ok_step s (snd (write_entry now reason dev i acc))"
  by (cases acc) (auto simp: write_entry_def intro!: ok_audit ok_trans [OF _ ok_revocation])

lemma ok_doom: "ok_step s (doom_device now d s)"
  unfolding doom_device_def
  by (rule ok_audit, rule ok_devices) (auto simp: device_rel_def)

lemma ok_revoke: "ok_step s (snd (revoke_planned now plan reason dev op s))"
proof -
  have entries: "ok_step s (snd (fold (write_entry now reason dev) es acc))" if "ok_step s (snd acc)"
    for es acc
    using that
  proof (induction es arbitrary: acc)
    case (Cons i es)
    show ?case using Cons.IH [OF ok_write_entry [OF Cons.prems]] by simp
  qed simp
  have dooms: "ok_step s (fold (doom_device now) ds t)" if "ok_step s t" for ds t
    using that by (induction ds arbitrary: t) (auto intro: ok_trans [OF _ ok_doom])
  have "ok_step s (snd (write_revocations now es reason dev ds s))" for es ds
    using entries [of "(([], []), s)" es]
    by (auto simp: write_revocations_def ok_refl split: prod.split intro!: dooms)
  then show ?thesis
    unfolding revoke_planned_def
    by (intro ok_atomically) (auto split: prod.splits sum.splits, metis snd_conv)
qed

lemma ok_bump:
  assumes "get_device did s = Some dev" and "dv_status dev \<noteq> DEVICE_REVOKED"
  shows "ok_step s (bump_counter did c s)"
proof (cases c)
  case (Some n)
  show ?thesis
    unfolding bump_counter_def Some option.case
  proof (rule ok_devices)
    fix d assume "store_inv s" "d \<in> set (st_devices s)" "dv_id d = did \<and> dv_app_attest_counter d < n"
    then have "d = dev"
      using assms(1) by_key_unique [of dv_id "st_devices s" d]
      by (auto simp: store_inv_def store_keys_distinct_def)
    with assms(2) show "device_rel d (d\<lparr>dv_app_attest_counter := n\<rparr>)" by (simp add: device_rel_def)
  qed simp
qed (simp add: bump_counter_def ok_refl)

lemma ok_decision_write:
  assumes chk: "decision_checked H now aid did st vpk vaapk envs req dev s"
    and w: "decision_write now aid did st n psha counter req s = Inr (out, s')"
  shows "ok_step s s'"
proof -
  obtain nst s1 where c: "cas_consume_challenge now n aid did (rq_principal req) (rq_digest req)
      psha s = (nst, s1)" by fastforce
  note ok1 = ok_cas_consume [OF c]
  show ?thesis
  proof (cases "nst = ''ok''")
    case False
    with w c ok1 show ?thesis by (auto simp: decision_write_def decision_deny_def intro: ok_audit)
  next
    case True
    let ?s2 = "if st = APPROVED then bump_counter did counter s1 else s1"
    have "st_devices s1 = st_devices s" "st_requests s1 = st_requests s"
      using cas_consume_frame [OF c] by simp_all
    with chk have dev: "get_device did s1 = Some dev" "dv_status dev \<noteq> DEVICE_REVOKED"
      and req: "get_request aid ?s2 = Some req" "rq_state req = PENDING"
      by (auto simp: decision_checked_def holds_authority_def)
    have ok2: "ok_step s ?s2"
      using ok1 ok_trans [OF ok1 ok_bump [OF dev]] by simp
    from w c True obtain cur where t: "cas_transition now aid st (Some did) None True ?s2 = Inr (cur, s')"
      by (auto simp: decision_write_def Let_def split: sum.splits)
    have "cur = PENDING" using cas_transition_target [OF t] req by auto
    with ok_cas [OF t] ok2 show ?thesis by (auto intro: ok_trans)
  qed
qed

lemma ok_decision: "ok_step s (snd (commit_decision H now aid did st n psha vpk vaapk counter envs s))"
proof -
  let ?b = "commit_decision_body H now aid did st n psha vpk vaapk counter envs s"
  have "ok_step s t" if "?b = Inr (out, t)" for out t
    using commit_decision_body_cases [OF that] ok_decision_write
    by (auto simp: decision_denied_def decision_deny_def intro!: ok_audit ok_refl)
      (metis ok_decision_write)+
  then show ?thesis
    by (auto simp: commit_decision_def Let_def ok_refl split: sum.split exn.split prod.split
        intro!: ok_audit)
qed

lemma ok_claim:
  "ok_step s (snd (claim_execution_attempt H now nr aid did ids eid cap sem idem owner lease core s))"
proof (cases "claim_execution_attempt H now nr aid did ids eid cap sem idem owner lease core s")
  case (Pair res s')
  show ?thesis
  proof (cases res)
    case (Inl e)
    with Pair have "s' = s"
      by (auto simp: claim_execution_attempt_def atomically_Inl_iff split: if_splits)
    with Pair show ?thesis by (simp add: ok_refl)
  next
    case (Inr r)
    obtain out why where r: "r = (out, why)" by fastforce
    from Pair Inr r have eq: "claim_execution_attempt H now nr aid did ids eid cap sem idem owner lease core s
      = (Inr (out, why), s')" by simp
    from eq have "ok_step s s'"
    proof (cases rule: claim_attempt_cases)
      case (refused ev x)
      then show ?thesis by (auto intro: ok_audit ok_refl)
    next
      case rejected
      have keep: "update_where (claim_hit now aid did ids s) (\<lambda>r. r\<lparr>rq_state := EXECUTING\<rparr>) (st_requests s)
          = st_requests s" if "store_inv s"
      proof (rule update_where_id)
        fix q assume q: "q \<in> set (st_requests s)"
        show "\<not> claim_hit now aid did ids s q"
        proof
          assume h: "claim_hit now aid did ids s q"
          let ?q = "\<lambda>r. claim_hit now aid did ids s r"
          have dist: "distinct (map rq_id (st_requests s))"
            using that by (simp add: store_inv_def store_keys_distinct_def)
          have id: "rq_id q = aid" using h by (simp add: claim_hit_def)
          have "(\<lambda>r. rq_id r = aid \<and> ?q r) = ?q" by (auto simp: claim_hit_def fun_eq_iff)
          with rowcount_key_1 [OF dist by_key_unique [OF dist q, unfolded id], of ?q] h
          have "rowcount ?q (st_requests s) = 1" by simp
          with claim_row_Inr(2) [OF rejected(3)] show False by simp
        qed
      qed
      show ?thesis
        unfolding claim_row_Inr(1) [OF rejected(3)]
        using ok_audit [OF ok_refl] keep by (auto simp: ok_step_def)
    next
      case (claimed att s1 t)
      let ?a = "new_attempt now att eid aid did cap sem idem owner lease
          (claim_authority_snapshot H aid did core s1)"
      let ?hit = "claim_hit now aid did ids s"
      have ok1: "ok_step s (s\<lparr>st_attempts := st_attempts s @ [?a]\<rparr>)"
        using claimed(3,7) by (intro ok_attempt_insert) (auto simp: attempt_wf_def new_attempt_def)
      define s2 where "s2 = s\<lparr>st_attempts := st_attempts s @ [?a]\<rparr>"
      have ok2: "ok_step s2 (s2\<lparr>st_requests := update_where ?hit (\<lambda>r. r\<lparr>rq_state := EXECUTING\<rparr>)
          (st_requests s2)\<rparr>)"
        by (rule ok_requests)
          (auto simp: claim_hit_def request_rel_def s2_def intro: reaches_one)
      have "s' = audit now ''execution_attempt_claimed'' (Some aid) (Some did) (Some att) None
          (audit now (''state_'' @ state_name EXECUTING) (Some aid) (Some did) None None
            (s2\<lparr>st_requests := update_where ?hit (\<lambda>r. r\<lparr>rq_state := EXECUTING\<rparr>) (st_requests s2)\<rparr>))"
        using claimed(6,8) claim_row_Inr(1) [OF claimed(4)] by (simp add: s2_def audit_def)
      then show ?thesis
        using ok1 ok2 by (auto simp: s2_def [symmetric] intro!: ok_audit elim: ok_trans)
    qed
    with Pair show ?thesis by simp
  qed
qed

text \<open>A status write along an edge of the attempt's lifecycle.\<close>

lemma open_simps [simp]: "is_open CLAIMED" "is_open EXTERNAL_PENDING" "is_open UNKNOWN"
  "\<not> is_open SUCCEEDED" "\<not> is_open FAILED_SAFE" "\<not> is_open ABANDONED"
  by (simp_all add: OPEN_STATUSES_def)

lemma ok_abandon:
  "update_attempt att CLAIMED (\<lambda>a. a\<lparr>at_status := ABANDONED, at_finished_at := Some now,
     at_detail := d\<rparr>) s = Inr (h, t) \<Longrightarrow> ok_step s t"
proof -
  assume "update_attempt att CLAIMED (\<lambda>a. a\<lparr>at_status := ABANDONED, at_finished_at := Some now,
     at_detail := d\<rparr>) s = Inr (h, t)"
  note t = update_attempt_Inr(1) [OF this]
  have "attempt_edge CLAIMED ABANDONED" by (simp add: attempt_edge_def outcomes_def)
  then show ?thesis
    unfolding t by (intro ok_attempts) (auto simp: attempt_rel_def attempt_wf_def reaches_one)
qed

lemma ok_cross:
  "update_attempt att CLAIMED (\<lambda>a. a\<lparr>at_status := EXTERNAL_PENDING, at_boundary_at := Some now\<rparr>) s
     = Inr (h, t) \<Longrightarrow> ok_step s t"
proof -
  assume "update_attempt att CLAIMED (\<lambda>a. a\<lparr>at_status := EXTERNAL_PENDING,
     at_boundary_at := Some now\<rparr>) s = Inr (h, t)"
  note t = update_attempt_Inr(1) [OF this]
  have "attempt_edge CLAIMED EXTERNAL_PENDING" by (simp add: attempt_edge_def)
  then show ?thesis
    unfolding t by (intro ok_attempts) (auto simp: attempt_rel_def attempt_wf_def reaches_one)
qed

lemma ok_boundary: "ok_step s (snd (begin_external now att ids s))"
  unfolding begin_external_def
  by (auto simp: exec_deny_def ok_refl split: option.splits sum.splits if_splits
      intro!: ok_atomically ok_audit intro: ok_refl ok_cross ok_trans [OF ok_abandon ok_cas])

lemma ok_finish_update:
  assumes "update_attempt att (at_status a) (finished_row now st detail) s = Inr (h, t)"
    and "is_open (at_status a)" and "st \<in> outcomes"
  shows "ok_step s t"
proof -
  have "attempt_edge (at_status a) st" using assms(2,3) by (auto simp: attempt_edge_def)
  with assms(2,3) show ?thesis
    unfolding update_attempt_Inr(1) [OF assms(1)]
    by (intro ok_attempts)
      (auto simp: attempt_rel_def attempt_wf_def reaches_one finished_row_def outcomes_def)
qed

lemma finish_body_refused:
  assumes "finish_body now att st detail rs expected s = Inr (out, s')" and "out \<noteq> ''ok''"
  shows "\<exists>aid dev s1. s' = audit now ''execution_rejected'' aid dev (Some out) None s1 \<and>
    (s1 = s \<or> (\<exists>(a :: attempt) h. is_open (at_status a) \<and>
        update_attempt att (at_status a) (finished_row now st detail) s = Inr (h, s1)))"
proof (cases "get_attempt att s")
  case None
  with assms show ?thesis by (auto simp: finish_body_def exec_deny_def)
next
  case (Some a)
  show ?thesis
  proof (cases "at_status a \<in> set TERMINAL_STATUSES \<or> expected \<noteq> None \<and> Some (at_status a) \<noteq> expected")
    case True
    with assms Some show ?thesis
      by (auto simp: finish_body_def Let_def exec_deny_def split: if_splits)
  next
    case False
    then have "at_status a \<notin> set TERMINAL_STATUSES" by simp
    then have op: "is_open (at_status a)" by (simp only: open_or_terminal simp_thms)
    from assms Some False obtain h s1 where
      u: "update_attempt att (at_status a) (finished_row now st detail) s = Inr (h, s1)"
      by (auto simp: finish_body_def Let_def exec_deny_def split: if_splits sum.splits)
    have "\<not> h"
    proof
      assume h
      with assms Some False u show False
        by (cases rs) (auto simp: finish_body_def Let_def split: if_splits sum.splits)
    qed
    from \<open>\<not> h\<close> assms Some False u
    have "s' = audit now ''execution_rejected'' (Some (at_approval a)) (at_device a) (Some out) None s1"
      by (auto simp: finish_body_def Let_def exec_deny_def)
    with op u show ?thesis by blast
  qed
qed

lemma ok_finish_body:
  assumes "finish_body now att st detail rs expected s = Inr (out, s')" and "st \<in> outcomes"
  shows "ok_step s s'"
proof (cases "out = ''ok''")
  case False
  from finish_body_refused [OF assms(1) this] ok_finish_update [OF _ _ assms(2)]
  show ?thesis by (auto intro!: ok_audit ok_refl)
next
  case True
  with assms(1) have "finish_body now att st detail rs expected s = Inr (''ok'', s')" by simp
  from finish_body_ok [OF this] obtain a s1 s2 where "get_attempt att s = Some a"
    and a: "is_open (at_status a)" and "expected = None \<or> expected = Some (at_status a)"
    and s1: "s1 = s\<lparr>st_attempts := update_where (\<lambda>b. at_id b = att \<and> at_status b = at_status a)
        (finished_row now st detail) (st_attempts s)\<rparr>"
    and s': "s' = audit now (''execution_'' @ status_lower st) (Some (at_approval a)) (at_device a)
         (Some att) None s2"
    and rs: "case rs of None \<Rightarrow> s2 = s1 | Some q \<Rightarrow> \<exists>cur err. cas_transition now (at_approval a) q
         (at_device a) err False s1 = Inr (cur, s2)" by blast
  have "attempt_edge (at_status a) st" using a assms(2) by (auto simp: attempt_edge_def)
  with a assms(2) have 1: "ok_step s s1"
    unfolding s1
    by (intro ok_attempts)
      (auto simp: attempt_rel_def attempt_wf_def reaches_one finished_row_def outcomes_def)
  have 2: "ok_step s1 s2"
  proof (cases rs)
    case (Some q)
    with rs obtain cur err where
      "cas_transition now (at_approval a) q (at_device a) err False s1 = Inr (cur, s2)" by auto
    then show ?thesis by (rule ok_cas) simp
  qed (use rs ok_refl in simp)
  show ?thesis unfolding s' by (rule ok_audit) (rule ok_trans [OF 1 2])
qed

lemma ok_outcome: "ok_step s (snd (finish_execution_attempt now att st detail rs expected s))"
proof (cases "st \<in> {SUCCEEDED, FAILED_SAFE, UNKNOWN, ABANDONED}")
  case True
  then have "st \<in> outcomes" by (simp add: outcomes_def)
  then have "ok_step s t" if "finish_body now att st detail rs expected s = Inr (out, t)" for out t
    using ok_finish_body that by blast
  then have "ok_step s (snd (finish_attempt now att st detail rs expected s))"
    by (auto simp: finish_attempt_def Let_def ok_refl split: sum.split exn.split prod.split
        intro!: ok_audit)
  with True show ?thesis by (simp add: finish_execution_attempt_def)
qed (auto simp: finish_execution_attempt_def ok_refl)

lemma ok_lease: "ok_step s (snd (acquire_recovery_lease now att owner lease s))"
proof -
  have "ok_step s (s\<lparr>st_attempts := update_where (\<lambda>a. at_id a = att \<and> lease_hit now owner a)
      (\<lambda>a. a\<lparr>at_lease_owner := Some owner, at_lease_expires := Some (now + lease)\<rparr>) (st_attempts s)\<rparr>)"
    by (rule ok_attempts) (auto simp: lease_hit_def attempt_rel_def attempt_wf_def reaches.start)
  then show ?thesis
    unfolding acquire_recovery_lease_def Let_def
    by (intro ok_atomically) (auto simp: put_attempts_Inr_iff split: sum.splits if_splits intro: ok_audit)
qed

lemma ok_recheck: "ok_step s (snd (recheck_execution_authority H now att envs core s))"
proof -
  have mm: "ok_step s s'"
    if "claim_binding_mismatch now a req dev fp aak core s = (x, s')" for a req dev fp aak x s'
    using that by (auto simp: claim_binding_mismatch_def split: if_splits option.splits
        intro: ok_refl ok_audit1)
  show ?thesis
    unfolding recheck_execution_authority_def
    by (intro ok_atomically)
      (auto simp: recheck_body_def Let_def exec_deny_def split: option.splits sum.splits if_splits prod.splits
        intro!: ok_audit intro: ok_refl mm)
qed

lemma ok_attest_failed: "ok_step s (set_device_attestation_failed now eid did reason s)"
  unfolding set_device_attestation_failed_def Let_def
  by (rule ok_audit, rule ok_devices) (auto simp: device_rel_def)

lemma ok_begin_write:
  assumes "begin_device_write now did kid pk who aakid tch eid s = (b, s')"
  shows "ok_step s s'"
proof -
  let ?row = "enrolling_row now did kid pk who aakid tch eid"
  have "ok_step s (s\<lparr>st_devices := update_where (\<lambda>d. dv_id d = did \<and> dv_status d \<noteq> DEVICE_REVOKED)
      (\<lambda>_. ?row) (st_devices s)\<rparr>)"
    by (rule ok_devices) (auto simp: device_rel_def)
  moreover have "ok_step s (s\<lparr>st_devices := st_devices s @ [?row]\<rparr>)" if "get_device did s = None"
    using that by (intro ok_device_insert) (simp add: by_key_None_iff)
  ultimately show ?thesis
    using assms by (auto simp: begin_device_write_def Let_def split: option.splits if_splits
        intro!: ok_audit ok_refl)
qed

lemma ok_enroll: "ok_step s (snd (begin_enrollment_atomic now did kid pk who aakid ids eid n fp
    binding expires tch s))"
proof -
  obtain b s1 where w: "begin_device_write now did kid pk who aakid tch eid s = (b, s1)" by fastforce
  note ok1 = ok_begin_write [OF w]
  define s2 where "s2 = s1\<lparr>st_att_challenges := update_where
      (\<lambda>c. ac_device c = did \<and> ac_enrollment c \<noteq> eid \<and> \<not> ac_consumed c \<and> \<not> ac_superseded c)
      (\<lambda>c. c\<lparr>ac_superseded := True\<rparr>) (st_att_challenges s1)\<rparr>"
  have "ok_step s1 s2" unfolding s2_def by (rule ok_att_challenges) simp
  with ok1 have ok2: "ok_step s s2" by (rule ok_trans)
  have ins: "ok_step s (s2\<lparr>st_att_challenges := t\<rparr>)"
    if "insert_pk ac_enrollment c (update_where (\<lambda>c. ac_device c = did \<and> ac_enrollment c \<noteq> eid \<and>
      \<not> ac_consumed c \<and> \<not> ac_superseded c) (\<lambda>c. c\<lparr>ac_superseded := True\<rparr>) (st_att_challenges s1)) = Inr t"
    for c t
    by (rule ok_trans [OF ok2 ok_att_challenge_insert [of c]]) (use that in \<open>simp add: s2_def\<close>)
  show ?thesis
    unfolding begin_enrollment_atomic_def begin_enrollment_body_def w Let_def
    using ok1 ok2
    by (cases b; auto simp: s2_def [symmetric] ok_refl split: sum.splits if_splits
        intro!: ok_atomically ok_audit intro: ok_refl ins)
qed

lemma ok_finalize_write:
  "ok_step s (finalize_write now eid did fp aakid aapk counter env app_id s)"
proof -
  define s1 where "s1 = s\<lparr>st_devices := update_where
      (\<lambda>d. dv_id d = did \<and> dv_status d = DEVICE_ACTIVE \<and> dv_attestation d = ATT_PENDING \<and>
           dv_enrollment d = Some eid)
      (\<lambda>d. d\<lparr>dv_attestation := ATT_ATTESTED, dv_attested := True,
             dv_app_attest_public_key := Some (to_hex aapk), dv_app_attest_counter := counter,
             dv_environment := Some env, dv_app_id := Some app_id, dv_attested_at := Some now\<rparr>)
      (st_devices s)\<rparr>"
  have 1: "ok_step s s1" unfolding s1_def by (rule ok_devices) (auto simp: device_rel_def)
  define s2 where "s2 = s1\<lparr>st_att_challenges := update_where (\<lambda>c. ac_enrollment c = eid)
      (\<lambda>c. c\<lparr>ac_consumed := True\<rparr>) (st_att_challenges s1)\<rparr>"
  have 2: "ok_step s1 s2" unfolding s2_def by (rule ok_att_challenges) simp
  define s3 where "s3 = s2\<lparr>st_history := record_binding now did fp aakid (st_history s2)\<rparr>"
  have 3: "ok_step s2 s3"
    unfolding s3_def by (rule ok_history) (auto simp: record_binding_def grows_def)
  have "finalize_write now eid did fp aakid aapk counter env app_id s =
     audit now ''device_attested'' None (Some did) (Some env)
       (Some (identity_text (REVOKE_APP_ATTEST_KEY, aakid))) s3"
    by (simp add: finalize_write_def s3_def s2_def s1_def audit_def)
  with 1 2 3 show ?thesis by (auto intro!: ok_audit intro: ok_trans)
qed

lemma ok_attest: "ok_step s (snd (finalize_attestation H loads now eid aapk counter env app_id core s))"
proof -
  have dev: "ok_step s t"
    if "finalize_device H now eid aapk counter env app_id ch binding dev s = Inr (out, t)"
    for ch binding dev out t
    using that
    by (auto simp: finalize_device_def Let_def finalize_deny_def split: option.splits if_splits
        intro!: ok_audit ok_finalize_write ok_refl)
  show ?thesis
    unfolding finalize_attestation_def
    by (intro ok_atomically)
      (auto simp: finalize_body_def Let_def finalize_deny_def split: option.splits if_splits
        json_binding.splits intro!: ok_audit intro: ok_refl dev)
qed

lemma store_step_ok: "store_step H loads s t \<Longrightarrow> ok_step s t"
  by (erule store_step.cases)
    (simp_all add: ok_audit1 ok_add_token ok_use_token ok_new_request ok_transition ok_expire
      ok_new_challenge ok_use_challenge ok_revoke ok_decision ok_claim ok_boundary ok_outcome
      ok_lease ok_recheck ok_enroll ok_attest_failed ok_attest)

interpretation approval_store: monotone_system "store_step H loads" store_inv store_evolves for H loads
  by unfold_locales
    (auto intro: store_evolves_refl store_evolves_trans dest: store_step_ok simp: ok_step_def)

lemma empty_store_inv: "store_inv empty_store"
  by (simp add: store_inv_def store_keys_distinct_def empty_store_def journal_exclusive_def
      one_per_execution_def)

abbreviation run :: "(string \<Rightarrow> string) \<Rightarrow> (string \<Rightarrow> json_binding) \<Rightarrow> store \<Rightarrow> store \<Rightarrow> bool" where
  "run H loads \<equiv> reaches (store_step H loads)"

section \<open>Properties of every run\<close>

lemma run_inv: "run H loads empty_store s \<Longrightarrow> store_inv s"
  by (rule approval_store.inv.reaches_keeps [OF _ empty_store_inv])

lemma run_evolves: "run H loads s t \<Longrightarrow> store_inv s \<Longrightarrow> store_evolves s t"
  by (rule approval_store.reaches_mono)

lemma run_inv_later: "run H loads s t \<Longrightarrow> store_inv s \<Longrightarrow> store_inv t"
  by (rule approval_store.inv.reaches_keeps)

lemma run_attempt:
  assumes "run H loads s t" "store_inv s" "a \<in> set (st_attempts s)"
  shows "\<exists>a'\<in>set (st_attempts t). attempt_rel a a'"
proof -
  have "get_attempt (at_id a) s = Some a"
    using assms(2,3) by (auto simp: store_inv_def store_keys_distinct_def intro: by_key_unique)
  with run_evolves [OF assms(1,2)] obtain a' where "get_attempt (at_id a) t = Some a'" "attempt_rel a a'"
    unfolding store_evolves_def by (metis table_evolvesD)
  then show ?thesis by (auto dest: by_key_SomeD)
qed

lemma attempt_rel_fields:
  assumes "attempt_rel a a'"
  shows "at_id a' = at_id a" "at_execution a' = at_execution a" "at_approval a' = at_approval a"
    "at_idempotency_key a' = at_idempotency_key a" "at_semantics a' = at_semantics a"
  using assms by (cases a; cases a'; simp add: attempt_rel_def)+

text \<open>A live attempt is the only live one of its execution identity.\<close>

lemma live_unique:
  assumes "store_inv t" "a \<in> set (st_attempts t)" "b \<in> set (st_attempts t)"
    "live_attempt a" "live_attempt b" "at_execution a = at_execution b"
  shows "a = b"
  using assms one_per_execution_unique [of live_attempt "st_attempts t" a b]
  by (auto simp: store_inv_def journal_exclusive_def)

text \<open>
  C7: in every reachable database the keys are unique, an execution identity has at most one attempt
  that is open or has succeeded, every request that is executing, consumed or failed has its attempt
  in the journal, and an attempt that says EXTERNAL_PENDING carries the time of its boundary.
\<close>

theorem reachable_store_is_consistent:
  assumes "run H loads empty_store s"
  shows "store_keys_distinct s \<and>
    (\<forall>a\<in>set (st_attempts s). \<forall>b\<in>set (st_attempts s).
       at_execution a = at_execution b \<and> live_attempt a \<and> live_attempt b \<longrightarrow> a = b) \<and>
    (\<forall>r\<in>set (st_requests s). rq_state r \<in> {EXECUTING, CONSUMED, FAILED} \<longrightarrow>
       (\<exists>a\<in>set (st_attempts s). at_approval a = rq_id r)) \<and>
    (\<forall>a\<in>set (st_attempts s). at_status a = EXTERNAL_PENDING \<longrightarrow> at_boundary_at a \<noteq> None)"
  using run_inv [OF assms] live_unique [OF run_inv [OF assms]]
  by (auto simp: store_inv_def attempt_wf_def)

lemma demo_run: "run id_hash demo_loads empty_store
   (snd (create_request_row 1 ''a1'' ''owner'' ''t'' ''m'' ''x'' [] ''d'' ''s'' 9 empty_store))"
  by (rule reaches_one) (rule store_step.request_new)

theorem reachable_store_is_consistent_witness:
  "store_keys_distinct
     (snd (create_request_row 1 ''a1'' ''owner'' ''t'' ''m'' ''x'' [] ''d'' ''s'' 9 empty_store))"
  using reachable_store_is_consistent [OF demo_run] by blast


definition demo_done :: store where
  "demo_done = demo_claimed\<lparr>st_requests := [demo_executing\<lparr>rq_state := CONSUMED\<rparr>],
     st_attempts := [demo_attempt\<lparr>at_status := SUCCEEDED, at_boundary_at := Some 7,
       at_finished_at := Some 8\<rparr>]\<rparr>"

lemma demo_inv [simp]: "store_inv demo_store" "store_inv demo_claimed" "store_inv demo_done"
  by (simp_all add: store_inv_def store_keys_distinct_def journal_exclusive_def one_per_execution_def
      attempt_wf_def demo_defs demo_done_def)


text \<open>
  A nonce that was spent stays spent. Whatever happens to a consistent database afterwards, no
  challenge is answered ok with that nonce and no decision is committed with it again.
\<close>

theorem nonce_is_spent_for_ever:
  assumes inv: "store_inv s" and spent: "nonce_spent n s" and t: "run H loads s t"
  shows "nonce_spent n t \<and>
    fst (consume_challenge now n aid dev who dg psha t) \<noteq> Inr ''ok'' \<and>
    fst (commit_decision H now aid dev st n psha vpk vaapk counter envs t) \<noteq> Inr ''ok''"
proof -
  obtain c where c: "get_challenge n s = Some c" "ch_consumed c"
    using spent by (auto simp: nonce_spent_def)
  have "table_evolves ch_nonce challenge_rel (st_challenges s) (st_challenges t)"
    using run_evolves [OF t inv] by (simp add: store_evolves_def)
  from table_evolvesD [OF this c(1)] c(2) have spent': "nonce_spent n t"
    by (auto simp: nonce_spent_def challenge_rel_def)
  have keys: "store_keys_distinct t" using run_inv_later [OF t inv] by (simp add: store_inv_def)
  then have dist: "distinct (map ch_nonce (st_challenges t))" by (simp add: store_keys_distinct_def)
  have no: "fst (cas_consume_challenge now n aid dev who' dg' psha t) \<noteq> ''ok''" for who' dg'
    using nonce_spent_refuses [OF spent' dist] .
  have "fst (commit_decision H now aid dev st n psha vpk vaapk counter envs t) \<noteq> Inr ''ok''"
  proof
    assume "fst (commit_decision H now aid dev st n psha vpk vaapk counter envs t) = Inr ''ok''"
    then obtain t' where "commit_decision H now aid dev st n psha vpk vaapk counter envs t = (Inr ''ok'', t')"
      by (metis prod.collapse)
    from commit_decision_ok [OF dist this] obtain req
      where "decision_write now aid dev st n psha counter req t = Inr (''ok'', t')" by blast
    from decision_write_ok [OF dist this] obtain t1 where
      "cas_consume_challenge now n aid dev (rq_principal req) (rq_digest req) psha t = (''ok'', t1)"
      by blast
    with no [of "rq_principal req" "rq_digest req"] show False by simp
  qed
  moreover have "fst (consume_challenge now n aid dev who dg psha t) \<noteq> Inr ''ok''"
    using no [of who dg] by (auto simp: consume_challenge_def atomically_def split: prod.split)
  ultimately show ?thesis using spent' by blast
qed

theorem nonce_is_spent_for_ever_witness:
  "fst (commit_decision id_hash 9 ''a1'' ''dev-1'' DENIED ''n1'' ''sha'' ''k1'' None None [''production'']
     (expire_due 8 (demo_store\<lparr>st_challenges := [demo_challenge\<lparr>ch_consumed := True\<rparr>]\<rparr>))) \<noteq> Inr ''ok''"
proof -
  let ?s = "demo_store\<lparr>st_challenges := [demo_challenge\<lparr>ch_consumed := True\<rparr>]\<rparr>"
  have 1: "store_inv ?s"
    by (simp add: store_inv_def store_keys_distinct_def journal_exclusive_def one_per_execution_def
        attempt_wf_def demo_defs)
  have 2: "nonce_spent ''n1'' ?s" by (simp add: nonce_spent_def by_key_Cons demo_defs)
  have "run id_hash demo_loads ?s (expire_due 8 ?s)"
    by (rule reaches_one) (rule store_step.request_expiry)
  from nonce_is_spent_for_ever [OF 1 2 this] show ?thesis by blast
qed

lemma run_revoked:
  "run H loads s t \<Longrightarrow> store_inv s \<Longrightarrow> revoked_pair i s \<Longrightarrow> revoked_pair i t"
  by (drule (1) run_evolves) (auto simp: store_evolves_def grows_def revoked_pair_def)

lemma run_request:
  assumes "run H loads s t" "store_inv s" "get_request aid s = Some r"
  shows "\<exists>r'. get_request aid t = Some r' \<and> request_rel r r'"
proof -
  have "table_evolves rq_id request_rel (st_requests s) (st_requests t)"
    using run_evolves [OF assms(1,2)] by (simp add: store_evolves_def)
  from table_evolvesD [OF this assms(3)] show ?thesis .
qed

text \<open>
  C9: a decision is made once and is final. From any consistent database on, a request keeps the
  action it was created for, its state only moves along its lifecycle, so a denied, expired, failed
  or consumed request stays that, and the time of a decision is never written twice.
\<close>

theorem request_terms_are_final:
  assumes inv: "store_inv s" and r: "get_request aid s = Some r" and t: "run H loads s t"
  shows "\<exists>r'. get_request aid t = Some r' \<and> rq_digest r' = rq_digest r \<and> rq_tool r' = rq_tool r \<and>
    rq_task r' = rq_task r \<and> rq_mode r' = rq_mode r \<and> rq_workspace r' = rq_workspace r \<and>
    rq_principal r' = rq_principal r \<and> rq_expires r' = rq_expires r \<and>
    reaches request_edge (rq_state r) (rq_state r') \<and>
    (rq_state r \<in> set TERMINAL \<longrightarrow> rq_state r' = rq_state r) \<and>
    (rq_decided_at r \<noteq> None \<longrightarrow> rq_decided_at r' = rq_decided_at r)"
proof -
  from run_request [OF t inv r] obtain r' where
    "get_request aid t = Some r'" "request_rel r r'" by blast
  then show ?thesis
    by (intro exI [of _ r']) (auto simp: request_rel_def dest: request_graph.terminal_stays)
qed

theorem request_terms_are_final_witness:
  "\<exists>r'. get_request ''a1'' (expire_due 200 demo_done) = Some r' \<and> rq_state r' = CONSUMED"
proof -
  have "run id_hash demo_loads demo_done (expire_due 200 demo_done)"
    by (rule reaches_one) (rule store_step.request_expiry)
  moreover have "get_request ''a1'' demo_done = Some (demo_executing\<lparr>rq_state := CONSUMED\<rparr>)"
    by (simp add: demo_done_def demo_defs by_key_Cons)
  ultimately show ?thesis
    using request_terms_are_final [OF demo_inv(3)] by (fastforce simp: TERMINAL_def)
qed

section \<open>Revocation is total and terminal\<close>

lemma device_plan_entries:
  "i \<in> set (fst (device_plan H did rows hist)) \<longleftrightarrow> i = (REVOKE_DEVICE, did) \<or>
     (\<exists>t. by_key dv_id did rows = Some t \<and> i \<in> set (identities_of H t) \<and> fst i \<noteq> REVOKE_DEVICE \<and>
          snd i \<noteq> []) \<or>
     i \<in> set (history_identities did hist)"
  by (cases i) (auto simp: device_plan_def Let_def set_dedup split: option.split)

lemma revoke_device_revokes:
  assumes "revoke_device H now did reason s = (Inr res, s')"
    and "i \<in> set (fst (device_plan H did (st_devices s) (st_history s)))"
  shows "revoked_pair i s'"
proof -
  obtain entries doomed where p: "device_plan H did (st_devices s) (st_history s) = (entries, doomed)"
    by fastforce
  then have "i \<in> set entries" using assms(2) by simp
  with revoke_planned_effect [OF assms(1) [unfolded revoke_device_def] p] show ?thesis by metis
qed

text \<open>
  The key material a device record shares with a revoked device: its id, its approval key, its App
  Attest key, or an approval key the revoked device was attested with in the past.
\<close>

definition shares_material :: "(string \<Rightarrow> string) \<Rightarrow> device \<Rightarrow> history_row list \<Rightarrow> device \<Rightarrow> bool" where
  "shares_material H d0 hist d \<longleftrightarrow>
     dv_id d = dv_id d0 \<or>
     (\<exists>pk. dv_public_key d0 \<noteq> [] \<and> from_hex (dv_public_key d0) = Some pk \<and>
        from_hex (dv_public_key d) = Some pk \<and> fingerprint H pk \<noteq> []) \<or>
     truthy (dv_app_attest_key_id d0) \<and> dv_app_attest_key_id d = dv_app_attest_key_id d0 \<or>
     (\<exists>h\<in>set hist. \<exists>pk. hs_device h = dv_id d0 \<and> truthy (hs_approval_key h) \<and>
        from_hex (dv_public_key d) = Some pk \<and> hs_approval_key h = Some (fingerprint H pk))"

lemma shares_material_planned:
  assumes "shares_material H d0 hist d" and "by_key dv_id did rows = Some d0"
    and "from_hex (dv_public_key d) = Some pk"
  shows "\<exists>i\<in>set (authority_identities H d pk). i \<in> set (fst (device_plan H did rows hist))"
proof -
  have did: "dv_id d0 = did" using assms(2) by (auto dest: by_key_SomeD)
  from assms(1) consider
      (id) "dv_id d = did"
    | (key) "dv_public_key d0 \<noteq> []" "from_hex (dv_public_key d0) = Some pk" "fingerprint H pk \<noteq> []"
    | (aak) k where "dv_app_attest_key_id d0 = Some k" "k \<noteq> []" "dv_app_attest_key_id d = Some k"
    | (old) h where "h \<in> set hist" "hs_device h = did" "truthy (hs_approval_key h)"
        "hs_approval_key h = Some (fingerprint H pk)"
    using assms(3) did unfolding shares_material_def truthy_iff by auto
  then show ?thesis
  proof cases
    case id
    then show ?thesis by (auto simp: device_plan_entries authority_identities_def)
  next
    case key
    then have "(REVOKE_APPROVAL_KEY, fingerprint H pk) \<in> set (identities_of H d0)"
      by (simp add: identities_of_def)
    with key assms(2) show ?thesis by (auto simp: device_plan_entries authority_identities_def)
  next
    case aak
    then have "(REVOKE_APP_ATTEST_KEY, k) \<in> set (identities_of H d0)" by (simp add: identities_of_def)
    with aak assms(2) show ?thesis by (auto simp: device_plan_entries authority_identities_def)
  next
    case old
    then have "(REVOKE_APPROVAL_KEY, fingerprint H pk) \<in> set (history_identities did hist)"
      by (force simp: history_identities_def)
    then show ?thesis by (auto simp: device_plan_entries authority_identities_def)
  qed
qed

lemma decision_needs_unrevoked:
  assumes "store_keys_distinct s"
    and "commit_decision H now aid did st n psha vpk vaapk counter envs s = (Inr ''ok'', s')"
  shows "\<exists>d pk. get_device did s = Some d \<and> from_hex (dv_public_key d) = Some pk \<and>
    (\<forall>i\<in>set (authority_identities H d pk). \<not> revoked_pair i s)"
proof -
  have "distinct (map ch_nonce (st_challenges s))" using assms(1) by (simp add: store_keys_distinct_def)
  from commit_decision_ok [OF this assms(2)] show ?thesis
    by (auto simp: decision_checked_def holds_authority_def)
qed

text \<open>
  C10: revoking a device takes all authority from it and from its keys, for ever. After the revocation
  has committed on a consistent database, in every later state, no device record that has the
  revoked device's id, its approval key, its App Attest key or an approval key it was once attested
  with commits a decision or passes the re-check of a retry, whatever name it was enrolled under;
  and no claim, boundary or pairing goes through that checks one of the revoked identities.
\<close>

theorem revoked_device_loses_all_authority:
  assumes inv: "store_inv s" and dev: "get_device did s = Some d0"
    and rev: "revoke_device H now did reason s = (Inr res, s1)"
    and t: "run H loads s1 t"
    and d: "get_device did' t = Some d" and sh: "shares_material H d0 (st_history s) d"
    and i: "i \<in> set ids" "i \<in> set (fst (device_plan H did (st_devices s) (st_history s)))"
  shows "fst (commit_decision H later aid did' st n psha vpk vaapk counter envs t) \<noteq> Inr ''ok'' \<and>
    \<not> holds_authority H req d envs t \<and>
    (\<forall>att why. fst (claim_execution_attempt H later nr aid did' ids eid cap sem idem owner lease core t)
        \<noteq> Inr (Some att, why)) \<and>
    fst (begin_external later att ids t) \<noteq> Inr ''ok'' \<and>
    fst (begin_enrollment_atomic later did' kid pk who aakid ids eid n fp binding expires tch t)
        \<noteq> Inr ''ok''"
proof -
  have "store_step H loads s s1"
    using store_step.revocation [of H loads s now "device_plan H did" reason "Some did" "''revoke-device''"]
      rev by (simp add: revoke_device_def)
  then have inv1: "store_inv s1" using store_step_ok inv by (auto simp: ok_step_def)
  have inv_t: "store_inv t" by (rule run_inv_later [OF t inv1])
  then have keys: "store_keys_distinct t" by (simp add: store_inv_def)
  have revoked: "revoked_pair j t"
    if "j \<in> set (fst (device_plan H did (st_devices s) (st_history s)))" for j
    using run_revoked [OF t inv1 revoke_device_revokes [OF rev that]] .
  have auth: "\<exists>j\<in>set (authority_identities H d q). revoked_pair j t" if "from_hex (dv_public_key d) = Some q" for q
    using shares_material_planned [OF sh dev that] revoked by blast
  have 1: "fst (commit_decision H later aid did' st n psha vpk vaapk counter envs t) \<noteq> Inr ''ok''"
  proof
    assume "fst (commit_decision H later aid did' st n psha vpk vaapk counter envs t) = Inr ''ok''"
    then have "commit_decision H later aid did' st n psha vpk vaapk counter envs t
      = (Inr ''ok'', snd (commit_decision H later aid did' st n psha vpk vaapk counter envs t))"
      by (metis prod.collapse)
    from decision_needs_unrevoked [OF keys this] d auth show False by auto
  qed
  have 2: "\<not> holds_authority H req d envs t" using auth by (auto simp: holds_authority_def)
  have rid: "list_ex (\<lambda>j. revoked_pair j t) ids"
    using i(1) revoked [OF i(2)] unfolding list_ex_iff by blast
  have 3: "fst (claim_execution_attempt H later nr aid did' ids eid cap sem idem owner lease core t)
        \<noteq> Inr (Some att, why)" for att why
  proof
    assume "fst (claim_execution_attempt H later nr aid did' ids eid cap sem idem owner lease core t)
        = Inr (Some att, why)"
    then obtain u where "claim_execution_attempt H later nr aid did' ids eid cap sem idem owner lease core t
        = (Inr (Some att, why), u)" by (metis prod.collapse)
    then show False
    proof (cases rule: claim_attempt_cases)
      case (claimed att' s1 tt)
      have "distinct (map rq_id (st_requests t))" using keys by (simp add: store_keys_distinct_def)
      from claim_row_won(1) [OF this claimed(4)] rid show False
        by (auto simp: claim_authority_def list_ex_iff)
    qed auto
  qed
  have 4: "fst (begin_external later att ids t) \<noteq> Inr ''ok''"
    using rid by (auto simp: begin_external_def exec_deny_def atomically_def split: option.split sum.split)
  have 5: "fst (begin_enrollment_atomic later did' kid pk who aakid ids eid n fp binding expires tch t)
        \<noteq> Inr ''ok''"
    using rid by (auto simp: begin_enrollment_atomic_def begin_enrollment_body_def)
  from 1 2 3 4 5 show ?thesis by blast
qed

theorem revoked_device_loses_all_authority_witness:
  "fst (commit_decision id_hash 9 ''a1'' ''dev-1'' DENIED ''n1'' ''sha'' ''k1'' None None [''production'']
     (expire_due 8 (snd (revoke_device id_hash 7 ''dev-1'' None demo_store)))) \<noteq> Inr ''ok''"
proof -
  let ?s1 = "snd (revoke_device id_hash 7 ''dev-1'' None demo_store)"
  let ?d = "demo_device\<lparr>dv_status := DEVICE_REVOKED\<rparr>"
  have 1: "get_device ''dev-1'' demo_store = Some demo_device" by (simp add: demo_defs by_key_Cons)
  have "case fst (revoke_device id_hash 7 ''dev-1'' None demo_store) of Inr _ \<Rightarrow> True | Inl _ \<Rightarrow> False"
    by code_simp
  then obtain res where 2: "revoke_device id_hash 7 ''dev-1'' None demo_store = (Inr res, ?s1)"
    by (cases "fst (revoke_device id_hash 7 ''dev-1'' None demo_store)") (auto simp: prod_eq_iff)
  have 3: "run id_hash demo_loads ?s1 (expire_due 8 ?s1)"
    by (rule reaches_one) (rule store_step.request_expiry)
  have "map_option dv_id (get_device ''dev-1'' (expire_due 8 ?s1)) = Some ''dev-1''" by code_simp
  then obtain d where 4: "get_device ''dev-1'' (expire_due 8 ?s1) = Some d" "dv_id d = ''dev-1''" by auto
  then have 5: "shares_material id_hash demo_device (st_history demo_store) d"
    by (simp add: shares_material_def demo_device_def)
  have 6: "(REVOKE_DEVICE, ''dev-1'') \<in> set demo_identities" by (simp add: demo_defs)
  have 7: "(REVOKE_DEVICE, ''dev-1'') \<in>
      set (fst (device_plan id_hash ''dev-1'' (st_devices demo_store) (st_history demo_store)))"
    by (simp add: device_plan_entries)
  show ?thesis
    by (rule conjunct1 [OF revoked_device_loses_all_authority [OF demo_inv(1) 1 2 3 4(1) 5 6 7]])
qed

end
