(* ===== verification/Protocol.thy ===== *)
theory Protocol
  imports Execution Json
begin

text \<open>
  \<open>security/mobile_approval/protocol.py\<close> and \<open>attest_protocol.py\<close>: the signed payloads, their
  strict parsing and validation, the display-safety policy of every text a human approves, and the
  domain-separated hashes of the App Attest bindings. The texts of \<open>ProtocolError\<close> stop where the
  source interpolates a Python \<open>repr\<close>.
\<close>

section \<open>Display safety\<close>

text \<open>The code points of a text; a Python \<open>str\<close> is valid UTF-8, so its continuation bytes are there.\<close>

definition cont :: "string \<Rightarrow> nat \<Rightarrow> nat" where
  "cont r k = (if k < length r then code (r ! k) mod 64 else 0)"

fun code_points :: "string \<Rightarrow> nat list" where
  "code_points [] = []"
| "code_points (a # r) =
     (if code a < 128 then code a # code_points r
      else if code a < 224 then (code a mod 32 * 64 + cont r 0) # code_points (drop 1 r)
      else if code a < 240
      then (code a mod 16 * 4096 + cont r 0 * 64 + cont r 1) # code_points (drop 2 r)
      else (code a mod 8 * 262144 + cont r 0 * 4096 + cont r 1 * 64 + cont r 2)
             # code_points (drop 3 r))"

definition MAX_TASK_LEN :: nat where "MAX_TASK_LEN = 8192"
definition MAX_SUMMARY_LEN :: nat where "MAX_SUMMARY_LEN = 2048"
definition MAX_WORKSPACE_LEN :: nat where "MAX_WORKSPACE_LEN = 4096"
definition MAX_SHORT_FIELD_LEN :: nat where "MAX_SHORT_FIELD_LEN = 128"

definition BIDI_SPOOFERS :: "nat list" where
  "BIDI_SPOOFERS = [0x61C, 0x200E, 0x200F, 0x202A, 0x202B, 0x202C, 0x202D, 0x202E,
                    0x2066, 0x2067, 0x2068, 0x2069, 0xFEFF]"

definition ALLOWED_CONTROLS :: "nat list" where
  "ALLOWED_CONTROLS = [9, 10]"

definition upper_hex_digit :: "nat \<Rightarrow> char" where
  "upper_hex_digit n = char_of (if n < 10 then 48 + n else 55 + n)"

fun upper_hex :: "nat \<Rightarrow> string" where
  "upper_hex n = (if n < 16 then [upper_hex_digit n] else upper_hex (n div 16) @ [upper_hex_digit (n mod 16)])"

declare upper_hex.simps [simp del]

definition u_plus :: "nat \<Rightarrow> string" where
  "u_plus n = (let h = upper_hex n in ''U+'' @ replicate (4 - length h) CHR ''0'' @ h)"

fun check_display :: "string \<Rightarrow> nat list \<Rightarrow> unit result" where
  "check_display field [] = Inr ()"
| "check_display field (c # cs) =
     (if c \<in> set ALLOWED_CONTROLS then check_display field cs
      else if c < 0x20 \<or> (0x7F \<le> c \<and> c \<le> 0x9F)
      then Inl (ProtocolError (''field '' @ field @ '' contains control character '' @ u_plus c))
      else if c \<in> set BIDI_SPOOFERS
      then Inl (ProtocolError (''field '' @ field @ '' contains bidi control '' @ u_plus c))
      else check_display field cs)"

definition validate_display_text :: "string \<Rightarrow> string \<Rightarrow> nat \<Rightarrow> unit result" where
  "validate_display_text value field max_len =
     (let cs = code_points value in
      if length cs > max_len
      then Inl (ProtocolError (''field '' @ field @ '' too long ('' @ decimal (length cs) @ '' > ''
                 @ decimal max_len @ '')''))
      else check_display field cs)"

text \<open>Statements that may raise, one after the other.\<close>

fun in_order :: "unit result list \<Rightarrow> unit result" where
  "in_order [] = Inr ()"
| "in_order (r # rs) = (case r of Inl e \<Rightarrow> Inl e | Inr _ \<Rightarrow> in_order rs)"

lemma in_order_Inr: "in_order rs = Inr () \<longleftrightarrow> (\<forall>r\<in>set rs. r = Inr ())"
  by (induction rs) (auto split: sum.split)

declare in_order.simps [simp del]

definition validate_action_display_fields ::
  "string \<Rightarrow> string \<Rightarrow> string \<Rightarrow> string \<Rightarrow> string \<Rightarrow> unit result" where
  "validate_action_display_fields tool_id mode task workspace human_summary = in_order
     [validate_display_text tool_id ''tool_id'' MAX_SHORT_FIELD_LEN,
      validate_display_text mode ''mode'' MAX_SHORT_FIELD_LEN,
      validate_display_text workspace ''workspace'' MAX_WORKSPACE_LEN,
      validate_display_text task ''task'' MAX_TASK_LEN,
      validate_display_text human_summary ''human_summary'' MAX_SUMMARY_LEN]"

section \<open>Strict parsing\<close>

type_synonym payload = "(string \<times> json_value) list"

text \<open>
  What decoding and \<open>json.loads\<close> make of the bytes, with the members of the root object in the order
  of the text, duplicates included, as \<open>object_pairs_hook\<close> sees them.
\<close>

datatype json_root = Not_utf8 | Not_json | Other_root | Object_root payload

fun no_duplicate_keys :: "string list \<Rightarrow> payload \<Rightarrow> payload result" where
  "no_duplicate_keys seen [] = Inr []"
| "no_duplicate_keys seen ((k, v) # ps) =
     (if k \<in> set seen then Inl (ProtocolError ''duplicate JSON key'')
      else case no_duplicate_keys (k # seen) ps of Inl e \<Rightarrow> Inl e | Inr qs \<Rightarrow> Inr ((k, v) # qs))"

definition strict_parse :: "(string \<Rightarrow> json_root) \<Rightarrow> string \<Rightarrow> payload result" where
  "strict_parse loads raw = (case loads raw of
       Not_utf8 \<Rightarrow> Inl (ProtocolError ''payload not utf-8'')
     | Not_json \<Rightarrow> Inl (ProtocolError ''invalid json'')
     | Other_root \<Rightarrow> Inl (ProtocolError ''payload root is not an object'')
     | Object_root ps \<Rightarrow> no_duplicate_keys [] ps)"

text \<open>The types a field table names; as in Python, a \<open>bool\<close> is an \<open>int\<close>.\<close>

datatype field_type = Is_int | Is_str | Is_number

fun has_type :: "field_type \<Rightarrow> json_value \<Rightarrow> bool" where
  "has_type Is_int (Jint _) = True"
| "has_type Is_int (Jbool _) = True"
| "has_type Is_str (Jstr _) = True"
| "has_type Is_number (Jint _) = True"
| "has_type Is_number (Jbool _) = True"
| "has_type Is_number (Jreal _) = True"
| "has_type _ _ = False"

type_synonym field_table = "(string \<times> field_type) list"

fun check_fields :: "field_table \<Rightarrow> payload \<Rightarrow> unit result" where
  "check_fields [] p = Inr ()"
| "check_fields ((name, ty) # fs) p =
     (case map_of p name of
        None \<Rightarrow> Inl (ProtocolError (''missing field: '' @ name))
      | Some v \<Rightarrow> if \<not> has_type ty v
                 then Inl (ProtocolError (''field '' @ name @ '' has wrong type''))
                 else check_fields fs p)"

definition require_fields :: "payload \<Rightarrow> field_table \<Rightarrow> unit result" where
  "require_fields p fs =
     (if list_ex (\<lambda>k. k \<notin> set (map fst fs)) (map fst p) then Inl (ProtocolError ''unknown fields'')
      else check_fields fs p)"

section \<open>The payloads\<close>

definition PROTOCOL_VERSION :: int where "PROTOCOL_VERSION = 2"
definition TYPE_CHALLENGE :: string where "TYPE_CHALLENGE = ''approval_challenge''"
definition TYPE_DECISION :: string where "TYPE_DECISION = ''approval_decision''"
definition DECISION_APPROVE :: string where "DECISION_APPROVE = ''APPROVE''"
definition DECISION_DENY :: string where "DECISION_DENY = ''DENY''"

definition CHALLENGE_FIELDS :: field_table where
  "CHALLENGE_FIELDS =
     [(''protocol_version'', Is_int), (''type'', Is_str), (''core_instance_id'', Is_str),
      (''approval_id'', Is_str), (''action_digest'', Is_str), (''principal_id'', Is_str),
      (''device_id'', Is_str), (''tool_id'', Is_str), (''mode'', Is_str), (''workspace'', Is_str),
      (''task'', Is_str), (''human_summary'', Is_str), (''challenge_nonce'', Is_str),
      (''issued_at'', Is_number), (''expires_at'', Is_number)]"

definition DECISION_FIELDS :: field_table where
  "DECISION_FIELDS =
     [(''protocol_version'', Is_int), (''type'', Is_str), (''core_instance_id'', Is_str),
      (''approval_id'', Is_str), (''action_digest'', Is_str), (''principal_id'', Is_str),
      (''device_id'', Is_str), (''key_id'', Is_str), (''challenge_nonce'', Is_str),
      (''challenge_payload_sha256'', Is_str), (''decision'', Is_str), (''issued_at'', Is_number),
      (''challenge_expires_at'', Is_number)]"

text \<open>\<open>payload[name]\<close> for a field that was checked to be a string.\<close>

definition str_field :: "payload \<Rightarrow> string \<Rightarrow> string" where
  "str_field p name = (case map_of p name of Some (Jstr s) \<Rightarrow> s | _ \<Rightarrow> [])"

definition build_challenge_payload :: "string \<Rightarrow> approval_id \<Rightarrow> digest \<Rightarrow> string \<Rightarrow> string \<Rightarrow> string
    \<Rightarrow> string \<Rightarrow> string \<Rightarrow> string \<Rightarrow> display_text \<Rightarrow> string \<Rightarrow> time \<Rightarrow> time \<Rightarrow> payload" where
  "build_challenge_payload core aid digest who dev tool_id mode workspace task human_summary nonce
       issued expires =
     [(''protocol_version'', Jint PROTOCOL_VERSION), (''type'', Jstr TYPE_CHALLENGE),
      (''core_instance_id'', Jstr core), (''approval_id'', Jstr aid),
      (''action_digest'', Jstr digest), (''principal_id'', Jstr who), (''device_id'', Jstr dev),
      (''tool_id'', Jstr tool_id), (''mode'', Jstr mode), (''workspace'', Jstr workspace),
      (''task'', Jstr task), (''human_summary'', Jstr human_summary),
      (''challenge_nonce'', Jstr nonce), (''issued_at'', Jreal issued),
      (''expires_at'', Jreal expires)]"

definition validate_challenge_payload :: "payload \<Rightarrow> unit result" where
  "validate_challenge_payload p = in_order
     [require_fields p CHALLENGE_FIELDS,
      if map_of p ''protocol_version'' \<noteq> Some (Jint PROTOCOL_VERSION)
      then Inl (ProtocolError ''unsupported protocol_version'') else Inr (),
      if str_field p ''type'' \<noteq> TYPE_CHALLENGE
      then Inl (ProtocolError ''not an approval_challenge'') else Inr (),
      validate_action_display_fields (str_field p ''tool_id'') (str_field p ''mode'')
        (str_field p ''task'') (str_field p ''workspace'') (str_field p ''human_summary'')]"

definition build_decision_payload :: "string \<Rightarrow> approval_id \<Rightarrow> digest \<Rightarrow> string \<Rightarrow> string \<Rightarrow> string
    \<Rightarrow> string \<Rightarrow> string \<Rightarrow> string \<Rightarrow> time \<Rightarrow> time \<Rightarrow> payload result" where
  "build_decision_payload core aid digest who dev kid nonce psha decision issued ch_expires_at =
     (if decision \<noteq> DECISION_APPROVE \<and> decision \<noteq> DECISION_DENY
      then Inl (ProtocolError ''decision must be APPROVE or DENY'')
      else Inr
        [(''protocol_version'', Jint PROTOCOL_VERSION), (''type'', Jstr TYPE_DECISION),
         (''core_instance_id'', Jstr core), (''approval_id'', Jstr aid),
         (''action_digest'', Jstr digest), (''principal_id'', Jstr who), (''device_id'', Jstr dev),
         (''key_id'', Jstr kid), (''challenge_nonce'', Jstr nonce),
         (''challenge_payload_sha256'', Jstr psha), (''decision'', Jstr decision),
         (''issued_at'', Jreal issued), (''challenge_expires_at'', Jreal ch_expires_at)])"

definition validate_decision_payload :: "payload \<Rightarrow> unit result" where
  "validate_decision_payload p = in_order
     [require_fields p DECISION_FIELDS,
      if map_of p ''protocol_version'' \<noteq> Some (Jint PROTOCOL_VERSION)
      then Inl (ProtocolError ''unsupported protocol_version'') else Inr (),
      if str_field p ''type'' \<noteq> TYPE_DECISION
      then Inl (ProtocolError ''not an approval_decision'') else Inr (),
      if str_field p ''decision'' \<noteq> DECISION_APPROVE \<and> str_field p ''decision'' \<noteq> DECISION_DENY
      then Inl (ProtocolError ''invalid decision value'') else Inr ()]"

section \<open>The App Attest bindings\<close>

definition BINDING_PROTOCOL_VERSION :: int where "BINDING_PROTOCOL_VERSION = 1"
definition DOMAIN_ENROLLMENT :: string where "DOMAIN_ENROLLMENT = ''SOLVIO_APP_ATTEST_ENROLLMENT_V1''"
definition DOMAIN_DECISION :: string where "DOMAIN_DECISION = ''SOLVIO_APP_ATTEST_DECISION_V1''"
definition TYPE_ENROLLMENT_BINDING :: string where
  "TYPE_ENROLLMENT_BINDING = ''app_attest_enrollment_binding''"
definition TYPE_DECISION_BINDING :: string where
  "TYPE_DECISION_BINDING = ''app_attest_decision_binding''"

definition domain_preimage :: "string \<Rightarrow> string \<Rightarrow> string" where
  "domain_preimage domain raw = domain @ [CHR 0x00] @ raw"

definition domain_hash :: "(string \<Rightarrow> string) \<Rightarrow> string \<Rightarrow> string \<Rightarrow> string" where
  "domain_hash H domain raw = H (domain_preimage domain raw)"

definition build_enrollment_binding :: "string \<Rightarrow> string \<Rightarrow> string \<Rightarrow> string \<Rightarrow> string \<Rightarrow> digest
    \<Rightarrow> string \<Rightarrow> time \<Rightarrow> time \<Rightarrow> payload" where
  "build_enrollment_binding core who dev eid kid fp nonce issued expires =
     [(''protocol_version'', Jint BINDING_PROTOCOL_VERSION), (''type'', Jstr TYPE_ENROLLMENT_BINDING),
      (''core_instance_id'', Jstr core), (''principal_id'', Jstr who), (''device_id'', Jstr dev),
      (''enrollment_id'', Jstr eid), (''approval_key_id'', Jstr kid),
      (''approval_public_key_sha256'', Jstr fp), (''attestation_nonce'', Jstr nonce),
      (''issued_at'', Jreal issued), (''expires_at'', Jreal expires)]"

definition enrollment_client_data_hash :: "(string \<Rightarrow> string) \<Rightarrow> string \<Rightarrow> string" where
  "enrollment_client_data_hash H raw = domain_hash H DOMAIN_ENROLLMENT raw"

definition build_decision_binding :: "string \<Rightarrow> string \<Rightarrow> string \<Rightarrow> string \<Rightarrow> string \<Rightarrow> string
    \<Rightarrow> payload" where
  "build_decision_binding core aid dev decision_sha256 nonce fp =
     [(''protocol_version'', Jint BINDING_PROTOCOL_VERSION), (''type'', Jstr TYPE_DECISION_BINDING),
      (''core_instance_id'', Jstr core), (''approval_id'', Jstr aid), (''device_id'', Jstr dev),
      (''decision_sha256'', Jstr decision_sha256), (''challenge_nonce'', Jstr nonce),
      (''approval_public_key_sha256'', Jstr fp)]"

definition decision_client_data_hash :: "(string \<Rightarrow> string) \<Rightarrow> string \<Rightarrow> string" where
  "decision_client_data_hash H raw = domain_hash H DOMAIN_DECISION raw"

text \<open>\<open>payload[name] != n\<close> for a checked integer: \<open>True == 1\<close> and \<open>False == 0\<close> in Python.\<close>

definition int_field_is :: "payload \<Rightarrow> string \<Rightarrow> int \<Rightarrow> bool" where
  "int_field_is p name n = (case map_of p name of
       Some (Jint i) \<Rightarrow> i = n
     | Some (Jbool b) \<Rightarrow> (if b then 1 else 0) = n
     | _ \<Rightarrow> False)"

definition ENROLL_FIELDS :: field_table where
  "ENROLL_FIELDS =
     [(''protocol_version'', Is_int), (''type'', Is_str), (''core_instance_id'', Is_str),
      (''principal_id'', Is_str), (''device_id'', Is_str), (''enrollment_id'', Is_str),
      (''approval_key_id'', Is_str), (''approval_public_key_sha256'', Is_str),
      (''attestation_nonce'', Is_str), (''issued_at'', Is_number), (''expires_at'', Is_number)]"

definition DECISION_BINDING_FIELDS :: field_table where
  "DECISION_BINDING_FIELDS =
     [(''protocol_version'', Is_int), (''type'', Is_str), (''core_instance_id'', Is_str),
      (''approval_id'', Is_str), (''device_id'', Is_str), (''decision_sha256'', Is_str),
      (''challenge_nonce'', Is_str), (''approval_public_key_sha256'', Is_str)]"

definition validate_enrollment_binding :: "payload \<Rightarrow> unit result" where
  "validate_enrollment_binding p = in_order
     [require_fields p ENROLL_FIELDS,
      if \<not> int_field_is p ''protocol_version'' BINDING_PROTOCOL_VERSION
      then Inl (ProtocolError ''unsupported binding protocol_version'') else Inr (),
      if str_field p ''type'' \<noteq> TYPE_ENROLLMENT_BINDING
      then Inl (ProtocolError ''not an enrollment binding'') else Inr ()]"

definition validate_decision_binding :: "payload \<Rightarrow> unit result" where
  "validate_decision_binding p = in_order
     [require_fields p DECISION_BINDING_FIELDS,
      if \<not> int_field_is p ''protocol_version'' BINDING_PROTOCOL_VERSION
      then Inl (ProtocolError ''unsupported binding protocol_version'') else Inr (),
      if str_field p ''type'' \<noteq> TYPE_DECISION_BINDING
      then Inl (ProtocolError ''not a decision binding'') else Inr ()]"

section \<open>Lemmas\<close>

definition display_safe :: "nat \<Rightarrow> bool" where
  "display_safe c \<longleftrightarrow> c \<in> {9, 10} \<or> \<not> (c < 32 \<or> (127 \<le> c \<and> c \<le> 159) \<or> c \<in> set BIDI_SPOOFERS)"

lemma check_display_Inr: "check_display field cs = Inr () \<longleftrightarrow> (\<forall>c\<in>set cs. display_safe c)"
  by (induction cs) (auto simp: display_safe_def ALLOWED_CONTROLS_def)

lemma validate_display_text_Inr:
  "validate_display_text v field m = Inr () \<longleftrightarrow>
   length (code_points v) \<le> m \<and> (\<forall>c\<in>set (code_points v). display_safe c)"
  by (simp add: validate_display_text_def Let_def check_display_Inr)

lemma validate_action_display_Inr:
  "validate_action_display_fields tool mode task ws hs = Inr () \<longleftrightarrow>
   (\<forall>(v, m)\<in>{(tool, MAX_SHORT_FIELD_LEN), (mode, MAX_SHORT_FIELD_LEN), (ws, MAX_WORKSPACE_LEN),
              (task, MAX_TASK_LEN), (hs, MAX_SUMMARY_LEN)}.
      length (code_points v) \<le> m \<and> (\<forall>c\<in>set (code_points v). display_safe c))"
  by (simp add: validate_action_display_fields_def in_order_Inr validate_display_text_Inr)

lemma no_duplicate_keys_Inr:
  "no_duplicate_keys seen ps = Inr qs \<Longrightarrow>
   qs = ps \<and> distinct (map fst ps) \<and> set (map fst ps) \<inter> set seen = {}"
  by (induction seen ps arbitrary: qs rule: no_duplicate_keys.induct)
    (auto split: if_splits sum.splits)

text \<open>
  What the strict parser accepts has every member once, so no reader can see another value than
  the one that was validated; and it accepts exactly the objects without a repeated member.
\<close>

theorem strict_parse_has_unique_fields:
  "strict_parse loads raw = Inr p \<longleftrightarrow> loads raw = Object_root p \<and> distinct (map fst p)"
proof -
  have acc: "no_duplicate_keys seen ps = Inr ps"
    if "distinct (map fst ps)" "set (map fst ps) \<inter> set seen = {}" for seen ps
    using that by (induction seen ps rule: no_duplicate_keys.induct) auto
  show ?thesis
    using acc [of _ "[]"]
    by (cases "loads raw") (auto simp: strict_parse_def dest: no_duplicate_keys_Inr)
qed

lemma check_fields_Inr:
  "check_fields fs p = Inr () \<longleftrightarrow>
   (\<forall>(name, ty)\<in>set fs. \<exists>v. map_of p name = Some v \<and> has_type ty v)"
  by (induction fs p rule: check_fields.induct) (auto split: option.split)

declare check_fields.simps [simp del]

lemma build_decision_Inr:
  "build_decision_payload core aid dg who dev kid nonce psha d issued e = Inr p \<Longrightarrow>
   (d = DECISION_APPROVE \<or> d = DECISION_DENY) \<and> p =
     [(''protocol_version'', Jint PROTOCOL_VERSION), (''type'', Jstr TYPE_DECISION),
      (''core_instance_id'', Jstr core), (''approval_id'', Jstr aid),
      (''action_digest'', Jstr dg), (''principal_id'', Jstr who), (''device_id'', Jstr dev),
      (''key_id'', Jstr kid), (''challenge_nonce'', Jstr nonce),
      (''challenge_payload_sha256'', Jstr psha), (''decision'', Jstr d),
      (''issued_at'', Jreal issued), (''challenge_expires_at'', Jreal e)]"
  by (simp add: build_decision_payload_def split: if_splits)

lemma decision_fields_present:
  assumes "build_decision_payload core aid dg who dev kid nonce psha d issued e = Inr p"
  shows "require_fields p DECISION_FIELDS = Inr ()"
    and "map_of p ''protocol_version'' = Some (Jint PROTOCOL_VERSION)"
    and "str_field p ''type'' = TYPE_DECISION" and "str_field p ''decision'' = d"
  using build_decision_Inr [OF assms]
  by (simp_all add: require_fields_def check_fields_Inr DECISION_FIELDS_def str_field_def)

lemma challenge_fields_present:
  fixes core aid dg who dev tool mode ws task hs nonce issued e
  defines "p \<equiv> build_challenge_payload core aid dg who dev tool mode ws task hs nonce issued e"
  shows "require_fields p CHALLENGE_FIELDS = Inr ()"
    and "map_of p ''protocol_version'' = Some (Jint PROTOCOL_VERSION)"
    and "str_field p ''type'' = TYPE_CHALLENGE" and "str_field p ''tool_id'' = tool"
    and "str_field p ''mode'' = mode" and "str_field p ''task'' = task"
    and "str_field p ''workspace'' = ws" and "str_field p ''human_summary'' = hs"
  by (simp_all add: p_def build_challenge_payload_def require_fields_def check_fields_Inr
      CHALLENGE_FIELDS_def str_field_def)

text \<open>
  A decision payload that the builder makes passes the validation of the receiver, whatever its
  fields contain, and a challenge payload passes exactly when its displayed fields are safe.
\<close>

theorem built_payloads_validate:
  "(build_decision_payload core aid dg who dev kid nonce psha d issued e = Inr p \<longrightarrow>
      validate_decision_payload p = Inr ()) \<and>
   (validate_challenge_payload (build_challenge_payload core aid dg who dev tool mode ws task hs nonce
        issued e) = Inr () \<longleftrightarrow> validate_action_display_fields tool mode task ws hs = Inr ())"
proof (intro conjI impI)
  assume b: "build_decision_payload core aid dg who dev kid nonce psha d issued e = Inr p"
  from build_decision_Inr [OF b] show "validate_decision_payload p = Inr ()"
    unfolding validate_decision_payload_def in_order_Inr decision_fields_present [OF b] by simp
next
  show "validate_challenge_payload (build_challenge_payload core aid dg who dev tool mode ws task hs nonce
        issued e) = Inr () \<longleftrightarrow> validate_action_display_fields tool mode task ws hs = Inr ()"
    unfolding validate_challenge_payload_def in_order_Inr challenge_fields_present by simp
qed

theorem built_payloads_validate_witness:
  "validate_decision_payload
     [(''protocol_version'', Jint 2), (''type'', Jstr ''approval_decision''),
      (''core_instance_id'', Jstr ''c''), (''approval_id'', Jstr ''a''), (''action_digest'', Jstr ''g''),
      (''principal_id'', Jstr ''p''), (''device_id'', Jstr ''d''), (''key_id'', Jstr ''k''),
      (''challenge_nonce'', Jstr ''n''), (''challenge_payload_sha256'', Jstr ''s''),
      (''decision'', Jstr ''DENY''), (''issued_at'', Jreal 1), (''challenge_expires_at'', Jreal 2)] = Inr ()"
  by (rule built_payloads_validate [THEN conjunct1, THEN mp, of "''c''" "''a''" "''g''" "''p''" "''d''" "''k''"
        "''n''" "''s''" "''DENY''" 1 2])
    (simp add: build_decision_payload_def DECISION_APPROVE_def DECISION_DENY_def PROTOCOL_VERSION_def
      TYPE_DECISION_def)

text \<open>
  A text is accepted for display exactly when it is short enough and has no control character
  other than tab and line feed and no code point that reorders the screen.
\<close>

theorem accepted_text_cannot_spoof:
  "validate_display_text v field m = Inr () \<longleftrightarrow>
     length (code_points v) \<le> m \<and>
     list_all (\<lambda>c. c = 9 \<or> c = 10 \<or> (32 \<le> c \<and> c < 127) \<or>
                   (160 \<le> c \<and> c \<notin> set BIDI_SPOOFERS)) (code_points v)"
proof -
  have "display_safe c \<longleftrightarrow> c = 9 \<or> c = 10 \<or> (32 \<le> c \<and> c < 127) \<or> (160 \<le> c \<and> c \<notin> set BIDI_SPOOFERS)" for c
  proof -
    have "160 \<le> c" if "c \<in> set BIDI_SPOOFERS" using that by (auto simp: BIDI_SPOOFERS_def)
    then show ?thesis by (cases "c \<in> set BIDI_SPOOFERS") (auto simp: display_safe_def)
  qed
  then show ?thesis by (simp add: validate_display_text_Inr list_all_iff)
qed

section \<open>What the signed bytes bind\<close>

text \<open>The canonical bytes of a challenge: the members in the order of their names, in three pieces.\<close>

definition challenge_end :: "string \<Rightarrow> string \<Rightarrow> string \<Rightarrow> string \<Rightarrow> string \<Rightarrow> string" where
  "challenge_end mode who task tool ws =
     json_key ''mode'' @ json_string mode @ '','' @
     json_key ''principal_id'' @ json_string who @ '','' @
     json_key ''protocol_version'' @ int_text PROTOCOL_VERSION @ '','' @
     json_key ''task'' @ json_string task @ '','' @
     json_key ''tool_id'' @ json_string tool @ '','' @
     json_key ''type'' @ json_string TYPE_CHALLENGE @ '','' @
     json_key ''workspace'' @ json_string ws @ ''}''"

definition challenge_middle :: "string \<Rightarrow> string \<Rightarrow> string \<Rightarrow> string" where
  "challenge_middle hs number rest =
     json_key ''human_summary'' @ json_string hs @ '','' @ json_key ''issued_at'' @ number @ CHR '','' # rest"

definition challenge_start :: "string \<Rightarrow> string \<Rightarrow> string \<Rightarrow> digest \<Rightarrow> string \<Rightarrow> string
    \<Rightarrow> string \<Rightarrow> string" where
  "challenge_start dg aid nonce core dev number rest =
     ''{'' @ json_key ''action_digest'' @ json_string dg @ '','' @
     json_key ''approval_id'' @ json_string aid @ '','' @
     json_key ''challenge_nonce'' @ json_string nonce @ '','' @
     json_key ''core_instance_id'' @ json_string core @ '','' @
     json_key ''device_id'' @ json_string dev @ '','' @
     json_key ''expires_at'' @ number @ CHR '','' # rest"

lemma challenge_bytes:
  "canonical_bytes sf (build_challenge_payload core aid dg who dev tool mode ws task hs nonce issued e) =
     challenge_start dg aid nonce core dev (sf e)
       (challenge_middle hs (sf issued) (challenge_end mode who task tool ws))"
  by (simp add: canonical_bytes_def build_challenge_payload_def sort_key_def challenge_start_def
      challenge_middle_def challenge_end_def)

text \<open>A number's text ends at the comma behind it.\<close>

lemma no_comma_prefix:
  assumes "a @ CHR '','' # x = b @ CHR '','' # y" and "CHR '','' \<notin> set a" "CHR '','' \<notin> set b"
  shows "a = b \<and> x = y"
proof -
  have "takeWhile (\<lambda>c. c \<noteq> CHR '','') (u @ CHR '','' # v) = u" if "CHR '','' \<notin> set u" for u v
    using that by (induction u) auto
  with assms have "a = b" by metis
  with assms(1) show ?thesis by simp
qed

lemma challenge_start_inj:
  assumes "challenge_start dg aid n core dev a x = challenge_start dg' aid' n' core' dev' b y"
    and "CHR '','' \<notin> set a" "CHR '','' \<notin> set b"
  shows "dg = dg' \<and> aid = aid' \<and> n = n' \<and> core = core' \<and> dev = dev' \<and> x = y"
  using assms no_comma_prefix [of a x b y]
  by (auto simp: challenge_start_def dest!: json_string_inj)

lemma challenge_middle_inj:
  assumes "challenge_middle hs a x = challenge_middle hs' b y"
    and "CHR '','' \<notin> set a" "CHR '','' \<notin> set b"
  shows "hs = hs' \<and> x = y"
  using assms no_comma_prefix [of a x b y]
  by (auto simp: challenge_middle_def dest!: json_string_inj)

lemma challenge_end_inj:
  assumes "challenge_end mode who task tool ws = challenge_end mode' who' task' tool' ws'"
  shows "mode = mode' \<and> who = who' \<and> task = task' \<and> tool = tool' \<and> ws = ws'"
  using assms by (auto simp: challenge_end_def dest!: json_string_inj)

text \<open>
  C11: the bytes of a signed challenge, and so their hash that a decision is bound to, determine
  everything the human was shown and everything that is executed: task, tool, mode, workspace,
  summary, action digest, device, principal, approval, nonce and core. No text of one field can
  imitate another field; the only assumption is that the text of a number has no comma.
\<close>

theorem challenge_bytes_bind_the_display:
  assumes num: "\<And>r. CHR '','' \<notin> set (sf r)"
    and eq: "canonical_bytes sf (build_challenge_payload core aid dg who dev tool mode ws task hs n i e) =
      canonical_bytes sf (build_challenge_payload core' aid' dg' who' dev' tool' mode' ws' task' hs' n' i' e')"
  shows "(core, aid, dg, who, dev, tool, mode, ws, task, hs, n) =
         (core', aid', dg', who', dev', tool', mode', ws', task', hs', n')"
proof -
  note 1 = challenge_start_inj [OF eq [unfolded challenge_bytes] num num]
  then have "challenge_middle hs (sf i) (challenge_end mode who task tool ws) =
    challenge_middle hs' (sf i') (challenge_end mode' who' task' tool' ws')" by simp
  note 2 = challenge_middle_inj [OF this num num]
  then have "challenge_end mode who task tool ws = challenge_end mode' who' task' tool' ws'" by simp
  from 1 2 challenge_end_inj [OF this] show ?thesis by simp
qed

theorem challenge_bytes_bind_the_display_witness:
  "canonical_bytes (\<lambda>r. ''0.0'') (build_challenge_payload ''c'' ''a'' ''g'' ''p'' ''d'' ''t'' ''m'' ''w''
      ''rm build'' ''s'' ''n'' 0 0) \<noteq>
   canonical_bytes (\<lambda>r. ''0.0'') (build_challenge_payload ''c'' ''a'' ''g'' ''p'' ''d'' ''t'' ''m'' ''w''
      ''rm everything'' ''s'' ''n'' 0 0)"
  using challenge_bytes_bind_the_display [of "\<lambda>r. ''0.0''" "''c''" "''a''" "''g''" "''p''" "''d''"
      "''t''" "''m''" "''w''" "''rm build''" "''s''" "''n''" 0 0 "''c''" "''a''" "''g''" "''p''"
      "''d''" "''t''" "''m''" "''w''" "''rm everything''" "''s''" "''n''" 0 0]
  by auto

text \<open>Different domains are hashed from different bytes, whatever the bindings contain.\<close>

lemma domain_prefix:
  assumes "domain_preimage d x = domain_preimage d' y" and "CHR 0x00 \<notin> set d" "CHR 0x00 \<notin> set d'"
  shows "d = d' \<and> x = y"
proof -
  have "takeWhile (\<lambda>c. c \<noteq> CHR 0x00) (u @ [CHR 0x00] @ v) = u" if "CHR 0x00 \<notin> set u" for u v :: string
    using that by (induction u) auto
  with assms have "d = d'" by (metis domain_preimage_def)
  with assms(1) show ?thesis by (simp add: domain_preimage_def)
qed

text \<open>
  The two App Attest hashes and the action digest never hash the same bytes for two of their
  purposes, and within one purpose only for the same binding.
\<close>

theorem attest_domains_are_separate:
  "domain_preimage DOMAIN_ENROLLMENT x \<noteq> domain_preimage DOMAIN_DECISION y \<and>
   (domain_preimage DOMAIN_DECISION x = domain_preimage DOMAIN_DECISION y \<longleftrightarrow> x = y) \<and>
   (domain_preimage DOMAIN_ENROLLMENT x = domain_preimage DOMAIN_ENROLLMENT y \<longleftrightarrow> x = y)"
  using domain_prefix [of DOMAIN_ENROLLMENT x DOMAIN_DECISION y]
  by (auto simp: DOMAIN_ENROLLMENT_def DOMAIN_DECISION_def domain_preimage_def)

end
