(* ===== verification/Approval_Broker.thy ===== *)
theory Approval_Broker
  imports Execution Json
begin

text \<open>
  \<open>security/approval.py\<close>: the canonical action digest and the in-memory S1 broker, the last
  gate in front of an executor. \<open>_pending\<close> is a Python dict, modelled as the list of its entries
  in insertion order; \<open>time.monotonic()\<close> is the parameter \<open>now\<close>.
\<close>

section \<open>The action digest\<close>

definition DOMAIN :: string where
  "DOMAIN = ''SOLVIO_APPROVAL_V1''"

text \<open>The sorted, compact object with the keys mode, task, tool\_id, v and workspace.\<close>

definition action_canonical :: "string \<Rightarrow> string \<Rightarrow> string \<Rightarrow> string \<Rightarrow> string" where
  "action_canonical tool_id mode task workspace =
     ''{'' @ json_key ''mode'' @ json_string mode @ '','' @ json_key ''task'' @ json_string task
     @ '','' @ json_key ''tool_id'' @ json_string tool_id @ '','' @ json_key ''v'' @ ''1''
     @ '','' @ json_key ''workspace'' @ json_string workspace @ ''}''"

definition action_preimage :: "string \<Rightarrow> string \<Rightarrow> string \<Rightarrow> string \<Rightarrow> string" where
  "action_preimage tool_id mode task workspace =
     DOMAIN @ [CHR 0x00] @ action_canonical tool_id mode task workspace"

definition action_digest ::
  "(string \<Rightarrow> string) \<Rightarrow> string \<Rightarrow> string \<Rightarrow> string \<Rightarrow> string \<Rightarrow> string" where
  "action_digest H tool_id mode task workspace =
     sha256_hex H (action_preimage tool_id mode task workspace)"

text \<open>It is the general canonical form of the payload the code builds; the text of a float plays no part.\<close>

lemma action_canonical_is_json:
  "action_canonical tool_id mode task workspace = canonical_bytes sf
     [(''v'', Jint 1), (''tool_id'', Jstr tool_id), (''mode'', Jstr mode), (''task'', Jstr task),
      (''workspace'', Jstr workspace)]"
proof -
  have "int_text 1 = ''1''" by code_simp
  then show ?thesis
    by (simp add: action_canonical_def canonical_bytes_def sort_key_def)
qed

lemma action_canonical_inj:
  assumes "action_canonical a b c d = action_canonical a' b' c' d'"
  shows "a = a' \<and> b = b' \<and> c = c' \<and> d = d'"
  using assms by (auto simp: action_canonical_def dest!: json_string_inj)

text \<open>
  Two actions that differ in any of tool, mode, task or workspace are hashed from different
  bytes, whatever quotes, newlines or delimiters their fields contain: no text can be moved
  across a field boundary. Distinct actions can share a digest only by a collision of the hash.
\<close>

theorem action_digest_binds_every_field:
  "(action_preimage a b c d = action_preimage a' b' c' d') =
     ((a, b, c, d) = (a', b', c', d'))"
  using action_canonical_inj [of a b c d a' b' c' d'] by (auto simp: action_preimage_def)

section \<open>The S1 broker\<close>

record approval =
  ap_id :: string
  ap_principal :: string
  ap_tool :: string
  ap_task :: string
  ap_workspace :: string
  ap_mode :: string
  ap_digest :: string
  ap_created :: time
  ap_expiry :: time
  ap_approved :: bool
  ap_approved_by :: "string option"

text \<open>
  The injected approver is a function of the request and the identity; \<open>None\<close> is a broker
  without one.
\<close>

type_synonym approver = "approval \<Rightarrow> string \<Rightarrow> bool"

record broker =
  bk_ttl :: time
  bk_max_pending :: nat
  bk_pending :: "approval list"

definition broker_gc :: "time \<Rightarrow> broker \<Rightarrow> broker" where
  "broker_gc now b = b\<lparr>bk_pending := filter (\<lambda>r. \<not> now > ap_expiry r) (bk_pending b)\<rparr>"

text \<open>\<open>_pending[k] = r\<close>: a new key goes to the end, an existing one keeps its place.\<close>

definition broker_put :: "approval \<Rightarrow> approval list \<Rightarrow> approval list" where
  "broker_put r t = (if ap_id r \<in> set (map ap_id t)
     then update_where (\<lambda>x. ap_id x = ap_id r) (\<lambda>_. r) t else t @ [r])"

definition broker_pop :: "string \<Rightarrow> broker \<Rightarrow> broker" where
  "broker_pop rid b = b\<lparr>bk_pending := filter (\<lambda>r. ap_id r \<noteq> rid) (bk_pending b)\<rparr>"

text \<open>\<open>token\<close> is the value \<open>secrets.token_hex(16)\<close> returns for a new request.\<close>

definition broker_request ::
  "(string \<Rightarrow> string) \<Rightarrow> time \<Rightarrow> string \<Rightarrow> string \<Rightarrow> string \<Rightarrow> string \<Rightarrow> string \<Rightarrow> string
   \<Rightarrow> broker \<Rightarrow> approval result \<times> broker" where
  "broker_request H now token who tool task workspace mode b0 =
     (let b = broker_gc now b0;
          digest = action_digest H tool mode task workspace
      in case select_one (\<lambda>r. ap_principal r = who \<and> ap_digest r = digest \<and> \<not> ap_approved r)
                (bk_pending b) of
           Some r \<Rightarrow> (Inr r, b)
         | None \<Rightarrow>
             if length (bk_pending b) \<ge> bk_max_pending b then (Inl ApprovalLimitError, b)
             else let r = \<lparr>ap_id = token, ap_principal = who, ap_tool = tool,
                           ap_task = task, ap_workspace = workspace, ap_mode = mode,
                           ap_digest = digest, ap_created = now, ap_expiry = now + bk_ttl b,
                           ap_approved = False, ap_approved_by = None\<rparr>
                  in (Inr r, b\<lparr>bk_pending := broker_put r (bk_pending b)\<rparr>))"

definition broker_pending_count :: "time \<Rightarrow> broker \<Rightarrow> nat \<times> broker" where
  "broker_pending_count now b = (let b' = broker_gc now b in (length (bk_pending b'), b'))"

definition broker_has_pending :: "time \<Rightarrow> broker \<Rightarrow> bool \<times> broker" where
  "broker_has_pending now b =
     (let b' = broker_gc now b in (list_ex (\<lambda>r. \<not> ap_approved r) (bk_pending b'), b'))"

definition broker_list_pending :: "time \<Rightarrow> broker \<Rightarrow> approval list \<times> broker" where
  "broker_list_pending now b = (let b' = broker_gc now b in (bk_pending b', b'))"

definition broker_approve ::
  "approver option \<Rightarrow> time \<Rightarrow> string \<Rightarrow> string \<Rightarrow> string \<Rightarrow> broker
   \<Rightarrow> (approval option \<times> string) \<times> broker" where
  "broker_approve appr now rid identity presented b0 =
     (let b = broker_gc now b0 in
      case by_key ap_id rid (bk_pending b) of
        None \<Rightarrow> ((None, ''unknown''), b)
      | Some r \<Rightarrow>
          if now > ap_expiry r then ((None, ''expired''), broker_pop rid b)
          else if (case appr of None \<Rightarrow> True | Some trusted \<Rightarrow> \<not> trusted r identity)
          then ((None, ''no_trusted_approver''), b)
          else if ap_digest r \<noteq> presented then ((None, ''digest_mismatch''), b)
          else let r' = r\<lparr>ap_approved := True, ap_approved_by := Some identity\<rparr>
               in ((Some r', ''ok''),
                   b\<lparr>bk_pending := update_where (\<lambda>x. ap_id x = rid)
                       (\<lambda>x. x\<lparr>ap_approved := True, ap_approved_by := Some identity\<rparr>)
                       (bk_pending b)\<rparr>))"

definition broker_take_approved ::
  "time \<Rightarrow> string \<Rightarrow> string option \<Rightarrow> broker \<Rightarrow> (approval option \<times> string) \<times> broker" where
  "broker_take_approved now rid tool b0 =
     (let b = broker_gc now b0 in
      case by_key ap_id rid (bk_pending b) of
        None \<Rightarrow> ((None, ''unknown''), b)
      | Some r \<Rightarrow>
          if \<not> ap_approved r then ((None, ''not_approved''), b)
          else if now > ap_expiry r then ((None, ''expired''), broker_pop rid b)
          else if tool \<noteq> None \<and> Some (ap_tool r) \<noteq> tool then ((None, ''mismatch''), b)
          else ((Some r, ''ok''), broker_pop rid b))"

definition broker_cancel :: "string option \<Rightarrow> broker \<Rightarrow> broker" where
  "broker_cancel rid b = (if truthy rid then broker_pop (or_empty rid) b
                          else b\<lparr>bk_pending := []\<rparr>)"

subsection \<open>Steps and invariant\<close>

text \<open>The tokens of new requests are fresh: \<open>secrets.token_hex(16)\<close> does not repeat.\<close>

inductive broker_step :: "(string \<Rightarrow> string) \<Rightarrow> approver option \<Rightarrow> broker \<Rightarrow> broker \<Rightarrow> bool"
  for H appr where
  request: "token \<notin> ap_id ` set (bk_pending b) \<Longrightarrow>
     broker_step H appr b (snd (broker_request H now token p tool task ws mode b))"
| approve: "broker_step H appr b (snd (broker_approve appr now rid identity presented b))"
| take: "broker_step H appr b (snd (broker_take_approved now rid want b))"
| cancel: "broker_step H appr b (broker_cancel c b)"
| gc: "broker_step H appr b (broker_gc now b)"

definition broker_entry_ok ::
  "(string \<Rightarrow> string) \<Rightarrow> approver option \<Rightarrow> approval \<Rightarrow> bool" where
  "broker_entry_ok H appr r \<longleftrightarrow>
     ap_digest r = action_digest H (ap_tool r) (ap_mode r) (ap_task r) (ap_workspace r) \<and>
     (ap_approved r \<longrightarrow> (\<exists>trusted identity. appr = Some trusted \<and> ap_approved_by r = Some identity \<and>
        (\<exists>f g. trusted (r\<lparr>ap_approved := f, ap_approved_by := g\<rparr>) identity)))"

definition broker_inv :: "(string \<Rightarrow> string) \<Rightarrow> approver option \<Rightarrow> broker \<Rightarrow> bool" where
  "broker_inv H appr b \<longleftrightarrow>
     distinct (map ap_id (bk_pending b)) \<and> length (bk_pending b) \<le> bk_max_pending b \<and>
     (\<forall>r\<in>set (bk_pending b). broker_entry_ok H appr r)"

lemma broker_entry_unapproved:
  "ap_digest r = action_digest H (ap_tool r) (ap_mode r) (ap_task r) (ap_workspace r) \<Longrightarrow>
   \<not> ap_approved r \<Longrightarrow> broker_entry_ok H appr r"
  by (simp add: broker_entry_ok_def)

lemma broker_entry_approved:
  assumes "broker_entry_ok H (Some trusted) r" "trusted r identity"
  shows "broker_entry_ok H (Some trusted)
           (r\<lparr>ap_approved := True, ap_approved_by := Some identity\<rparr>)"
proof -
  have "\<exists>f g. trusted (r\<lparr>ap_approved := f, ap_approved_by := g\<rparr>) identity"
    using assms(2) by (intro exI [of _ "ap_approved r"] exI [of _ "ap_approved_by r"]) simp
  then show ?thesis
    using assms(1) by (simp add: broker_entry_ok_def)
qed

lemma broker_inv_filter:
  "broker_inv H appr b \<Longrightarrow> broker_inv H appr (b\<lparr>bk_pending := filter p (bk_pending b)\<rparr>)"
  by (auto simp: broker_inv_def distinct_map_filter intro: le_trans [OF length_filter_le])

lemma broker_inv_gc: "broker_inv H appr b \<Longrightarrow> broker_inv H appr (broker_gc now b)"
  unfolding broker_gc_def by (rule broker_inv_filter)

lemma broker_inv_pop: "broker_inv H appr b \<Longrightarrow> broker_inv H appr (broker_pop rid b)"
  unfolding broker_pop_def by (rule broker_inv_filter)

lemma gc_pending_subset: "set (bk_pending (broker_gc now b)) \<subseteq> set (bk_pending b)"
  by (auto simp: broker_gc_def)

lemma broker_inv_request:
  assumes inv: "broker_inv H appr b" and fresh: "token \<notin> ap_id ` set (bk_pending b)"
  shows "broker_inv H appr (snd (broker_request H now token p tool task ws mode b))"
proof -
  let ?b = "broker_gc now b"
  have "broker_inv H appr ?b" by (rule broker_inv_gc [OF inv])
  moreover have "token \<notin> ap_id ` set (bk_pending ?b)"
    using fresh gc_pending_subset [of now b] by auto
  ultimately show ?thesis
    by (auto simp: broker_request_def Let_def broker_put_def broker_inv_def
        intro!: broker_entry_unapproved split: option.splits)
qed

lemma broker_inv_approve:
  assumes inv: "broker_inv H appr b"
  shows "broker_inv H appr (snd (broker_approve appr now rid identity presented b))"
proof -
  let ?b = "broker_gc now b"
  let ?f = "\<lambda>x. x\<lparr>ap_approved := True, ap_approved_by := Some identity\<rparr>"
  let ?t = "update_where (\<lambda>x. ap_id x = rid) ?f (bk_pending ?b)"
  have inv': "broker_inv H appr ?b" by (rule broker_inv_gc [OF inv])
  have upd: "broker_inv H appr (?b\<lparr>bk_pending := ?t\<rparr>)"
    if key: "by_key ap_id rid (bk_pending ?b) = Some r" and tr: "appr = Some trusted"
      "trusted r identity" for r trusted
  proof -
    have one: "x = r" if "x \<in> set (bk_pending ?b)" "ap_id x = rid" for x
      using inv' key that by_key_unique [of ap_id "bk_pending ?b" x] by (auto simp: broker_inv_def)
    have "broker_entry_ok H appr y" if "y \<in> set ?t" for y
      using that inv' one tr broker_entry_approved [of H trusted r identity]
      by (auto simp: set_update_where broker_inv_def split: if_splits)
    moreover have "map ap_id ?t = map ap_id (bk_pending ?b)" by (simp add: keys_update)
    ultimately show ?thesis using inv' by (auto simp: broker_inv_def)
  qed
  show ?thesis
    using inv' upd broker_inv_pop [OF inv']
    by (auto simp: broker_approve_def Let_def split: option.splits)
qed

lemma broker_inv_take:
  "broker_inv H appr b \<Longrightarrow> broker_inv H appr (snd (broker_take_approved now rid want b))"
  using broker_inv_gc [of H appr b now] broker_inv_pop [of H appr "broker_gc now b" rid]
  by (auto simp: broker_take_approved_def Let_def split: option.splits)

lemma broker_inv_cancel: "broker_inv H appr b \<Longrightarrow> broker_inv H appr (broker_cancel c b)"
  using broker_inv_pop by (auto simp: broker_cancel_def broker_inv_def)

interpretation broker: invariant_system "broker_step H appr" "broker_inv H appr" for H appr
  by unfold_locales
    (auto elim!: broker_step.cases intro: broker_inv_request broker_inv_approve broker_inv_take
      broker_inv_cancel broker_inv_gc)

definition new_broker :: "time \<Rightarrow> nat \<Rightarrow> broker" where
  "new_broker ttl max_pending = \<lparr>bk_ttl = ttl, bk_max_pending = max_pending, bk_pending = []\<rparr>"

lemma new_broker_inv: "broker_inv H appr (new_broker ttl m)"
  by (simp add: broker_inv_def new_broker_def)

lemma reachable_broker_inv:
  "reaches (broker_step H appr) (new_broker ttl m) b \<Longrightarrow> broker_inv H appr b"
  by (rule broker.reaches_keeps [OF _ new_broker_inv])

subsection \<open>What the gate promises its client\<close>

lemma broker_take_SomeD:
  "broker_take_approved now rid want b = ((Some r, st), b') \<Longrightarrow>
   st = ''ok'' \<and> r \<in> set (bk_pending b) \<and> ap_id r = rid \<and> ap_approved r \<and> \<not> now > ap_expiry r \<and>
   (want \<noteq> None \<longrightarrow> want = Some (ap_tool r)) \<and> by_key ap_id rid (bk_pending b') = None"
  by (auto simp: broker_take_approved_def Let_def broker_gc_def broker_pop_def by_key_None_iff
      dest!: by_key_SomeD split: option.splits if_splits)

text \<open>
  C2: whatever sequence of requests, approvals, takes, cancels and sweeps a broker has been
  through, an action it hands out was approved by the injected approver for this very request, is
  still within its lifetime, carries the digest of exactly its own fields, and cannot be taken a
  second time. A broker without an approver hands out nothing.
\<close>

theorem broker_hands_out_only_trusted_actions:
  assumes "reaches (broker_step H appr) (new_broker ttl m) b"
    and "broker_take_approved now rid want b = ((Some r, st), b')"
  shows "(\<exists>trusted identity f g. appr = Some trusted \<and> ap_approved_by r = Some identity \<and>
            trusted (r\<lparr>ap_approved := f, ap_approved_by := g\<rparr>) identity) \<and>
         now \<le> ap_expiry r \<and>
         ap_digest r = action_digest H (ap_tool r) (ap_mode r) (ap_task r) (ap_workspace r) \<and>
         fst (broker_take_approved later rid want' b') = (None, ''unknown'')"
proof -
  note take = broker_take_SomeD [OF assms(2)]
  with reachable_broker_inv [OF assms(1)] have "broker_entry_ok H appr r"
    by (auto simp: broker_inv_def)
  moreover have "by_key ap_id rid (bk_pending (broker_gc later b')) = None"
    using take gc_pending_subset [of later b'] by (auto simp: by_key_None_iff)
  ultimately show ?thesis
    using take by (auto simp: broker_entry_ok_def broker_take_approved_def Let_def)
qed

subsection \<open>The broker as a gate\<close>

text \<open>
  What a client relies on when it asks for an action, has it granted under an identity and takes it:
  the entry it asked for is the one the approver is shown and the one handed out, under the digest
  of the action asked for. \<open>held g b\<close> says that \<open>g\<close> is the entry stored under its id.
\<close>

locale approval_gate =
  fixes inv :: "'b \<Rightarrow> bool" and fresh :: "string \<Rightarrow> 'b \<Rightarrow> bool" and held :: "approval \<Rightarrow> 'b \<Rightarrow> bool"
    and digest_of :: "string \<Rightarrow> string \<Rightarrow> string \<Rightarrow> string \<Rightarrow> string"
    and ask :: "time \<Rightarrow> string \<Rightarrow> string \<Rightarrow> string \<Rightarrow> string \<Rightarrow> string \<Rightarrow> string \<Rightarrow> 'b \<Rightarrow> approval result \<times> 'b"
    and grant :: "approver \<Rightarrow> time \<Rightarrow> string \<Rightarrow> string \<Rightarrow> string \<Rightarrow> 'b \<Rightarrow> (approval option \<times> string) \<times> 'b"
    and hand :: "time \<Rightarrow> string \<Rightarrow> string option \<Rightarrow> 'b \<Rightarrow> (approval option \<times> string) \<times> 'b"
  assumes ask_entry: "inv b \<Longrightarrow> fresh token b \<Longrightarrow> ask now token who tool task ws mode b = (Inr g, b') \<Longrightarrow>
      inv b' \<and> held g b' \<and> ap_principal g = who \<and> ap_digest g = digest_of tool mode task ws"
    and grant_entry: "inv b \<Longrightarrow> held g b \<Longrightarrow> grant trusted now (ap_id g) i dg b = ((x, ''ok''), b') \<Longrightarrow>
      inv b' \<and> trusted g i \<and> held (g\<lparr>ap_approved := True, ap_approved_by := Some i\<rparr>) b'"
    and hand_entry: "inv b \<Longrightarrow> held g b \<Longrightarrow> hand now (ap_id g) want b = ((Some r, st), b') \<Longrightarrow>
      r = g \<and> (want = None \<or> want = Some (ap_tool g)) \<and>
      ap_digest g = digest_of (ap_tool g) (ap_mode g) (ap_task g) (ap_workspace g)"
begin

lemma gate_passed:
  assumes "inv b" "fresh token b" "ask now token who tool task ws mode b = (Inr g, b1)"
    and "grant trusted now (ap_id g) i dg b1 = ((x, ''ok''), b2)"
    and "hand now (ap_id g) (Some tool) b2 = ((Some r, st), b3)"
  shows "trusted g i \<and> ap_principal g = who \<and> ap_digest g = digest_of tool mode task ws \<and>
    ap_tool r = tool \<and> ap_digest r = ap_digest g \<and>
    ap_digest r = digest_of (ap_tool r) (ap_mode r) (ap_task r) (ap_workspace r)"
proof -
  let ?g = "g\<lparr>ap_approved := True, ap_approved_by := Some i\<rparr>"
  have 1: "inv b1" "held g b1" "ap_principal g = who" "ap_digest g = digest_of tool mode task ws"
    using ask_entry [OF assms(1-3)] by simp_all
  have 2: "inv b2" "trusted g i" "held ?g b2" using grant_entry [OF 1(1,2) assms(4)] by simp_all
  have "hand now (ap_id ?g) (Some tool) b2 = ((Some r, st), b3)" using assms(5) by simp
  from hand_entry [OF 2(1,3) this] 1 2 show ?thesis by auto
qed

end

lemma broker_request_entry:
  assumes inv: "broker_inv H appr b" and fresh: "token \<notin> ap_id ` set (bk_pending b)"
    and ask: "broker_request H now token who tool task ws mode b = (Inr g, b')"
  shows "by_key ap_id (ap_id g) (bk_pending b') = Some g \<and> ap_principal g = who \<and>
    ap_digest g = action_digest H tool mode task ws"
proof -
  let ?b = "broker_gc now b"
  have inv': "broker_inv H appr ?b" by (rule broker_inv_gc [OF inv])
  have fresh': "token \<notin> ap_id ` set (bk_pending ?b)" using fresh gc_pending_subset [of now b] by auto
  show ?thesis
  proof (cases "select_one (\<lambda>r. ap_principal r = who \<and> ap_digest r = action_digest H tool mode task ws
      \<and> \<not> ap_approved r) (bk_pending ?b)")
    case (Some r)
    then have "r \<in> set (bk_pending ?b)" "ap_principal r = who"
      "ap_digest r = action_digest H tool mode task ws"
      by (auto simp: select_one_def find_Some_iff)
    with ask Some inv' show ?thesis
      by (auto simp: broker_request_def Let_def broker_inv_def intro: by_key_unique)
  next
    case None
    with ask fresh' have "ap_id g = token" "ap_principal g = who"
      "ap_digest g = action_digest H tool mode task ws" "bk_pending b' = bk_pending ?b @ [g]"
      by (auto simp: broker_request_def Let_def broker_put_def split: if_splits)
    with fresh' show ?thesis by (auto intro: by_key_append_new)
  qed
qed

lemma broker_held_unique:
  assumes inv: "broker_inv H appr b" and held: "by_key ap_id (ap_id g) (bk_pending b) = Some g"
    and r: "r \<in> set (bk_pending b)" "ap_id r = ap_id g"
  shows "r = g"
proof -
  have "distinct (map ap_id (bk_pending b))" using inv by (simp add: broker_inv_def)
  from by_key_unique [OF this r(1)] held show ?thesis unfolding r(2) by (rule option.inject [THEN iffD1, OF trans [OF sym]])
qed

lemma broker_approve_entry:
  assumes inv: "broker_inv H appr b" and held: "by_key ap_id (ap_id g) (bk_pending b) = Some g"
    and ok: "broker_approve (Some trusted) now (ap_id g) i dg b = ((x, ''ok''), b')"
  shows "trusted g i \<and> by_key ap_id (ap_id g) (bk_pending b')
    = Some (g\<lparr>ap_approved := True, ap_approved_by := Some i\<rparr>)"
proof -
  let ?b = "broker_gc now b"
  have alive: "r = g" if "by_key ap_id (ap_id g) (bk_pending ?b) = Some r" for r
    using broker_held_unique [OF inv held] by_key_SomeD [OF that] gc_pending_subset [of now b] by blast
  show ?thesis
  proof (cases "by_key ap_id (ap_id g) (bk_pending ?b)")
    case None
    with ok show ?thesis by (simp add: broker_approve_def Let_def)
  next
    case (Some r)
    with alive have "r = g" by blast
    with Some ok show ?thesis
      by (auto simp: broker_approve_def Let_def by_key_update_Some split: if_splits)
  qed
qed

lemma broker_take_entry:
  assumes inv: "broker_inv H appr b" and held: "by_key ap_id (ap_id g) (bk_pending b) = Some g"
    and take: "broker_take_approved now (ap_id g) want b = ((Some r, st), b')"
  shows "r = g"
proof -
  from broker_take_SomeD [OF take] have "r \<in> set (bk_pending b)" "ap_id r = ap_id g" by auto
  with broker_held_unique [OF inv held] show ?thesis by blast
qed

text \<open>Any approver will do for the entries: only the stored digests and the keys matter here.\<close>

abbreviation gate_inv :: "(string \<Rightarrow> string) \<Rightarrow> broker \<Rightarrow> bool" where
  "gate_inv H \<equiv> broker_inv H (Some (\<lambda>r i. True))"

lemma gate_inv_approve:
  assumes "gate_inv H b"
  shows "gate_inv H (snd (broker_approve appr now rid identity dg b))"
proof (cases "snd (broker_approve appr now rid identity dg b)
    = snd (broker_approve (Some (\<lambda>r i. True)) now rid identity dg b)")
  case True
  with broker_inv_approve [OF assms] show ?thesis by simp
next
  case False
  then have "snd (broker_approve appr now rid identity dg b) = broker_gc now b"
    by (auto simp: broker_approve_def Let_def split: option.splits if_splits)
  with broker_inv_gc [OF assms] show ?thesis by simp
qed

interpretation s1_gate: approval_gate "gate_inv H" "\<lambda>token b. token \<notin> ap_id ` set (bk_pending b)"
  "\<lambda>g b. by_key ap_id (ap_id g) (bk_pending b) = Some g" "action_digest H" "broker_request H"
  "\<lambda>trusted. broker_approve (Some trusted)" broker_take_approved for H
proof
  fix b token now who tool task ws mode g b'
  assume "gate_inv H b" "token \<notin> ap_id ` set (bk_pending b)"
    "broker_request H now token who tool task ws mode b = (Inr g, b')"
  with broker_request_entry broker_inv_request
  show "gate_inv H b' \<and> by_key ap_id (ap_id g) (bk_pending b') = Some g \<and> ap_principal g = who \<and>
    ap_digest g = action_digest H tool mode task ws" by (metis snd_conv)
next
  fix b g trusted now i dg x b'
  assume "gate_inv H b" "by_key ap_id (ap_id g) (bk_pending b) = Some g"
    "broker_approve (Some trusted) now (ap_id g) i dg b = ((x, ''ok''), b')"
  with broker_approve_entry [of H "Some (\<lambda>r i. True)" b g trusted now i dg x b'] gate_inv_approve [of H b "Some trusted" now "ap_id g" i dg]
  show "gate_inv H b' \<and> trusted g i \<and>
    by_key ap_id (ap_id (g\<lparr>ap_approved := True, ap_approved_by := Some i\<rparr>)) (bk_pending b')
      = Some (g\<lparr>ap_approved := True, ap_approved_by := Some i\<rparr>)" by simp
next
  fix b g now want r st b'
  assume a: "gate_inv H b" "by_key ap_id (ap_id g) (bk_pending b) = Some g"
    "broker_take_approved now (ap_id g) want b = ((Some r, st), b')"
  from broker_take_entry [OF a] broker_take_SomeD [OF a(3)] a(1)
  show "r = g \<and> (want = None \<or> want = Some (ap_tool g)) \<and>
    ap_digest g = action_digest H (ap_tool g) (ap_mode g) (ap_task g) (ap_workspace g)"
    by (auto simp: broker_inv_def broker_entry_ok_def)
qed

text \<open>A run of the broker used by the witnesses: request, approve, take.\<close>

definition demo_hash :: "string \<Rightarrow> string" where
  "demo_hash x = replicate 32 CHR ''h''"

definition demo_entry :: approval where
  "demo_entry = \<lparr>ap_id = ''t'', ap_principal = ''owner'', ap_tool = ''codex_task'', ap_task = ''x'',
     ap_workspace = [], ap_mode = ''modify'',
     ap_digest = action_digest demo_hash ''codex_task'' ''modify'' ''x'' [],
     ap_created = 0, ap_expiry = 120, ap_approved = False, ap_approved_by = None\<rparr>"

definition demo_broker :: broker where
  "demo_broker = \<lparr>bk_ttl = 120, bk_max_pending = 32,
     bk_pending = [demo_entry\<lparr>ap_approved := True, ap_approved_by := Some ''ap''\<rparr>]\<rparr>"

lemma demo_broker_reachable:
  "reaches (broker_step demo_hash (Some (\<lambda>r i. True))) (new_broker 120 32) demo_broker"
proof -
  let ?step = "broker_step demo_hash (Some (\<lambda>r i. True))"
  let ?b1 = "(new_broker 120 32)\<lparr>bk_pending := [demo_entry]\<rparr>"
  have "?step (new_broker 120 32) (snd (broker_request demo_hash 0 ''t'' ''owner'' ''codex_task''
          ''x'' [] ''modify'' (new_broker 120 32)))"
    by (rule broker_step.request) (simp add: new_broker_def)
  then have 1: "?step (new_broker 120 32) ?b1"
    by (simp add: broker_request_def broker_gc_def new_broker_def select_one_def broker_put_def
        demo_entry_def Let_def)
  have "?step ?b1 (snd (broker_approve (Some (\<lambda>r i. True)) 1 ''t'' ''ap'' (ap_digest demo_entry) ?b1))"
    by (rule broker_step.approve)
  then have 2: "?step ?b1 demo_broker"
    by (simp add: broker_approve_def broker_gc_def new_broker_def by_key_Cons demo_entry_def
        update_where_def demo_broker_def)
  from reaches.start 1 have "reaches ?step (new_broker 120 32) ?b1" by (rule reaches.extend)
  from this 2 show ?thesis by (rule reaches.extend)
qed

theorem broker_hands_out_only_trusted_actions_witness:
  "fst (broker_take_approved 3 ''t'' None (snd (broker_take_approved 2 ''t'' None demo_broker)))
     = (None, ''unknown'')"
proof -
  let ?r = "demo_entry\<lparr>ap_approved := True, ap_approved_by := Some ''ap''\<rparr>"
  have "broker_take_approved 2 ''t'' None demo_broker
      = ((Some ?r, ''ok''), demo_broker\<lparr>bk_pending := []\<rparr>)"
    by (simp add: broker_take_approved_def demo_broker_def broker_gc_def demo_entry_def by_key_Cons
        broker_pop_def)
  from broker_hands_out_only_trusted_actions [OF demo_broker_reachable this, of 3 None] this
  show ?thesis by simp
qed

text \<open>
  A new request never pushes an entry that is still alive out of the broker, and at the limit
  it is refused instead.
\<close>

theorem broker_request_never_evicts:
  assumes "r \<in> set (bk_pending b)" and "now \<le> ap_expiry r"
    and "token \<notin> ap_id ` set (bk_pending b)"
  shows "r \<in> set (bk_pending (snd (broker_request H now token p tool task ws mode b)))"
  using assms
  by (auto simp: broker_request_def Let_def broker_gc_def broker_put_def split: option.splits)

theorem broker_request_never_evicts_witness:
  "demo_entry\<lparr>ap_approved := True, ap_approved_by := Some ''ap''\<rparr> \<in>
     set (bk_pending (snd (broker_request demo_hash 5 ''u'' ''guest'' ''x'' ''y'' ''z'' ''m'' demo_broker)))"
  by (rule broker_request_never_evicts) (simp_all add: demo_broker_def demo_entry_def)

end
