(* ===== verification/Control_Plane.thy ===== *)
theory Control_Plane
  imports Store_Reach Protocol Approval_Broker
begin

text \<open>
  \<open>security/mobile_approval/control.py\<close>, the orchestration over the store. Every store call is an
  \<open>await\<close>, so other connections may commit between two of them: \<open>others i\<close> is what they do at the
  i-th such point, and the theorems hold for every choice of it. Random tokens and identifiers are
  arguments. Libraries and the App Attest verifier are fields of \<open>outside\<close>.
\<close>

section \<open>Configuration and surroundings\<close>

record attested_key =
  ak_public_key :: string
  ak_counter :: int
  ak_environment :: string

text \<open>\<open>AppAttestVerifier\<close>: \<open>Inl\<close> is \<open>AppAttestError\<close> with its text.\<close>

record attest_verifier =
  av_attestation :: "string \<Rightarrow> string \<Rightarrow> string \<Rightarrow> string + attested_key"
  av_assertion :: "string \<Rightarrow> string \<Rightarrow> string \<Rightarrow> int \<Rightarrow> string + int"

record outside =
  ox_sha256 :: "string \<Rightarrow> string"
  ox_point :: "string \<Rightarrow> bool"
  ox_verify :: "string \<Rightarrow> string \<Rightarrow> string \<Rightarrow> bool"
  ox_sign :: "string \<Rightarrow> string"
  ox_mac_key_id :: string
  ox_loads :: "string \<Rightarrow> json_root"
  ox_float :: "real \<Rightarrow> string"
  ox_attest :: "attest_verifier option"

record control_plane =
  cp_core :: string
  cp_app_id :: "string option"
  cp_challenge_ttl :: time
  cp_request_ttl :: time
  cp_enroll_ttl :: time
  cp_attest_ttl :: time
  cp_environments :: "string list"

type_synonym interleaving = "nat \<Rightarrow> store \<Rightarrow> store"

text \<open>What \<open>json.loads\<close> of a stored binding gives; of a repeated member the last one counts.\<close>

definition binding_of :: "json_root \<Rightarrow> json_binding" where
  "binding_of js = (case js of
       Object_root ps \<Rightarrow> JObject (\<lambda>k. case map_of (rev ps) k of Some (Jstr v) \<Rightarrow> Some v | _ \<Rightarrow> None)
     | Other_root \<Rightarrow> NotAnObject
     | _ \<Rightarrow> Unreadable)"

section \<open>Device ids\<close>

definition DEVICE_ID_MAX :: nat where
  "DEVICE_ID_MAX = 128"

definition device_id_char :: "char \<Rightarrow> bool" where
  "device_id_char c \<longleftrightarrow> (97 \<le> code c \<and> code c \<le> 122) \<or> (65 \<le> code c \<and> code c \<le> 90) \<or>
     (48 \<le> code c \<and> code c \<le> 57) \<or> c \<in> {CHR ''.'', CHR ''_'', CHR '':'', CHR ''-''}"

definition canonical_device_id :: "string \<Rightarrow> string result" where
  "canonical_device_id v =
     (let bad = filter (\<lambda>n. \<not> (n < 128 \<and> device_id_char (char_of n))) (code_points v)
      in if v = [] then Inl (ValueError ''device_id must be a non-empty string'')
      else if length (code_points v) > DEVICE_ID_MAX
      then Inl (ValueError ''device_id longer than 128 characters'')
      else if bad \<noteq> []
      then Inl (ValueError (''device_id contains characters outside [A-Za-z0-9._:-]: '' @
             join_with '', '' (map u_plus (take 4 (sort (remdups bad))))))
      else Inr v)"

section \<open>Enrollment\<close>

definition create_enrollment_token :: "outside \<Rightarrow> control_plane \<Rightarrow> time \<Rightarrow> string \<Rightarrow> string \<Rightarrow> store
    \<Rightarrow> (string \<times> time) result \<times> store" where
  "create_enrollment_token X cp now token who s =
     (case add_enrollment_token now (sha256_hex (ox_sha256 X) token) who (now + cp_enroll_ttl cp) s of
        (Inl e, s') \<Rightarrow> (Inl e, s')
      | (Inr _, s') \<Rightarrow> (Inr (token, now + cp_enroll_ttl cp), s'))"

record enrollment_offer =
  eo_enrollment :: string
  eo_binding_b64 :: string
  eo_nonce :: string
  eo_expires :: time
  eo_device :: string
  eo_principal :: string

definition begin_enrollment :: "outside \<Rightarrow> control_plane \<Rightarrow> interleaving \<Rightarrow> time \<Rightarrow> string \<Rightarrow> string
    \<Rightarrow> string \<Rightarrow> string \<Rightarrow> string \<Rightarrow> string \<Rightarrow> string option \<Rightarrow> store
    \<Rightarrow> (enrollment_offer option \<times> string) result \<times> store" where
  "begin_enrollment X cp others now enr_hex nonce token device pk_b64 aakid cred s =
     (let H = ox_sha256 X in
      case consume_enrollment_token now (sha256_hex H token) s of
        ((None, st), s1) \<Rightarrow> (Inr (None, st), s1)
      | ((Some who, _), s1) \<Rightarrow>
          (case b64_decode pk_b64 of
             None \<Rightarrow> (Inr (None, ''bad_public_key''), s1)
           | Some x963 \<Rightarrow>
               if \<not> ox_point X x963 then (Inr (None, ''bad_public_key''), s1)
               else (case canonical_device_id device of
                 Inl _ \<Rightarrow> (Inr (None, ''bad_device_id''), s1)
               | Inr did \<Rightarrow>
                   (case canonical_app_attest_key_id aakid of
                      None \<Rightarrow> (Inr (None, ''bad_app_attest_key_id''), s1)
                    | Some aak \<Rightarrow>
                        let kid = key_id H x963; fp = fingerprint H x963;
                            eid = ''enr-'' @ enr_hex; expires = now + cp_attest_ttl cp;
                            binding = canonical_bytes (ox_float X) (build_enrollment_binding
                              (cp_core cp) who did eid kid fp nonce now expires);
                            tch = (if truthy cred then Some (sha256_hex H (or_empty cred)) else None)
                        in case begin_enrollment_atomic now did kid (to_hex x963) who (Some aak)
                              [(REVOKE_DEVICE, did), (REVOKE_APPROVAL_KEY, fp),
                               (REVOKE_APP_ATTEST_KEY, aak)] eid nonce fp binding expires tch
                              (others 0 s1) of
                             (Inl e, s2) \<Rightarrow> (Inl e, s2)
                           | (Inr st, s2) \<Rightarrow>
                               if st \<noteq> ''ok'' then (Inr (None, st), s2)
                               else (Inr (Some \<lparr>eo_enrollment = eid,
                                       eo_binding_b64 = b64_encode binding, eo_nonce = nonce,
                                       eo_expires = expires, eo_device = did,
                                       eo_principal = who\<rparr>, ''ok''), s2)))))"

record attestation_done =
  ad_device :: string
  ad_environment :: string
  ad_key_id :: string

definition complete_attestation :: "outside \<Rightarrow> control_plane \<Rightarrow> interleaving \<Rightarrow> time \<Rightarrow> string
    \<Rightarrow> string \<Rightarrow> store \<Rightarrow> (attestation_done option \<times> string) result \<times> store" where
  "complete_attestation X cp others now eid att_b64 s =
     (let H = ox_sha256 X; fail = (\<lambda>st. (Inr (None, st), s)) in
      case ox_attest X of None \<Rightarrow> fail ''no_attest_verifier'' | Some v \<Rightarrow>
      (case get_att_challenge eid s of None \<Rightarrow> fail ''challenge_unknown'' | Some ch \<Rightarrow>
        if ac_consumed ch \<or> ac_superseded ch then fail ''challenge_superseded''
        else if now > ac_expires ch then fail ''challenge_expired''
        else if \<not> truthy (ac_app_attest_key_id ch) then fail ''challenge_unbound''
        else case b64_decode att_b64 of None \<Rightarrow> fail ''malformed:invalid base64'' | Some att \<Rightarrow>
        (let aakid = or_empty (ac_app_attest_key_id ch); s1 = others 0 s in
         case av_attestation v aakid att (enrollment_client_data_hash H (ac_binding ch)) of
           Inl err \<Rightarrow> (Inr (None, ''attestation_failed''),
               set_device_attestation_failed now eid (ac_device ch) (Some err) s1)
         | Inr k \<Rightarrow>
             (case app_attest_identity_from_public_key H (ak_public_key k) of
                None \<Rightarrow> (Inl (ValueError ''app_attest_key_id''), s1)
              | Some derived \<Rightarrow>
                  if derived \<noteq> aakid
                  then (Inr (None, ''app_attest_key_mismatch''),
                        set_device_attestation_failed now eid (ac_device ch)
                          (Some ''verified key identity != challenge identity'') s1)
                  else (case finalize_attestation H (\<lambda>raw. binding_of (ox_loads X raw)) now eid
                            (ak_public_key k) (ak_counter k) (ak_environment k)
                            (or_empty (cp_app_id cp)) (cp_core cp) s1 of
                          (Inl e, s2) \<Rightarrow> (Inl e, s2)
                        | (Inr st, s2) \<Rightarrow>
                            if st \<noteq> ''ok'' then (Inr (None, st), s2)
                            else (Inr (Some \<lparr>ad_device = ac_device ch,
                                    ad_environment = ak_environment k,
                                    ad_key_id = ac_key_id ch\<rparr>, ''ok''), s2))))))"

section \<open>Authority checks outside a transaction\<close>

definition environment_blocked :: "control_plane \<Rightarrow> device \<Rightarrow> bool" where
  "environment_blocked cp dev =
     (if cp_environments cp = [] then True
      else case dv_environment dev of None \<Rightarrow> True | Some e \<Rightarrow> e \<notin> set (cp_environments cp))"

definition revoked_now :: "outside \<Rightarrow> device \<Rightarrow> store \<Rightarrow> revoke_kind option" where
  "revoked_now X dev s = revoked_identities (identities_of (ox_sha256 X) dev) s"

definition execution_preflight :: "outside \<Rightarrow> control_plane \<Rightarrow> interleaving \<Rightarrow> time \<Rightarrow> string
    \<Rightarrow> string option \<Rightarrow> store \<Rightarrow> (string + identity list) \<times> store" where
  "execution_preflight X cp others now aid did s =
     (let deny = (\<lambda>reason. (Inl reason, audit now ''execution_rejected'' (Some aid)
            (if truthy did then did else None) (Some reason) None (others 0 s)))
      in if \<not> truthy did then deny ''unknown_device''
         else case get_device (or_empty did) s of
           None \<Rightarrow> deny ''unknown_device''
         | Some dev \<Rightarrow>
             if dv_status dev \<noteq> DEVICE_ACTIVE then deny ''device_revoked''
             else if environment_blocked cp dev then deny ''device_environment_not_allowed''
             else (Inr (identities_of (ox_sha256 X) dev), s))"

text \<open>\<open>claim_execution\<close>; \<open>None\<close> means that the execution may start.\<close>

definition claim_execution :: "outside \<Rightarrow> control_plane \<Rightarrow> interleaving \<Rightarrow> time \<Rightarrow> string \<Rightarrow> string
    \<Rightarrow> string \<Rightarrow> string \<Rightarrow> store \<Rightarrow> string option result \<times> store" where
  "claim_execution X cp others now now_repr pid aid did s =
     (case execution_preflight X cp others now aid (Some did) s of
        (Inl reason, s1) \<Rightarrow> (Inr (Some reason), s1)
      | (Inr identities, s1) \<Rightarrow>
          let H = ox_sha256 X; s2 = others 1 s1;
              capability = (case get_request aid s2 of None \<Rightarrow> [] | Some r \<Rightarrow> rq_tool r)
          in case execution_id_for H (cp_core cp) aid of
               Inl e \<Rightarrow> (Inl e, s2)
             | Inr eid \<Rightarrow>
                 (case idempotency_key_for H eid capability of
                    Inl e \<Rightarrow> (Inl e, s2)
                  | Inr idem \<Rightarrow>
                      (case claim_execution_attempt H now now_repr aid did identities eid capability
                              (Sem (semantics_for capability)) idem (''pid-'' @ pid) 300
                              (Some (cp_core cp)) (others 2 s2) of
                         (Inl e, s3) \<Rightarrow> (Inl e, s3)
                       | (Inr (Some att, _), s3) \<Rightarrow> (Inr None, s3)
                       | (Inr (None, st), s3) \<Rightarrow>
                           if st = ''claim_rejected''
                           then (Inr (Some ''device_revoked''), audit now ''execution_rejected''
                                   (Some aid) (Some did) (Some ''device_revoked'') None s3)
                           else (Inr (Some st), s3))))"

definition verify_transport_cred :: "outside \<Rightarrow> control_plane \<Rightarrow> interleaving \<Rightarrow> string
    \<Rightarrow> string option \<Rightarrow> store \<Rightarrow> bool" where
  "verify_transport_cred X cp others did cred s =
     (case get_device did s of
        None \<Rightarrow> False
      | Some dev \<Rightarrow>
          dv_status dev = DEVICE_ACTIVE \<and> dv_attestation dev = ATT_ATTESTED \<and>
          truthy (dv_transport_hash dev) \<and> revoked_now X dev (others 0 s) = None \<and>
          \<not> environment_blocked cp dev \<and>
          dv_transport_hash dev = Some (sha256_hex (ox_sha256 X) (or_empty cred)))"

section \<open>Requests and challenges\<close>

definition create_request :: "outside \<Rightarrow> control_plane \<Rightarrow> time \<Rightarrow> string \<Rightarrow> string \<Rightarrow> string \<Rightarrow> string
    \<Rightarrow> string \<Rightarrow> string \<Rightarrow> display_text \<Rightarrow> store \<Rightarrow> approval_id result \<times> store" where
  "create_request X cp now hex who tool mode task workspace summary s =
     (case validate_action_display_fields tool mode task workspace summary of
        Inl e \<Rightarrow> (Inl e, s)
      | Inr _ \<Rightarrow>
          let aid = ''ap-'' @ hex in
          (case create_request_row now aid who tool mode task workspace
                  (action_digest (ox_sha256 X) tool mode task workspace) summary
                  (now + cp_request_ttl cp) s of
             (Inl e, s') \<Rightarrow> (Inl e, s') | (Inr _, s') \<Rightarrow> (Inr aid, s')))"

record signed_challenge =
  sc_payload_b64 :: string
  sc_signature_b64 :: string
  sc_key_id :: string

definition issue_challenge :: "outside \<Rightarrow> control_plane \<Rightarrow> interleaving \<Rightarrow> time \<Rightarrow> string \<Rightarrow> string
    \<Rightarrow> string \<Rightarrow> store \<Rightarrow> (signed_challenge option \<times> string) result \<times> store" where
  "issue_challenge X cp others now nonce aid did s =
     (case get_request aid s of
        None \<Rightarrow> (Inr (None, ''not_pending''), s)
      | Some req \<Rightarrow>
          if rq_state req \<noteq> PENDING then (Inr (None, ''not_pending''), s)
          else if now > rq_expires req then (Inr (None, ''expired''), s)
          else
            let s1 = others 0 s in
            (case get_device did s1 of
               None \<Rightarrow> (Inr (None, ''device_inactive''), s1)
             | Some dev \<Rightarrow>
                 let s2 = others 1 s1; rk = revoked_now X dev s2;
                     blamed = (case rk of None \<Rightarrow> s2
                       | Some k \<Rightarrow> audit now ''challenge_rejected_revoked_key'' (Some aid) (Some did)
                                    (Some (kind_name k)) None s2)
                 in if dv_status dev \<noteq> DEVICE_ACTIVE \<or> dv_attestation dev \<noteq> ATT_ATTESTED
                    then (Inr (None, ''device_inactive''), blamed)
                    else if rk \<noteq> None then (Inr (None, ''device_revoked''), blamed)
                    else if environment_blocked cp dev
                    then (Inr (None, ''device_environment_not_allowed''),
                          audit now ''challenge_rejected_environment'' (Some aid) (Some did)
                            (dv_environment dev) None s2)
                    else if dv_principal dev \<noteq> rq_principal req
                    then (Inr (None, ''principal_mismatch''), s2)
                    else
                      let expires = now + cp_challenge_ttl cp;
                          raw = canonical_bytes (ox_float X) (build_challenge_payload (cp_core cp) aid
                            (rq_digest req) (rq_principal req) did (rq_tool req) (rq_mode req)
                            (rq_workspace req) (rq_task req) (rq_summary req) nonce now expires)
                      in case add_challenge now nonce aid did (rq_principal req) (rq_digest req) expires
                              (sha256_hex (ox_sha256 X) raw) (others 2 s2) of
                           (Inl e, s3) \<Rightarrow> (Inl e, s3)
                         | (Inr _, s3) \<Rightarrow>
                             (Inr (Some \<lparr>sc_payload_b64 = b64_encode raw,
                                sc_signature_b64 = b64_encode (ox_sign X raw),
                                sc_key_id = ox_mac_key_id X\<rparr>, ''ok''), s3)))"

section \<open>Decisions\<close>

definition parse_decision :: "outside \<Rightarrow> string \<Rightarrow> string \<Rightarrow> (string \<times> payload \<times> string) result" where
  "parse_decision X payload_b64 signature_b64 =
     (case b64_decode payload_b64 of
        None \<Rightarrow> Inl (ProtocolError ''invalid base64'')
      | Some raw \<Rightarrow>
          (case strict_parse (ox_loads X) raw of
             Inl e \<Rightarrow> Inl e
           | Inr p \<Rightarrow>
               (case validate_decision_payload p of
                  Inl e \<Rightarrow> Inl e
                | Inr _ \<Rightarrow>
                    (case b64_decode signature_b64 of
                       None \<Rightarrow> Inl (ProtocolError ''invalid base64'')
                     | Some sig \<Rightarrow> Inr (raw, p, sig)))))"

fun exn_text :: "exn \<Rightarrow> string" where
  "exn_text (ProtocolError m) = m"
| "exn_text (ValueError m) = m"
| "exn_text (StoreError m) = m"
| "exn_text (IllegalTransition m) = m"
| "exn_text (ConcurrentTransition m) = m"
| "exn_text _ = []"

text \<open>
  The App Attest half of an approval: \<open>Inl\<close> is the refusal, \<open>Inr\<close> the new counter, absent for a
  denial.
\<close>

definition check_assertion :: "outside \<Rightarrow> control_plane \<Rightarrow> string \<Rightarrow> payload \<Rightarrow> device
    \<Rightarrow> approval_request \<Rightarrow> string \<Rightarrow> string option \<Rightarrow> (string + int option) result" where
  "check_assertion X cp raw p dev req pk assertion_b64 =
     (let H = ox_sha256 X in
      if str_field p ''decision'' \<noteq> DECISION_APPROVE then Inr (Inr None)
      else case ox_attest X of None \<Rightarrow> Inr (Inl ''no_attest_verifier'') | Some v \<Rightarrow>
        if \<not> truthy assertion_b64 then Inr (Inl ''assertion_required'')
        else if \<not> truthy (dv_app_attest_public_key dev) then Inr (Inl ''device_not_attested'')
        else case b64_decode (or_empty assertion_b64) of
          None \<Rightarrow> Inr (Inl ''malformed:invalid base64'')
        | Some assertion \<Rightarrow>
            (case from_hex (or_empty (dv_app_attest_public_key dev)) of
               None \<Rightarrow> Inl (ValueError ''fromhex'')
             | Some aapk \<Rightarrow>
                 let binding = canonical_bytes (ox_float X) (build_decision_binding (cp_core cp)
                       (rq_id req) (str_field p ''device_id'') (sha256_hex H raw)
                       (str_field p ''challenge_nonce'') (fingerprint H pk))
                 in case av_assertion v assertion (decision_client_data_hash H binding) aapk
                         (dv_app_attest_counter dev) of
                      Inl _ \<Rightarrow> Inr (Inl ''bad_assertion'')
                    | Inr counter \<Rightarrow> Inr (Inr (Some counter))))"

text \<open>The checks on the device that stand in front of the signature; \<open>Some\<close> is a refusal.\<close>

definition check_decider :: "outside \<Rightarrow> control_plane \<Rightarrow> time \<Rightarrow> string \<Rightarrow> payload \<Rightarrow> device
    \<Rightarrow> store \<Rightarrow> string option \<times> store" where
  "check_decider X cp now kid p dev s =
     (let rk = revoked_now X dev s; blame = (\<lambda>event reason.
            audit now event None (Some (dv_id dev)) reason None s)
      in if dv_status dev \<noteq> DEVICE_ACTIVE
         then (Some ''device_revoked'', blame ''decision_rejected_revoked_key''
                 (Some (case rk of Some k \<Rightarrow> kind_name k | None \<Rightarrow> device_status_name (dv_status dev))))
         else case rk of
           Some k \<Rightarrow> (Some ''device_revoked'', blame ''decision_rejected_revoked_key'' (Some (kind_name k)))
         | None \<Rightarrow>
             if environment_blocked cp dev
             then (Some ''device_environment_not_allowed'',
                   blame ''decision_rejected_environment'' (dv_environment dev))
             else if dv_attestation dev \<noteq> ATT_ATTESTED then (Some ''device_not_attested'', s)
             else if kid \<noteq> dv_key_id dev \<or> str_field p ''key_id'' \<noteq> dv_key_id dev
             then (Some ''key_mismatch'', s)
             else (None, s))"

definition submit_decision :: "outside \<Rightarrow> control_plane \<Rightarrow> interleaving \<Rightarrow> time \<Rightarrow> string \<Rightarrow> string
    \<Rightarrow> string \<Rightarrow> string option \<Rightarrow> store
    \<Rightarrow> ((string \<times> string) option \<times> string) result \<times> store" where
  "submit_decision X cp others now payload_b64 signature_b64 kid assertion_b64 s =
     (case parse_decision X payload_b64 signature_b64 of
        Inl e \<Rightarrow> (Inr (None, ''malformed:'' @ exn_text e), s)
      | Inr (raw, p, sig) \<Rightarrow>
          if str_field p ''core_instance_id'' \<noteq> cp_core cp
          then (Inr (None, ''wrong_core_instance''), s)
          else case get_device (str_field p ''device_id'') s of
            None \<Rightarrow> (Inr (None, ''unknown_device''), s)
          | Some dev \<Rightarrow>
              (case check_decider X cp now kid p dev (others 0 s) of
                 (Some refusal, s1) \<Rightarrow> (Inr (None, refusal), s1)
               | (None, s1) \<Rightarrow>
                   (case from_hex (dv_public_key dev) of
                      None \<Rightarrow> (Inl (ValueError ''fromhex''), s1)
                    | Some pk \<Rightarrow>
                        if \<not> ox_point X pk then (Inl (ValueError ''public key''), s1)
                        else if \<not> ox_verify X pk sig raw then (Inr (None, ''bad_signature''), s1)
                        else let s2 = others 1 s1 in
                        (case get_request (str_field p ''approval_id'') s2 of
                           None \<Rightarrow> (Inr (None, ''unknown_request''), s2)
                         | Some req \<Rightarrow>
                             if rq_state req \<noteq> PENDING then (Inr (None, ''not_pending''), s2)
                             else if str_field p ''principal_id'' \<noteq> rq_principal req
                                  \<or> dv_principal dev \<noteq> rq_principal req
                             then (Inr (None, ''principal_mismatch''), s2)
                             else if str_field p ''action_digest'' \<noteq> rq_digest req
                             then (Inr (None, ''action_digest_mismatch''), s2)
                             else (case check_assertion X cp raw p dev req pk assertion_b64 of
                                Inl e \<Rightarrow> (Inl e, s2)
                              | Inr (Inl refusal) \<Rightarrow> (Inr (None, refusal), s2)
                              | Inr (Inr counter) \<Rightarrow>
                                  let approve = (str_field p ''decision'' = DECISION_APPROVE) in
                                  (case commit_decision (ox_sha256 X) now (rq_id req)
                                      (str_field p ''device_id'')
                                      (if approve then APPROVED else DENIED)
                                      (str_field p ''challenge_nonce'')
                                      (str_field p ''challenge_payload_sha256'') pk
                                      (if approve
                                       then from_hex (or_empty (dv_app_attest_public_key dev))
                                       else None)
                                      (if approve then counter else None)
                                      (cp_environments cp) (others 2 s2) of
                                     (Inl e, s3) \<Rightarrow> (Inl e, s3)
                                   | (Inr st, s3) \<Rightarrow>
                                       if st \<noteq> ''ok'' then (Inr (None, st), s3)
                                       else (Inr (Some (rq_id req,
                                               if approve then ''APPROVE'' else ''DENY''), ''ok''), s3)))))))"

section \<open>Lemmas\<close>

lemma check_decider_None:
  "check_decider X cp now kid p dev s = (None, s') \<Longrightarrow>
   s' = s \<and> dv_status dev = DEVICE_ACTIVE \<and> revoked_now X dev s = None \<and>
   \<not> environment_blocked cp dev \<and> dv_attestation dev = ATT_ATTESTED \<and> kid = dv_key_id dev \<and>
   str_field p ''key_id'' = dv_key_id dev"
  by (auto simp: check_decider_def Let_def split: if_splits option.splits)

lemma parse_decision_Inr:
  "parse_decision X payload_b64 signature_b64 = Inr (raw, p, sig) \<Longrightarrow>
   b64_decode payload_b64 = Some raw \<and> b64_decode signature_b64 = Some sig \<and>
   strict_parse (ox_loads X) raw = Inr p \<and> validate_decision_payload p = Inr ()"
  by (auto simp: parse_decision_def split: option.splits sum.splits)

text \<open>What an approval's second proof established.\<close>

definition assertion_proved :: "outside \<Rightarrow> control_plane \<Rightarrow> string \<Rightarrow> payload \<Rightarrow> device \<Rightarrow> string
    \<Rightarrow> string \<Rightarrow> bool" where
  "assertion_proved X cp raw p dev aid pk \<longleftrightarrow>
     (\<exists>v assertion aapk counter. ox_attest X = Some v \<and>
        from_hex (or_empty (dv_app_attest_public_key dev)) = Some aapk \<and>
        av_assertion v assertion
          (decision_client_data_hash (ox_sha256 X) (canonical_bytes (ox_float X)
             (build_decision_binding (cp_core cp) aid (str_field p ''device_id'')
                (sha256_hex (ox_sha256 X) raw) (str_field p ''challenge_nonce'')
                (fingerprint (ox_sha256 X) pk)))) aapk (dv_app_attest_counter dev) = Inr counter)"

lemma check_assertion_proved:
  "check_assertion X cp raw p dev req pk assertion_b64 = Inr (Inr counter) \<Longrightarrow>
   str_field p ''decision'' = DECISION_APPROVE \<Longrightarrow> assertion_proved X cp raw p dev (rq_id req) pk"
  by (auto simp: check_assertion_def assertion_proved_def Let_def
      split: option.splits if_splits sum.splits)

lemma submit_decision_ok:
  assumes "submit_decision X cp others now payload_b64 signature_b64 kid assertion_b64 s
      = (Inr (Some (aid, d), st), s')"
  shows "\<exists>raw p sig dev pk req vaapk counter approve. let s2 = others 1 (others 0 s) in
    parse_decision X payload_b64 signature_b64 = Inr (raw, p, sig) \<and>
    str_field p ''core_instance_id'' = cp_core cp \<and>
    get_device (str_field p ''device_id'') s = Some dev \<and> from_hex (dv_public_key dev) = Some pk \<and>
    ox_verify X pk sig raw \<and> get_request (str_field p ''approval_id'') s2 = Some req \<and>
    rq_id req = aid \<and> str_field p ''principal_id'' = rq_principal req \<and>
    str_field p ''action_digest'' = rq_digest req \<and>
    approve = (str_field p ''decision'' = DECISION_APPROVE) \<and>
    d = (if approve then ''APPROVE'' else ''DENY'') \<and>
    (approve \<longrightarrow> assertion_proved X cp raw p dev aid pk) \<and>
    commit_decision (ox_sha256 X) now aid (str_field p ''device_id'')
      (if approve then APPROVED else DENIED) (str_field p ''challenge_nonce'')
      (str_field p ''challenge_payload_sha256'') pk vaapk counter (cp_environments cp) (others 2 s2)
      = (Inr ''ok'', s')"
proof -
  obtain raw p sig where p: "parse_decision X payload_b64 signature_b64 = Inr (raw, p, sig)"
    using assms by (cases "parse_decision X payload_b64 signature_b64")
      (auto simp: submit_decision_def)
  have core: "str_field p ''core_instance_id'' = cp_core cp"
    using assms p by (auto simp: submit_decision_def split: if_splits)
  obtain dev where dev: "get_device (str_field p ''device_id'') s = Some dev"
    using assms p core by (auto simp: submit_decision_def split: option.splits)
  have cd: "check_decider X cp now kid p dev (others 0 s) = (None, others 0 s)"
    using assms p core dev check_decider_None
    by (auto simp: submit_decision_def split: option.splits prod.splits)
  obtain pk where pk: "from_hex (dv_public_key dev) = Some pk"
    using assms p core dev cd by (auto simp: submit_decision_def split: option.splits)
  have v: "ox_point X pk" "ox_verify X pk sig raw"
    using assms p core dev cd pk by (auto simp: submit_decision_def split: if_splits)
  define s2 where "s2 = others 1 (others 0 s)"
  obtain req where req: "get_request (str_field p ''approval_id'') s2 = Some req"
    using assms p core dev cd pk v
    by (auto simp: submit_decision_def Let_def s2_def split: option.splits)
  have rq: "rq_state req = PENDING" "str_field p ''principal_id'' = rq_principal req"
    "dv_principal dev = rq_principal req" "str_field p ''action_digest'' = rq_digest req"
    using assms p core dev cd pk v req
    by (auto simp: submit_decision_def Let_def s2_def split: if_splits)
  obtain counter where ca: "check_assertion X cp raw p dev req pk assertion_b64 = Inr (Inr counter)"
    using assms p core dev cd pk v req rq
    by (auto simp: submit_decision_def Let_def s2_def split: sum.splits)
  let ?approve = "str_field p ''decision'' = DECISION_APPROVE"
  have "rq_id req = aid \<and> d = (if ?approve then ''APPROVE'' else ''DENY'') \<and>
    commit_decision (ox_sha256 X) now (rq_id req) (str_field p ''device_id'')
      (if ?approve then APPROVED else DENIED) (str_field p ''challenge_nonce'')
      (str_field p ''challenge_payload_sha256'') pk
      (if ?approve then from_hex (or_empty (dv_app_attest_public_key dev)) else None)
      (if ?approve then counter else None) (cp_environments cp) (others 2 s2) = (Inr ''ok'', s')"
    using assms p core dev cd pk v req rq ca
    by (simp add: submit_decision_def Let_def s2_def split: prod.splits sum.splits if_splits)
  with p core dev pk v req rq check_assertion_proved [OF ca] show ?thesis
    unfolding Let_def s2_def [symmetric] by blast
qed

text \<open>What other connections do between two store calls: any run of the store's operations.\<close>

definition lawful :: "outside \<Rightarrow> interleaving \<Rightarrow> bool" where
  "lawful X others \<longleftrightarrow>
     (\<forall>i s. run (ox_sha256 X) (\<lambda>raw. binding_of (ox_loads X raw)) s (others i s))"

lemma lawful_inv: "lawful X others \<Longrightarrow> store_inv s \<Longrightarrow> store_inv (others i s)"
  unfolding lawful_def by (blast intro: run_inv_later)

lemma lawful_request:
  "lawful X others \<Longrightarrow> store_inv s \<Longrightarrow> get_request aid s = Some r \<Longrightarrow>
   \<exists>r'. get_request aid (others i s) = Some r' \<and> request_rel r r'"
  unfolding lawful_def by (blast intro: run_request)

lemma lawful_id: "lawful X (\<lambda>i s. s)"
  by (simp add: lawful_def reaches.start)

text \<open>
  C12: a submitted decision that takes effect is the human's, whatever other connections did in the
  meantime. The exact received bytes were signed by the approval key that is the device's at the
  moment of the commit, they name this core, this request, its principal and its action digest, the
  device then holds full authority, the challenge consumed was issued for exactly these and for the
  text the device displayed, an approval came with an App Attest assertion over these bytes, and
  the request is now decided as the payload says.
\<close>

theorem committed_decision_is_the_humans:
  assumes inv: "store_inv s" and law: "lawful X others"
    and ok: "submit_decision X cp others now payload_b64 signature_b64 kid assertion_b64 s
      = (Inr (Some (aid, d), st), s')"
  shows "\<exists>raw p sig pk dev req c. let sc = others 2 (others 1 (others 0 s)); did = str_field p ''device_id'' in
    parse_decision X payload_b64 signature_b64 = Inr (raw, p, sig) \<and> ox_verify X pk sig raw \<and>
    str_field p ''core_instance_id'' = cp_core cp \<and> str_field p ''approval_id'' = aid \<and>
    get_request aid sc = Some req \<and> rq_state req = PENDING \<and> now \<le> rq_expires req \<and>
    str_field p ''principal_id'' = rq_principal req \<and> str_field p ''action_digest'' = rq_digest req \<and>
    get_device did sc = Some dev \<and> holds_authority (ox_sha256 X) req dev (cp_environments cp) sc \<and>
    map_option (fingerprint (ox_sha256 X)) (from_hex (dv_public_key dev))
      = Some (fingerprint (ox_sha256 X) pk) \<and>
    get_challenge (str_field p ''challenge_nonce'') sc = Some c \<and>
    challenge_hit now aid did (rq_principal req) (rq_digest req)
      (str_field p ''challenge_payload_sha256'') c \<and>
    (d = ''APPROVE'' \<longrightarrow> (\<exists>dev0. assertion_proved X cp raw p dev0 aid pk)) \<and>
    get_request aid s' = Some (req\<lparr>rq_state := (if d = ''APPROVE'' then APPROVED else DENIED),
      rq_decided_at := Some now, rq_decided_device := Some did\<rparr>)"
proof -
  define s2 where "s2 = others 1 (others 0 s)"
  from submit_decision_ok [OF ok] obtain raw p sig dev0 pk req0 vaapk counter approve where
    1: "parse_decision X payload_b64 signature_b64 = Inr (raw, p, sig)"
      "str_field p ''core_instance_id'' = cp_core cp" "ox_verify X pk sig raw"
      "get_request (str_field p ''approval_id'') s2 = Some req0" "rq_id req0 = aid"
      "str_field p ''principal_id'' = rq_principal req0" "str_field p ''action_digest'' = rq_digest req0"
    and d: "d = (if approve then ''APPROVE'' else ''DENY'')"
    and as: "approve \<longrightarrow> assertion_proved X cp raw p dev0 aid pk"
    and c: "commit_decision (ox_sha256 X) now aid (str_field p ''device_id'')
      (if approve then APPROVED else DENIED) (str_field p ''challenge_nonce'')
      (str_field p ''challenge_payload_sha256'') pk vaapk counter (cp_environments cp) (others 2 s2)
      = (Inr ''ok'', s')"
    unfolding Let_def s2_def by blast
  have aid: "str_field p ''approval_id'' = aid" using 1(4,5) by (auto dest: by_key_SomeD)
  have inv2: "store_inv s2" unfolding s2_def by (intro lawful_inv [OF law] inv)
  have "store_inv (others 2 s2)" by (rule lawful_inv [OF law inv2])
  then have keys: "store_keys_distinct (others 2 s2)" by (simp add: store_inv_def)
  from decision_ok_effect [OF keys c] obtain req dev ch where
    2: "decision_checked (ox_sha256 X) now aid (str_field p ''device_id'')
        (if approve then APPROVED else DENIED) pk vaapk (cp_environments cp) req dev (others 2 s2)"
      "get_challenge (str_field p ''challenge_nonce'') (others 2 s2) = Some ch"
      "challenge_hit now aid (str_field p ''device_id'') (rq_principal req) (rq_digest req)
        (str_field p ''challenge_payload_sha256'') ch"
      "get_request aid s' = Some (req\<lparr>rq_state := (if approve then APPROVED else DENIED),
        rq_decided_at := Some now, rq_decided_device := Some (str_field p ''device_id'')\<rparr>)" by blast
  from lawful_request [OF law inv2 1(4), of 2] aid 2(1)
  have 3: "rq_principal req = rq_principal req0 \<and> rq_digest req = rq_digest req0"
    by (auto simp: request_rel_def decision_checked_def)
  have ap: "(if d = ''APPROVE'' then APPROVED else DENIED) = (if approve then APPROVED else DENIED)"
    "d = ''APPROVE'' \<longleftrightarrow> approve" using d by simp_all
  from 2(1) have 4: "get_request aid (others 2 s2) = Some req" "rq_state req = PENDING"
    "now \<le> rq_expires req" "get_device (str_field p ''device_id'') (others 2 s2) = Some dev"
    "holds_authority (ox_sha256 X) req dev (cp_environments cp) (others 2 s2)"
    "map_option (fingerprint (ox_sha256 X)) (from_hex (dv_public_key dev))
      = Some (fingerprint (ox_sha256 X) pk)"
    by (auto simp: decision_checked_def)
  show ?thesis
    unfolding Let_def s2_def [symmetric] ap
    by (rule exI [of _ raw], rule exI [of _ p], rule exI [of _ sig], rule exI [of _ pk],
        rule exI [of _ dev], rule exI [of _ req], rule exI [of _ ch],
        use 1(1,2,3,6,7) aid 2(2-4) 3 4 as in \<open>intro conjI\<close>)
      (simp_all, blast)
qed

definition demo_outside :: outside where
  "demo_outside = \<lparr>ox_sha256 = id_hash, ox_point = (\<lambda>_. True), ox_verify = (\<lambda>_ _ _. True),
     ox_sign = (\<lambda>raw. raw), ox_mac_key_id = ''mac'',
     ox_loads = (\<lambda>_. Object_root
       [(''protocol_version'', Jint 2), (''type'', Jstr ''approval_decision''),
        (''core_instance_id'', Jstr ''core''), (''approval_id'', Jstr ''a1''),
        (''action_digest'', Jstr ''dg''), (''principal_id'', Jstr ''owner''),
        (''device_id'', Jstr ''dev-1''), (''key_id'', Jstr ''k''), (''challenge_nonce'', Jstr ''n1''),
        (''challenge_payload_sha256'', Jstr ''sha''), (''decision'', Jstr ''DENY''),
        (''issued_at'', Jint 1), (''challenge_expires_at'', Jint 2)]),
     ox_float = (\<lambda>_. ''0.0''), ox_attest = None\<rparr>"

definition demo_plane :: control_plane where
  "demo_plane = \<lparr>cp_core = ''core'', cp_app_id = None, cp_challenge_ttl = 300, cp_request_ttl = 600,
     cp_enroll_ttl = 300, cp_attest_ttl = 300, cp_environments = [''production'']\<rparr>"

theorem committed_decision_is_the_humans_witness:
  "\<exists>r. get_request ''a1'' (snd (submit_decision demo_outside demo_plane (\<lambda>i s. s) 5 ''cA=='' ''cA=='' ''k''
     None demo_store)) = Some r \<and> rq_state r = DENIED"
proof -
  let ?r = "submit_decision demo_outside demo_plane (\<lambda>i s. s) 5 ''cA=='' ''cA=='' ''k'' None demo_store"
  have "fst ?r = Inr (Some (''a1'', ''DENY''), ''ok'')" by code_simp
  then have "?r = (Inr (Some (''a1'', ''DENY''), ''ok''), snd ?r)" by (metis prod.collapse)
  from committed_decision_is_the_humans [OF demo_inv(1) lawful_id this] show ?thesis
    by (auto simp: Let_def)
qed

text \<open>
  The requester is the untrusted model, so nothing it asks for is stored unless every text a
  human will be shown is safe to display; what is stored is pending, not yet decided, and carries
  the digest of exactly its own tool, mode, task and workspace. A refusal stores nothing.
\<close>

theorem stored_requests_are_displayable:
  assumes "create_request X cp now hex who tool mode task ws summary s = (r, s')"
  shows "case r of
      Inl e \<Rightarrow> s' = s
    | Inr aid \<Rightarrow> validate_action_display_fields tool mode task ws summary = Inr () \<and>
        get_request aid s = None \<and> (\<exists>q. get_request aid s' = Some q \<and> rq_state q = PENDING \<and>
          rq_decided_at q = None \<and> rq_principal q = who \<and> rq_task q = task \<and> rq_expires q = now + cp_request_ttl cp \<and>
          rq_digest q = action_digest (ox_sha256 X) (rq_tool q) (rq_mode q) (rq_task q) (rq_workspace q))"
proof -
  let ?aid = "''ap-'' @ hex"
  let ?q = "\<lparr>rq_id = ?aid, rq_principal = who, rq_tool = tool, rq_mode = mode, rq_task = task,
     rq_workspace = ws, rq_digest = action_digest (ox_sha256 X) tool mode task ws, rq_summary = summary,
     rq_state = PENDING, rq_created = now, rq_expires = now + cp_request_ttl cp, rq_decided_at = None,
     rq_decided_device = None, rq_error = None\<rparr>"
  show ?thesis
  proof (cases "validate_action_display_fields tool mode task ws summary")
    case (Inl e)
    with assms show ?thesis by (auto simp: create_request_def)
  next
    case ok: (Inr u)
    show ?thesis
    proof (cases "insert_pk rq_id ?q (st_requests s)")
      case (Inl e)
      with assms ok show ?thesis by (auto simp: create_request_def create_request_row_def Let_def)
    next
      case (Inr t)
      from Inr [unfolded insert_pk_Inr_iff]
      have t: "rq_id ?q \<notin> rq_id ` set (st_requests s)" "t = st_requests s @ [?q]"
        by blast+
      have "by_key rq_id ?aid t = Some ?q"
        unfolding t(2) using by_key_append_new [OF t(1)] by simp
      moreover have "by_key rq_id ?aid (st_requests s) = None"
        using t(1) by (simp add: by_key_None_iff)
      ultimately show ?thesis
        using assms ok Inr by (auto simp: create_request_def create_request_row_def Let_def)
    qed
  qed
qed

theorem stored_requests_are_displayable_witness:
  "snd (create_request demo_outside demo_plane 1 ''00'' ''owner'' ''t'' ''m'' [CHR 0x0D] [] [] demo_store)
     = demo_store"
proof -
  let ?r = "create_request demo_outside demo_plane 1 ''00'' ''owner'' ''t'' ''m'' [CHR 0x0D] [] [] demo_store"
  have "code_points [CHR 0x0D] = [13]" by code_simp
  then have "validate_action_display_fields ''t'' ''m'' [CHR 0x0D] [] [] \<noteq> Inr ()"
    unfolding validate_action_display_Inr by (simp add: display_safe_def)
  then obtain e where "validate_action_display_fields ''t'' ''m'' [CHR 0x0D] [] [] = Inl e"
    by (cases "validate_action_display_fields ''t'' ''m'' [CHR 0x0D] [] []") auto
  then have e: "fst ?r = Inl e" by (simp add: create_request_def)
  have "?r = (fst ?r, snd ?r)" by simp
  from stored_requests_are_displayable [OF this] e show ?thesis by simp
qed

lemma add_challenge_open:
  assumes "b \<in> set (update_where (\<lambda>c. ch_approval c = aid \<and> \<not> ch_consumed c)
    (\<lambda>c. c\<lparr>ch_consumed := True\<rparr>) t)"
  shows "\<not> (ch_approval b = aid \<and> \<not> ch_consumed b)"
proof -
  from assms obtain r where
    "b = (if ch_approval r = aid \<and> \<not> ch_consumed r then r\<lparr>ch_consumed := True\<rparr> else r)"
    unfolding set_update_where by (rule imageE)
  then show ?thesis by (cases "ch_approval r = aid \<and> \<not> ch_consumed r") simp_all
qed

lemma add_challenge_Inr:
  assumes "add_challenge now n aid did who dg e psha s = (Inr u, s')"
  shows "\<exists>c. get_challenge n s' = Some c \<and> \<not> ch_consumed c \<and> ch_approval c = aid \<and> ch_device c = did \<and>
      ch_principal c = who \<and> ch_digest c = dg \<and> ch_payload_sha256 c = psha \<and> ch_expires c = e \<and>
      (\<forall>b\<in>set (st_challenges s'). ch_approval b = aid \<and> \<not> ch_consumed b \<longrightarrow> b = c)"
proof -
  let ?c = "\<lparr>ch_nonce = n, ch_approval = aid, ch_device = did, ch_principal = who, ch_digest = dg,
     ch_issued = now, ch_expires = e, ch_consumed = False, ch_payload_sha256 = psha\<rparr>"
  let ?t = "update_where (\<lambda>c. ch_approval c = aid \<and> \<not> ch_consumed c) (\<lambda>c. c\<lparr>ch_consumed := True\<rparr>)
     (st_challenges s)"
  from assms obtain t where t: "insert_pk ch_nonce ?c ?t = Inr t" and s': "st_challenges s' = t"
    by (auto simp: add_challenge_def atomically_Inr_iff Let_def split: sum.splits)
  from t [unfolded insert_pk_Inr_iff] have u: "ch_nonce ?c \<notin> ch_nonce ` set ?t" "t = ?t @ [?c]"
    by blast+
  have "by_key ch_nonce n t = Some ?c" unfolding u(2) using by_key_append_new [OF u(1)] by simp
  moreover have "\<forall>b\<in>set t. ch_approval b = aid \<and> \<not> ch_consumed b \<longrightarrow> b = ?c"
  proof (intro ballI impI)
    fix b assume "b \<in> set t" and b: "ch_approval b = aid \<and> \<not> ch_consumed b"
    then have "b \<in> set ?t \<or> b = ?c" unfolding u(2) by (simp only: set_append Un_iff) simp
    with add_challenge_open [of b aid "st_challenges s"] b show "b = ?c" by blast
  qed
  ultimately show ?thesis unfolding s' by (intro exI [of _ ?c] conjI) simp_all
qed

text \<open>
  A challenge that is issued shows the human exactly the stored action. The signed bytes are the
  challenge payload of the pending request's own task, tool, mode, workspace and digest for this
  device, the stored challenge carries the hash of exactly these bytes, it is the only open one of
  the request, and the device was active, attested, unrevoked, of the same principal and in an
  allowed environment.
\<close>

theorem issued_challenge_shows_the_stored_action:
  assumes "issue_challenge X cp others now nonce aid did s = (Inr (Some sc, st), s')"
  shows "\<exists>req dev raw c. get_request aid s = Some req \<and> rq_state req = PENDING \<and> now \<le> rq_expires req \<and>
    get_device did (others 0 s) = Some dev \<and> dv_status dev = DEVICE_ACTIVE \<and>
    dv_attestation dev = ATT_ATTESTED \<and> \<not> environment_blocked cp dev \<and>
    revoked_now X dev (others 1 (others 0 s)) = None \<and> dv_principal dev = rq_principal req \<and>
    raw = canonical_bytes (ox_float X) (build_challenge_payload (cp_core cp) aid (rq_digest req)
      (rq_principal req) did (rq_tool req) (rq_mode req) (rq_workspace req) (rq_task req)
      (rq_summary req) nonce now (now + cp_challenge_ttl cp)) \<and>
    b64_decode (sc_payload_b64 sc) = Some raw \<and> b64_decode (sc_signature_b64 sc) = Some (ox_sign X raw) \<and>
    get_challenge nonce s' = Some c \<and> \<not> ch_consumed c \<and> ch_device c = did \<and>
    ch_digest c = rq_digest req \<and> ch_payload_sha256 c = sha256_hex (ox_sha256 X) raw \<and>
    (\<forall>b\<in>set (st_challenges s'). ch_approval b = aid \<and> \<not> ch_consumed b \<longrightarrow> b = c)"
proof -
  from assms obtain req where req: "get_request aid s = Some req" "rq_state req = PENDING"
    "now \<le> rq_expires req"
    by (auto simp: issue_challenge_def Let_def split: option.splits if_splits)
  with assms obtain dev where dev: "get_device did (others 0 s) = Some dev"
    by (auto simp: issue_challenge_def Let_def split: option.splits if_splits)
  have ok: "dv_status dev = DEVICE_ACTIVE" "dv_attestation dev = ATT_ATTESTED"
    "revoked_now X dev (others 1 (others 0 s)) = None" "\<not> environment_blocked cp dev"
    "dv_principal dev = rq_principal req"
    using assms req dev by (auto simp: issue_challenge_def Let_def split: if_splits)
  let ?raw = "canonical_bytes (ox_float X) (build_challenge_payload (cp_core cp) aid (rq_digest req)
      (rq_principal req) did (rq_tool req) (rq_mode req) (rq_workspace req) (rq_task req)
      (rq_summary req) nonce now (now + cp_challenge_ttl cp))"
  from assms req dev ok obtain u where
    add: "add_challenge now nonce aid did (rq_principal req) (rq_digest req) (now + cp_challenge_ttl cp)
      (sha256_hex (ox_sha256 X) ?raw) (others 2 (others 1 (others 0 s))) = (Inr u, s')"
    and sc: "sc_payload_b64 sc = b64_encode ?raw" "sc_signature_b64 sc = b64_encode (ox_sign X ?raw)"
    by (auto simp: issue_challenge_def Let_def split: prod.splits sum.splits)
  from add_challenge_Inr [OF add] obtain c where
    "get_challenge nonce s' = Some c" "\<not> ch_consumed c" "ch_device c = did" "ch_digest c = rq_digest req"
    "ch_payload_sha256 c = sha256_hex (ox_sha256 X) ?raw"
    "\<forall>b\<in>set (st_challenges s'). ch_approval b = aid \<and> \<not> ch_consumed b \<longrightarrow> b = c" by blast
  with req dev ok sc show ?thesis
    by (intro exI [of _ req], intro exI [of _ dev], intro exI [of _ ?raw], intro exI [of _ c])
      (simp add: b64_decode_encode)
qed

theorem issued_challenge_shows_the_stored_action_witness:
  "\<exists>c. get_challenge ''n2'' (snd (issue_challenge demo_outside demo_plane (\<lambda>i s. s) 5 ''n2'' ''a1'' ''dev-1''
     demo_store)) = Some c \<and> \<not> ch_consumed c"
proof -
  let ?r = "issue_challenge demo_outside demo_plane (\<lambda>i s. s) 5 ''n2'' ''a1'' ''dev-1'' demo_store"
  have "map_option snd (case fst ?r of Inr (Some sc, st) \<Rightarrow> Some (sc, st) | _ \<Rightarrow> None) = Some ''ok''"
    by (simp add: issue_challenge_def demo_defs by_key_Cons revoked_now_def demo_plane_def
        environment_blocked_def identities_of_def is_revoked_def revoked_pair_def Let_def
        add_challenge_def insert_pk_def update_where_def demo_outside_def del: from_hex.simps
        split: option.split)
  then obtain sc where "fst ?r = Inr (Some sc, ''ok'')"
    by (auto split: sum.splits option.splits prod.splits)
  then have "?r = (Inr (Some sc, ''ok''), snd ?r)" by (metis prod.collapse)
  from issued_challenge_shows_the_stored_action [OF this] show ?thesis by blast
qed

end
