(* ===== verification/Coordinator.thy ===== *)
theory Coordinator
  imports Control_Plane
begin

text \<open>
  \<open>security/mobile_approval/bridge.py\<close>: the coordinator that feeds a verified decision into the
  S1 broker, runs an approved action behind the durable boundary, and recovers interrupted
  attempts. The broker and the confirmations live in memory and are used in one stretch without an
  await; the database is shared, so \<open>others i\<close> is what other connections do to it at the
  i-th await and \<open>clock i\<close> is the time read there. The executor and the reconciler are parameters;
  every call of the executor is part of the result, so that the theorems can count them.
\<close>

section \<open>The trusted approver\<close>

type_synonym confirmations = "string \<rightharpoonup> string \<times> string"

definition confirm :: "string \<Rightarrow> string \<Rightarrow> string \<Rightarrow> confirmations \<Rightarrow> confirmations" where
  "confirm aid who digest c = c(aid \<mapsto> (who, digest))"

definition revoke_confirmation :: "string \<Rightarrow> confirmations \<Rightarrow> confirmations" where
  "revoke_confirmation aid c = c(aid := None)"

definition is_confirmed :: "string \<Rightarrow> confirmations \<Rightarrow> bool" where
  "is_confirmed aid c \<longleftrightarrow> c aid \<noteq> None"

definition is_trusted :: "confirmations \<Rightarrow> approver" where
  "is_trusted c r identity =
     (case c identity of None \<Rightarrow> False
      | Some (who, digest) \<Rightarrow> ap_principal r = who \<and> ap_digest r = digest)"

record coordinator =
  co_broker :: broker
  co_confirmed :: confirmations
  co_store :: store

definition claim_lease_seconds :: time where "claim_lease_seconds = 120"
definition recovery_lease_seconds :: time where "recovery_lease_seconds = 120"

definition request_codex_modify :: "outside \<Rightarrow> control_plane \<Rightarrow> time \<Rightarrow> string \<Rightarrow> string \<Rightarrow> string
    \<Rightarrow> string \<Rightarrow> string \<Rightarrow> coordinator \<Rightarrow> approval_id result \<times> coordinator" where
  "request_codex_modify X cp now hex who task workspace summary co =
     (case create_request X cp now hex who ''codex_task'' ''modify'' task workspace summary
             (co_store co) of
        (r, s) \<Rightarrow> (r, co\<lparr>co_store := s\<rparr>))"

definition apply_mobile_decision :: "outside \<Rightarrow> control_plane \<Rightarrow> interleaving \<Rightarrow> time \<Rightarrow> string
    \<Rightarrow> string \<Rightarrow> string \<Rightarrow> string option \<Rightarrow> coordinator
    \<Rightarrow> ((string \<times> string) option \<times> string) result \<times> coordinator" where
  "apply_mobile_decision X cp others now payload_b64 signature_b64 kid assertion_b64 co =
     (case submit_decision X cp others now payload_b64 signature_b64 kid assertion_b64
             (co_store co) of
        (Inr (Some (aid, d), st), s) \<Rightarrow>
          (let s1 = others 3 s in
           if st = ''ok'' \<and> d = ''APPROVE'' then
             (case get_request aid s1 of
                None \<Rightarrow> (Inl TypeError, co\<lparr>co_store := s1\<rparr>)
              | Some req \<Rightarrow> (Inr (Some (aid, d), st),
                  co\<lparr>co_store := s1,
                     co_confirmed := confirm aid (rq_principal req) (rq_digest req) (co_confirmed co)\<rparr>))
           else (Inr (Some (aid, d), st), co\<lparr>co_store := s\<rparr>))
      | (r, s) \<Rightarrow> (r, co\<lparr>co_store := s\<rparr>))"

section \<open>Running an approved action\<close>

text \<open>What the injected executor is given, and how its call can end.\<close>

record exec_payload =
  ep_tool :: string
  ep_mode :: string
  ep_task :: string
  ep_workspace :: string
  ep_digest :: string
  ep_execution :: string
  ep_idempotency :: string
  ep_semantics :: semantics_text

datatype exec_outcome = Returned bool string | Safe_failure string | Raised string

type_synonym 'p executor = "'p \<Rightarrow> exec_outcome"

record execution_done =
  ed_info :: string
  ed_execution :: string

text \<open>
  What is recorded of an outcome: the status, the detail, the new request state, and what the caller
  is told when there is no success.
\<close>

definition verdict :: "exec_outcome \<Rightarrow> string \<Rightarrow> string option \<Rightarrow> attempt_status \<times> string option \<times> request_state option \<times> string" where
  "verdict oc who done_text = (case oc of
       Safe_failure msg \<Rightarrow> (FAILED_SAFE, Some (''safe_failure:'' @ msg), Some FAILED, ''failed_safe'')
     | Raised cls \<Rightarrow> (UNKNOWN, Some (who @ '':'' @ cls), None, ''unknown_outcome'')
     | Returned True _ \<Rightarrow> (SUCCEEDED, done_text, Some CONSUMED, ''ok'')
     | Returned False info \<Rightarrow> (UNKNOWN, Some (take 200 info), None, ''unknown_outcome''))"

definition run_attempt :: "interleaving \<Rightarrow> (nat \<Rightarrow> time) \<Rightarrow> string \<Rightarrow> string \<Rightarrow> identity list \<Rightarrow> approval
    \<Rightarrow> exec_payload executor \<Rightarrow> semantics_text \<Rightarrow> string \<Rightarrow> store
    \<Rightarrow> (execution_done option \<times> string) result \<times> exec_payload list \<times> store" where
  "run_attempt others clock att eid identities action executor sem idem s =
     (case begin_external (clock 2) att identities s of
        (Inl e, s1) \<Rightarrow> (Inl e, [], s1)
      | (Inr bst, s1) \<Rightarrow>
          if bst \<noteq> ''ok'' then
            (let s2 = others 4 s1 in
             case open_attempt_by_id att s2 of
               None \<Rightarrow> (Inr (None, bst), [], s2)
             | Some _ \<Rightarrow>
                 (case finish_execution_attempt (clock 3) att ABANDONED (Some bst) (Some FAILED) None
                         (others 5 s2) of
                    (Inl e, s3) \<Rightarrow> (Inl e, [], s3)
                  | (Inr _, s3) \<Rightarrow> (Inr (None, bst), [], s3)))
          else
            (let payload = \<lparr>ep_tool = ap_tool action, ep_mode = ap_mode action,
                   ep_task = ap_task action, ep_workspace = ap_workspace action,
                   ep_digest = ap_digest action, ep_execution = eid, ep_idempotency = idem,
                   ep_semantics = sem\<rparr>;
                 oc = executor payload; s2 = others 4 s1
             in case verdict oc ''executor'' None of (st, detail, rs, told) \<Rightarrow>
                (case finish_execution_attempt (clock 3) att st detail rs None s2 of
                   (Inl e, s3) \<Rightarrow> (Inl e, [payload], s3)
                 | (Inr fst', s3) \<Rightarrow>
                     (case oc of
                        Returned True info \<Rightarrow>
                          if fst' \<noteq> ''ok'' then (Inr (None, ''outcome_'' @ fst'), [payload], s3)
                          else (Inr (Some \<lparr>ed_info = info, ed_execution = eid\<rparr>, ''ok''), [payload], s3)
                      | _ \<Rightarrow> (Inr (None, told), [payload], s3)))))"

definition shift :: "nat \<Rightarrow> interleaving \<Rightarrow> interleaving" where
  "shift k others = (\<lambda>i. others (i + k))"

text \<open>\<open>mclock\<close> is the monotonic clock the broker reads, \<open>token\<close> the id it draws for a new gate.\<close>

definition execute_approved :: "outside \<Rightarrow> control_plane \<Rightarrow> interleaving \<Rightarrow> (nat \<Rightarrow> time) \<Rightarrow> time \<Rightarrow> string
    \<Rightarrow> string \<Rightarrow> string \<Rightarrow> approval_id \<Rightarrow> exec_payload executor \<Rightarrow> coordinator
    \<Rightarrow> (execution_done option \<times> string) result \<times> exec_payload list \<times> coordinator" where
  "execute_approved X cp others clock mclock token now_repr owner aid executor co =
     (let H = ox_sha256 X; refuse = (\<lambda>why c. (Inr (None, why), [], c)) in
      case get_request aid (co_store co) of
        None \<Rightarrow> refuse ''not_approved'' co
      | Some req \<Rightarrow>
      if rq_state req \<noteq> APPROVED then refuse ''not_approved'' co
      else case execution_id_for H (cp_core cp) aid of Inl e \<Rightarrow> (Inl e, [], co) | Inr eid \<Rightarrow>
      (case idempotency_key_for H eid (rq_tool req) of Inl e \<Rightarrow> (Inl e, [], co) | Inr idem \<Rightarrow>
      (case broker_request H mclock token (rq_principal req) (rq_tool req) (rq_task req)
              (rq_workspace req) (rq_mode req) (co_broker co) of
         (Inl e, b) \<Rightarrow> (Inl e, [], co\<lparr>co_broker := b\<rparr>)
       | (Inr gate, b) \<Rightarrow>
      (case broker_approve (Some (is_trusted (co_confirmed co))) mclock (ap_id gate) aid
              (ap_digest gate) b of
         ((_, st), b1) \<Rightarrow>
         if st \<noteq> ''ok'' then refuse (''s1_'' @ st) (co\<lparr>co_broker := b1\<rparr>)
         else (case broker_take_approved mclock (ap_id gate) (Some (rq_tool req)) b1 of
           ((None, st), b2) \<Rightarrow> refuse (''s1_take_'' @ st) (co\<lparr>co_broker := b2\<rparr>)
         | ((Some action, _), b2) \<Rightarrow>
             let spent = co\<lparr>co_broker := b2, co_confirmed := revoke_confirmation aid (co_confirmed co)\<rparr>
             in (case execution_preflight X cp (shift 1 others) (clock 0) aid (rq_decided_device req)
                    (others 0 (co_store co)) of
               (Inl why, s1) \<Rightarrow> refuse why (spent\<lparr>co_store := s1\<rparr>)
             | (Inr identities, s1) \<Rightarrow>
                 (case claim_execution_attempt H (clock 1) now_repr aid
                        (or_empty (rq_decided_device req)) identities eid (rq_tool req)
                        (Sem (semantics_for (rq_tool req))) idem owner claim_lease_seconds
                        (Some (cp_core cp)) (others 2 s1) of
                   (Inl e, s2) \<Rightarrow> (Inl e, [], co\<lparr>co_broker := b2, co_store := s2\<rparr>)
                 | (Inr (None, why), s2) \<Rightarrow> refuse why (spent\<lparr>co_store := s2\<rparr>)
                 | (Inr (Some att, _), s2) \<Rightarrow>
                     (case run_attempt others clock att eid identities action executor
                             (Sem (semantics_for (rq_tool req))) idem (others 3 s2) of
                        (r, calls, s3) \<Rightarrow> (r, calls, spent\<lparr>co_store := s3\<rparr>)))))))))"

section \<open>Recovery\<close>

record recovery_entry =
  re_attempt :: string
  re_execution :: string
  re_approval :: string
  re_capability :: string
  re_semantics :: semantics_text
  re_status :: attempt_status
  re_decision :: recovery
  re_detail :: "string option"

record scan_summary =
  sm_open :: nat
  sm_closed :: nat
  sm_attention :: "recovery_entry list"
  sm_retryable :: "recovery_entry list"
  sm_reconcilable :: "recovery_entry list"
  sm_contended :: "recovery_entry list"

definition scan_entry :: "attempt \<Rightarrow> recovery_entry" where
  "scan_entry row = \<lparr>re_attempt = at_id row, re_execution = at_execution row,
     re_approval = at_approval row, re_capability = at_capability row,
     re_semantics = at_semantics row, re_status = at_status row,
     re_decision = recovery_decision (at_status row) (at_semantics row), re_detail = None\<rparr>"

definition contend :: "recovery_entry \<Rightarrow> string \<Rightarrow> scan_summary \<Rightarrow> scan_summary" where
  "contend en detail sm = sm\<lparr>sm_contended := sm_contended sm @ [en\<lparr>re_detail := Some detail\<rparr>]\<rparr>"

text \<open>One row of the scan; three awaits, so three chances for other connections.\<close>

definition scan_row :: "interleaving \<Rightarrow> time \<Rightarrow> string \<Rightarrow> attempt \<Rightarrow> scan_summary \<Rightarrow> store
    \<Rightarrow> scan_summary result \<times> store" where
  "scan_row others now owner row sm s =
     (let en = scan_entry row; decision = re_decision en in
      if decision = RETRY_SAME_KEY
      then (Inr (sm\<lparr>sm_retryable := sm_retryable sm @ [en]\<rparr>), s)
      else if decision = RECONCILE_FIRST
      then (Inr (sm\<lparr>sm_reconcilable := sm_reconcilable sm @ [en]\<rparr>), s)
      else if decision \<noteq> CLOSED_NO_EFFECT
      then (Inr (sm\<lparr>sm_attention := sm_attention sm @ [en]\<rparr>), s)
      else case acquire_recovery_lease now (at_id row) owner recovery_lease_seconds (others 0 s) of
        (Inl e, s1) \<Rightarrow> (Inl e, s1)
      | (Inr lst, s1) \<Rightarrow>
          if lst \<noteq> ''ok'' then (Inr (contend en ''recovery_lease_held'' sm), s1)
          else let s2 = others 1 s1 in
          (case open_attempt_by_id (at_id row) s2 of
             None \<Rightarrow> (Inr (contend en ''closed_by_someone_else'' sm), s2)
           | Some fresh \<Rightarrow>
               if at_status fresh \<noteq> at_status row
               then (Inr (sm\<lparr>sm_attention := sm_attention sm @ [en\<lparr>re_status := at_status fresh,
                        re_decision := recovery_decision (at_status fresh) (at_semantics row),
                        re_detail := Some (''moved '' @ status_name (at_status row) @ '' -> '' @
                          status_name (at_status fresh) @ '' during the scan'')\<rparr>]\<rparr>), s2)
               else (case finish_execution_attempt now (at_id row) ABANDONED
                       (Some ''startup recovery: no external effect took place'') (Some FAILED)
                       (Some (at_status row)) (others 2 s2) of
                  (Inl e, s3) \<Rightarrow> (Inl e, s3)
                | (Inr st, s3) \<Rightarrow>
                    if st = ''ok'' then (Inr (sm\<lparr>sm_closed := sm_closed sm + 1\<rparr>), s3)
                    else (Inr (contend en st sm), s3))))"

fun scan_rows :: "interleaving \<Rightarrow> time \<Rightarrow> string \<Rightarrow> attempt list \<Rightarrow> scan_summary \<Rightarrow> store
    \<Rightarrow> scan_summary result \<times> store" where
  "scan_rows others now owner [] sm s = (Inr sm, s)"
| "scan_rows others now owner (row # rows) sm s =
     (case scan_row others now owner row sm s of
        (Inl e, s') \<Rightarrow> (Inl e, s')
      | (Inr sm', s') \<Rightarrow> scan_rows (shift 3 others) now owner rows sm' s')"

definition scan_text :: "scan_summary \<Rightarrow> string" where
  "scan_text sm = ''open='' @ decimal (sm_open sm) @ '' closed='' @ decimal (sm_closed sm) @
     '' attention='' @ decimal (length (sm_attention sm)) @
     '' retryable='' @ decimal (length (sm_retryable sm)) @
     '' reconcilable='' @ decimal (length (sm_reconcilable sm)) @
     '' contended='' @ decimal (length (sm_contended sm))"

definition startup_recovery_scan :: "interleaving \<Rightarrow> time \<Rightarrow> string \<Rightarrow> store
    \<Rightarrow> scan_summary result \<times> store" where
  "startup_recovery_scan others now owner s =
     (let rows = open_execution_attempts s;
          sm = \<lparr>sm_open = length rows, sm_closed = 0, sm_attention = [], sm_retryable = [],
                sm_reconcilable = [], sm_contended = []\<rparr>
      in case scan_rows (shift 1 others) now owner rows sm s of
           (Inl e, s') \<Rightarrow> (Inl e, s')
         | (Inr sm', s') \<Rightarrow> (Inr sm', audit now ''startup_recovery_scan'' None None
                             (Some (scan_text sm')) None (others 0 s')))"


record retry_payload =
  yp_tool :: string
  yp_execution :: string
  yp_idempotency :: string
  yp_semantics :: semantics_text

record recovery_report =
  rp_execution :: string
  rp_attempt :: "attempt option"
  rp_decision :: recovery
  rp_reconciled :: "bool option"
  rp_info :: "string option"

text \<open>
  \<open>_authority_for_retry\<close>: \<open>None\<close> lets the retry go ahead, a refusal parks the attempt as UNKNOWN.
\<close>

definition authority_for_retry :: "outside \<Rightarrow> control_plane \<Rightarrow> interleaving \<Rightarrow> time \<Rightarrow> attempt \<Rightarrow> store
    \<Rightarrow> string option result \<times> store" where
  "authority_for_retry X cp others now row s =
     (case recheck_execution_authority (ox_sha256 X) now (at_id row) (cp_environments cp)
             (Some (cp_core cp)) s of
        (Inl e, s1) \<Rightarrow> (Inl e, s1)
      | (Inr rst, s1) \<Rightarrow>
          if rst = ''ok'' then (Inr None, s1)
          else if at_status row \<noteq> UNKNOWN then
            (case finish_execution_attempt now (at_id row) UNKNOWN (Some (''retry refused: '' @ rst))
                    None None (others 0 s1) of
               (Inl e, s2) \<Rightarrow> (Inl e, s2)
             | (Inr _, s2) \<Rightarrow> (Inr (Some (''retry_refused:'' @ rst)), s2))
          else (Inr (Some (''retry_refused:'' @ rst)), s1))"

text \<open>\<open>await finish(...)\<close> with its answer dropped, then the given reply.\<close>

definition finish_then :: "time \<Rightarrow> string \<Rightarrow> attempt_status \<Rightarrow> string option \<Rightarrow> request_state option
    \<Rightarrow> 'r \<Rightarrow> store \<Rightarrow> 'r result \<times> store" where
  "finish_then now att st detail rs reply s =
     (case finish_execution_attempt now att st detail rs None s of
        (Inl e, s') \<Rightarrow> (Inl e, s') | (Inr _, s') \<Rightarrow> (Inr reply, s'))"

definition retry_attempt :: "outside \<Rightarrow> control_plane \<Rightarrow> interleaving \<Rightarrow> time \<Rightarrow> attempt \<Rightarrow> recovery_report
    \<Rightarrow> retry_payload executor \<Rightarrow> store
    \<Rightarrow> (recovery_report option \<times> string) result \<times> retry_payload list \<times> store" where
  "retry_attempt X cp others now row out executor s =
     (case authority_for_retry X cp others now row s of
        (Inl e, s1) \<Rightarrow> (Inl e, [], s1)
      | (Inr (Some refusal), s1) \<Rightarrow> (Inr (None, refusal), [], s1)
      | (Inr None, s1) \<Rightarrow>
          let payload = \<lparr>yp_tool = at_capability row, yp_execution = rp_execution out,
                yp_idempotency = at_idempotency_key row, yp_semantics = at_semantics row\<rparr>;
              oc = executor payload; s2 = others 1 s1
          in case verdict oc ''retry'' (Some ''recovery retry'') of (st, detail, rs, told) \<Rightarrow>
             (case finish_then now (at_id row) st detail rs
                 (case oc of
                    Returned True info \<Rightarrow> (Some (out\<lparr>rp_info := Some info\<rparr>), ''retried_succeeded'')
                  | _ \<Rightarrow> (None, told)) s2 of
                (r, s3) \<Rightarrow> (r, [payload], s3)))"

definition recover_execution :: "outside \<Rightarrow> control_plane \<Rightarrow> interleaving \<Rightarrow> time \<Rightarrow> string
    \<Rightarrow> retry_payload executor option \<Rightarrow> (string \<Rightarrow> bool) option \<Rightarrow> approval_id \<Rightarrow> store
    \<Rightarrow> (recovery_report option \<times> string) result \<times> retry_payload list \<times> store" where
  "recover_execution X cp others now owner executor reconciler aid s =
     (case execution_id_for (ox_sha256 X) (cp_core cp) aid of Inl e \<Rightarrow> (Inl e, [], s) | Inr eid \<Rightarrow>
      (let report = \<lparr>rp_execution = eid, rp_attempt = None, rp_decision = NO_ACTION_SUCCEEDED,
             rp_reconciled = None, rp_info = None\<rparr>;
           no_call = (\<lambda>(r, t). (r, [], t))
       in case open_attempt_for eid s of
        None \<Rightarrow>
          let s1 = others 0 s in
          if list_ex (\<lambda>a. at_status a = SUCCEEDED) (attempts_for eid s1)
          then (Inr (Some report, ''already_succeeded''), [], s1)
          else (Inr (None, ''no_open_attempt''), [], s1)
      | Some row \<Rightarrow>
        (case acquire_recovery_lease now (at_id row) owner recovery_lease_seconds (others 0 s) of
          (Inl e, s1) \<Rightarrow> (Inl e, [], s1)
        | (Inr lst, s1) \<Rightarrow>
          if lst \<noteq> ''ok'' then (Inr (None, ''recovery_lease_held''), [], s1)
          else
          let decision = recovery_decision (at_status row) (at_semantics row);
              out = report\<lparr>rp_attempt := Some row, rp_decision := decision\<rparr>;
              s2 = others 1 s1
          in case decision of
               NO_ACTION_SUCCEEDED \<Rightarrow> (Inr (Some out, ''already_succeeded''), [], s2)
             | MANUAL_RECOVERY_REQUIRED \<Rightarrow>
                 if at_status row \<noteq> UNKNOWN
                 then no_call (finish_then now (at_id row) UNKNOWN
                        (Some ''recovery: outcome unknown, manual recovery required'') None
                        (Some out, ''manual_recovery_required'') s2)
                 else (Inr (Some out, ''manual_recovery_required''), [], s2)
             | CLOSED_NO_EFFECT \<Rightarrow>
                 no_call (finish_then now (at_id row) ABANDONED
                   (Some ''recovery: no external effect took place'') (Some FAILED)
                   (Some out, ''closed_no_effect'') s2)
             | RECONCILE_FIRST \<Rightarrow>
                 (case reconciler of
                    None \<Rightarrow> (Inr (Some out, ''reconciler_required''), [], s2)
                  | Some happened \<Rightarrow>
                      if happened eid
                      then no_call (finish_then now (at_id row) SUCCEEDED
                             (Some ''recovery: reconciled as already executed'') (Some CONSUMED)
                             (Some (out\<lparr>rp_reconciled := Some True\<rparr>), ''reconciled_succeeded'')
                             (others 2 s2))
                      else no_call (finish_then now (at_id row) ABANDONED
                             (Some ''recovery: reconciled as not executed'') (Some FAILED)
                             (Some (out\<lparr>rp_reconciled := Some False\<rparr>), ''reconciled_not_executed'')
                             (others 2 s2)))
             | RETRY_SAME_KEY \<Rightarrow>
                 (case executor of
                    None \<Rightarrow> (Inr (Some out, ''executor_required''), [], s2)
                  | Some ex \<Rightarrow> retry_attempt X cp (shift 2 others) now row out ex s2))))"

end
