(* ===== verification/Coordinator_Safety.thy ===== *)
theory Coordinator_Safety
  imports Coordinator
begin

text \<open>
  What the coordinator promises: what an executor is ever given, what is recorded of how it ended,
  and what the two recovery paths may conclude, with other connections at work at every await.
\<close>

section \<open>Outcomes\<close>

lemma finish_refused_keeps:
  assumes keys: "store_keys_distinct s" and a: "get_attempt att s = Some a"
    and f: "finish_body now att st detail rs expected s = Inr (out, s')" and "out \<noteq> ''ok''"
  shows "get_attempt att s' = Some a"
proof -
  from finish_body_refused [OF f \<open>out \<noteq> ''ok''\<close>] obtain aid dev s1 where
    s': "s' = audit now ''execution_rejected'' aid dev (Some out) None s1"
    and "s1 = s \<or> (\<exists>(b :: attempt) h. is_open (at_status b) \<and>
      update_attempt att (at_status b) (finished_row now st detail) s = Inr (h, s1))" by blast
  show ?thesis
  proof (cases "at_status a \<in> set TERMINAL_STATUSES \<or> expected \<noteq> None \<and> Some (at_status a) \<noteq> expected")
    case True
    with f a show ?thesis by (auto simp: finish_body_def Let_def exec_deny_def split: if_splits)
  next
    case False
    have hit: "rowcount (\<lambda>b. at_id b = att \<and> at_status b = at_status a) (st_attempts s) = 1"
      using keys rowcount_key_1 [OF _ a, of "\<lambda>b. at_status b = at_status a"]
      by (simp add: store_keys_distinct_def)
    from f a False hit \<open>out \<noteq> ''ok''\<close> have False
      by (cases rs) (auto simp: finish_body_def Let_def dest!: update_attempt_Inr(2)
          split: if_splits sum.splits)
    then show ?thesis ..
  qed
qed

text \<open>An outcome is either written as it was given, or the attempt stays as it was found.\<close>

lemma finish_row:
  assumes keys: "store_keys_distinct s" and a: "get_attempt att s = Some a"
    and f: "finish_execution_attempt now att st detail rs expected s = (Inr out, s')"
  shows "get_attempt att s' = Some (if out = ''ok'' then finished_row now st detail a else a)"
proof (cases "finish_body now att st detail rs expected s")
  case (Inl e)
  with a f show ?thesis
    by (cases e) (auto simp: finish_execution_attempt_def finish_attempt_def Let_def split: if_splits)
next
  case (Inr r)
  then obtain o1 t where r: "finish_body now att st detail rs expected s = Inr (o1, t)"
    by (cases r) auto
  with f have eq: "o1 = out" "t = s'"
    by (auto simp: finish_execution_attempt_def finish_attempt_def Let_def split: if_splits)
  show ?thesis
  proof (cases "out = ''ok''")
    case False
    with finish_refused_keeps [OF keys a] r eq show ?thesis by simp
  next
    case True
    with finish_body_ok [of now att st detail rs expected s s'] r eq a
    obtain s1 s2 aid dev where s1: "s1 = s\<lparr>st_attempts := update_where (\<lambda>b. at_id b = att \<and>
        at_status b = at_status a) (finished_row now st detail) (st_attempts s)\<rparr>"
      and s': "s' = audit now (''execution_'' @ status_lower st) aid dev (Some att) None s2"
      and c: "case rs of None \<Rightarrow> s2 = s1
        | Some q \<Rightarrow> \<exists>cur err. cas_transition now (at_approval a) q (at_device a) err False s1
              = Inr (cur, s2)" by auto
    have "st_attempts s2 = st_attempts s1"
      using c by (cases rs) (auto dest: cas_transition_frame)
    moreover have "get_attempt att s1 = Some (finished_row now st detail a)"
      using a by (auto simp: s1 by_key_update_Some dest: by_key_SomeD)
    ultimately show ?thesis using True s' by simp
  qed
qed

section \<open>The database under the coordinator\<close>

lemma lawful_attempt:
  assumes "lawful X others" "store_inv s" "get_attempt att s = Some a"
  shows "\<exists>a'. get_attempt att (others i s) = Some a' \<and> attempt_rel a a'"
proof -
  have "store_evolves s (others i s)"
    using assms(1,2) unfolding lawful_def by (blast intro: run_evolves)
  then have "table_evolves at_id attempt_rel (st_attempts s) (st_attempts (others i s))"
    by (simp add: store_evolves_def)
  from table_evolvesD [OF this assms(3)] show ?thesis .
qed

lemma lawful_shift: "lawful X others \<Longrightarrow> lawful X (shift k others)"
  by (simp add: lawful_def shift_def)

abbreviation db_run :: "outside \<Rightarrow> store \<Rightarrow> store \<Rightarrow> bool" where
  "db_run X \<equiv> run (ox_sha256 X) (\<lambda>raw. binding_of (ox_loads X raw))"

lemma db_run_others: "lawful X others \<Longrightarrow> db_run X s t \<Longrightarrow> db_run X s (others i t)"
  unfolding lawful_def by (blast intro: reaches_trans)

lemma db_run_finish:
  assumes "finish_execution_attempt now att st detail rs expected s = (r, s')"
  shows "db_run X s s'"
proof -
  have "store_step H l s (snd (finish_execution_attempt now att st detail rs expected s))" for H l
    by (rule store_step.outcome)
  then show ?thesis unfolding assms snd_conv by (rule reaches_one)
qed

lemma db_run_begin:
  assumes "begin_external now att ids s = (r, s')"
  shows "db_run X s s'"
proof -
  have "store_step H l s (snd (begin_external now att ids s))" for H l by (rule store_step.boundary)
  then show ?thesis unfolding assms snd_conv by (rule reaches_one)
qed

lemma db_run_claim:
  assumes "claim_execution_attempt (ox_sha256 X) now nr aid did ids eid cap sem idem owner lease core s
      = (r, s')"
  shows "db_run X s s'"
proof -
  have "store_step (ox_sha256 X) l s (snd (claim_execution_attempt (ox_sha256 X) now nr aid did ids eid
      cap sem idem owner lease core s))" for l by (rule store_step.claim)
  then show ?thesis unfolding assms snd_conv by (rule reaches_one)
qed

lemma store_inv_keys: "store_inv s \<Longrightarrow> store_keys_distinct s"
  by (simp add: store_inv_def)

section \<open>One attempt\<close>

text \<open>
  An executor is only called behind the boundary, once; afterwards the attempt has the status its
  answer stands for, or it was settled by another connection during the call and stays that way.
\<close>

lemma run_attempt_calls:
  assumes law: "lawful X others" and inv: "store_inv s"
    and r: "run_attempt others clock att eid ids action ex sem idem s = (r, calls, s')"
    and c: "calls \<noteq> []"
  shows "\<exists>p sb a a2 a3. calls = [p] \<and> ep_tool p = ap_tool action \<and> ep_mode p = ap_mode action \<and>
    ep_task p = ap_task action \<and> ep_workspace p = ap_workspace action \<and> ep_digest p = ap_digest action \<and>
    ep_execution p = eid \<and> ep_idempotency p = idem \<and> begin_external (clock 2) att ids s = (Inr ''ok'', sb) \<and>
    get_attempt att sb = Some a \<and> at_status a = EXTERNAL_PENDING \<and> db_run X sb s' \<and>
    get_attempt att (others 4 sb) = Some a2 \<and> get_attempt att s' = Some a3 \<and>
    (a3 = a2 \<or> at_status a3 = fst (verdict (ex p) ''executor'' None)) \<and>
    (\<forall>x. r = Inr (x, ''ok'') \<longrightarrow> at_status a3 = SUCCEEDED \<and> (\<exists>info. ex p = Returned True info))"
proof -
  from r c obtain sb where b: "begin_external (clock 2) att ids s = (Inr ''ok'', sb)"
    by (auto simp: run_attempt_def Let_def split: prod.splits sum.splits if_splits option.splits)
  let ?p = "\<lparr>ep_tool = ap_tool action, ep_mode = ap_mode action,
                   ep_task = ap_task action, ep_workspace = ap_workspace action,
                   ep_digest = ap_digest action, ep_execution = eid, ep_idempotency = idem,
                   ep_semantics = sem\<rparr>"
  obtain st detail rs told where v: "verdict (ex ?p) ''executor'' None = (st, detail, rs, told)"
    by (metis prod_cases4)
  from r b v obtain o1 where f: "finish_execution_attempt (clock 3) att st detail rs None (others 4 sb)
      = (o1, s')" and calls: "calls = [?p]"
    and out: "\<forall>x. r = Inr (x, ''ok'') \<longrightarrow> o1 = Inr ''ok'' \<and> (\<exists>info. ex ?p = Returned True info)"
    by (auto simp: run_attempt_def Let_def verdict_def split: prod.splits sum.splits if_splits
        exec_outcome.splits bool.splits)
  from begin_external_ok [OF store_inv_keys [OF inv] b] obtain a where
    a: "get_attempt att sb = Some a" "at_status a = EXTERNAL_PENDING" by auto
  have sb: "db_run X s sb" by (rule db_run_begin [OF b])
  then have invb: "store_inv sb" by (rule run_inv_later [OF _ inv])
  from lawful_attempt [OF law invb a(1), of 4] obtain a2 where
    a2: "get_attempt att (others 4 sb) = Some a2" by blast
  have inv2: "store_inv (others 4 sb)" by (rule lawful_inv [OF law invb])
  have row: "get_attempt att s' = Some (if o1 = Inr ''ok'' then finished_row (clock 3) st detail a2 else a2)"
  proof (cases o1)
    case (Inl e)
    with f have "s' = others 4 sb"
      by (auto simp: finish_execution_attempt_def finish_attempt_def Let_def
          split: if_splits sum.splits exn.splits)
    with a2 Inl show ?thesis by simp
  next
    case (Inr w)
    with finish_row [OF store_inv_keys [OF inv2] a2, of "clock 3" st detail rs None w s'] f
    show ?thesis by simp
  qed
  have "db_run X sb s'"
    using db_run_others [OF law reaches.start] db_run_finish [OF f] by (rule reaches_trans [rotated])
  moreover have "st = SUCCEEDED" if "ex ?p = Returned True info" for info
    using v that by (simp add: verdict_def)
  moreover define p where "p = ?p"
  moreover define a3 where "a3 = (if o1 = Inr ''ok'' then finished_row (clock 3) st detail a2 else a2)"
  ultimately have "calls = [p]" "db_run X sb s'" "get_attempt att s' = Some a3"
    "a3 = a2 \<or> at_status a3 = fst (verdict (ex p) ''executor'' None)"
    "\<forall>x. r = Inr (x, ''ok'') \<longrightarrow> at_status a3 = SUCCEEDED \<and> (\<exists>info. ex p = Returned True info)"
    using calls row out v by auto
  moreover have "ep_tool p = ap_tool action" "ep_mode p = ap_mode action"
    "ep_task p = ap_task action" "ep_workspace p = ap_workspace action" "ep_digest p = ap_digest action"
    "ep_execution p = eid" "ep_idempotency p = idem" by (simp_all add: p_def)
  ultimately show ?thesis
    using b a a2 by (intro exI [of _ p]) blast
qed

section \<open>Running an approved action\<close>

lemma preflight_Inr:
  "execution_preflight X cp others now aid did s = (Inr ids, s1) \<Longrightarrow> s1 = s"
  by (auto simp: execution_preflight_def Let_def split: if_splits option.splits)

lemma execute_approved_calls:
  assumes e: "execute_approved X cp others clock mclock token nr owner aid ex co = (r, calls, co')"
    and c: "calls \<noteq> []"
  shows "\<exists>req eid idem gate b1 x b2 action st b3 ids s1 att why s2 s3.
    get_request aid (co_store co) = Some req \<and> rq_state req = APPROVED \<and>
    execution_id_for (ox_sha256 X) (cp_core cp) aid = Inr eid \<and>
    idempotency_key_for (ox_sha256 X) eid (rq_tool req) = Inr idem \<and>
    broker_request (ox_sha256 X) mclock token (rq_principal req) (rq_tool req) (rq_task req)
      (rq_workspace req) (rq_mode req) (co_broker co) = (Inr gate, b1) \<and>
    broker_approve (Some (is_trusted (co_confirmed co))) mclock (ap_id gate) aid (ap_digest gate) b1
      = ((x, ''ok''), b2) \<and>
    broker_take_approved mclock (ap_id gate) (Some (rq_tool req)) b2 = ((Some action, st), b3) \<and>
    execution_preflight X cp (shift 1 others) (clock 0) aid (rq_decided_device req)
      (others 0 (co_store co)) = (Inr ids, s1) \<and>
    claim_execution_attempt (ox_sha256 X) (clock 1) nr aid (or_empty (rq_decided_device req)) ids eid
      (rq_tool req) (Sem (semantics_for (rq_tool req))) idem owner claim_lease_seconds
      (Some (cp_core cp)) (others 2 s1) = (Inr (Some att, why), s2) \<and>
    run_attempt others clock att eid ids action ex (Sem (semantics_for (rq_tool req))) idem
      (others 3 s2) = (r, calls, s3) \<and>
    co' = co\<lparr>co_broker := b3, co_confirmed := revoke_confirmation aid (co_confirmed co), co_store := s3\<rparr>"
  using assms unfolding execute_approved_def Let_def
  by (clarsimp split: option.splits if_splits sum.splits prod.splits) 

text \<open>
  What a run says when the executor was called: the request and its confirmation, the action at the
  gate, and the attempt at the boundary, after the call and at the end.
\<close>

lemma execute_approved_facts:
  assumes law: "lawful X others" and inv: "store_inv (co_store co)"
    and gate: "gate_inv (ox_sha256 X) (co_broker co)"
    and fresh: "token \<notin> ap_id ` set (bk_pending (co_broker co))"
    and e: "execute_approved X cp others clock mclock token nr owner aid ex co = (r, calls, co')"
    and c: "calls \<noteq> []"
  shows "\<exists>p req dg att sb a a2 a3. calls = [p] \<and> get_request aid (co_store co) = Some req \<and>
    rq_state req = APPROVED \<and> co_confirmed co aid = Some (rq_principal req, dg) \<and>
    dg = action_digest (ox_sha256 X) (rq_tool req) (rq_mode req) (rq_task req) (rq_workspace req) \<and>
    dg = action_digest (ox_sha256 X) (ep_tool p) (ep_mode p) (ep_task p) (ep_workspace p) \<and>
    ep_digest p = dg \<and> ep_tool p = rq_tool req \<and> is_confirmed aid (co_confirmed co') = False \<and>
    execution_id_for (ox_sha256 X) (cp_core cp) aid = Inr (ep_execution p) \<and>
    db_run X (co_store co) sb \<and> store_inv sb \<and> get_attempt att sb = Some a \<and>
    at_status a = EXTERNAL_PENDING \<and> at_approval a = aid \<and> at_execution a = ep_execution p \<and>
    db_run X sb (co_store co') \<and> get_attempt att (others 4 sb) = Some a2 \<and>
    get_attempt att (co_store co') = Some a3 \<and>
    (a3 = a2 \<or> at_status a3 = fst (verdict (ex p) ''executor'' None)) \<and>
    (\<forall>x. r = Inr (x, ''ok'') \<longrightarrow> at_status a3 = SUCCEEDED \<and> (\<exists>info. ex p = Returned True info))"
proof -
  from execute_approved_calls [OF e c] obtain req eid idem gt b1 x b2 action st b3 ids s1 att why s2 s3
    where req: "get_request aid (co_store co) = Some req" "rq_state req = APPROVED"
    and eid: "execution_id_for (ox_sha256 X) (cp_core cp) aid = Inr eid"
    and b: "broker_request (ox_sha256 X) mclock token (rq_principal req) (rq_tool req) (rq_task req)
      (rq_workspace req) (rq_mode req) (co_broker co) = (Inr gt, b1)"
      "broker_approve (Some (is_trusted (co_confirmed co))) mclock (ap_id gt) aid (ap_digest gt) b1
      = ((x, ''ok''), b2)"
      "broker_take_approved mclock (ap_id gt) (Some (rq_tool req)) b2 = ((Some action, st), b3)"
    and pre: "execution_preflight X cp (shift 1 others) (clock 0) aid (rq_decided_device req)
      (others 0 (co_store co)) = (Inr ids, s1)"
    and cl: "claim_execution_attempt (ox_sha256 X) (clock 1) nr aid (or_empty (rq_decided_device req))
      ids eid (rq_tool req) (Sem (semantics_for (rq_tool req))) idem owner claim_lease_seconds
      (Some (cp_core cp)) (others 2 s1) = (Inr (Some att, why), s2)"
    and ra: "run_attempt others clock att eid ids action ex (Sem (semantics_for (rq_tool req))) idem
      (others 3 s2) = (r, calls, s3)"
    and co': "co' = co\<lparr>co_broker := b3, co_confirmed := revoke_confirmation aid (co_confirmed co),
      co_store := s3\<rparr>" by (elim exE conjE) (rule that; assumption)
  note gp = s1_gate.gate_passed [OF gate fresh b]
  have "db_run X (co_store co) (others 2 s1)"
    unfolding preflight_Inr [OF pre] by (rule db_run_others [OF law db_run_others [OF law reaches.start]])
  moreover from this have i1: "store_inv (others 2 s1)" by (rule run_inv_later [OF _ inv])
  moreover have 2: "db_run X (others 2 s1) s2" by (rule db_run_claim [OF cl])
  ultimately have run3: "db_run X (co_store co) (others 3 s2)"
    using db_run_others [OF law] reaches_trans by metis
  then have i3: "store_inv (others 3 s2)" by (rule run_inv_later [OF _ inv])
  from claim_attempt_ok [OF store_inv_keys [OF i1] cl] obtain a0 where
    a0: "get_attempt att s2 = Some a0" "at_execution a0 = eid" "at_approval a0 = aid" by blast
  have i2: "store_inv s2" by (rule run_inv_later [OF 2 i1])
  from lawful_attempt [OF law i2 a0(1), of 3] obtain a1 where
    a1: "get_attempt att (others 3 s2) = Some a1" "attempt_rel a0 a1" by blast
  from run_attempt_calls [OF law i3 ra c] obtain p sb a a2 a3 where
    p: "calls = [p]" "ep_tool p = ap_tool action" "ep_mode p = ap_mode action"
    "ep_task p = ap_task action" "ep_workspace p = ap_workspace action" "ep_digest p = ap_digest action"
    "ep_execution p = eid"
    and sb: "begin_external (clock 2) att ids (others 3 s2) = (Inr ''ok'', sb)"
    "get_attempt att sb = Some a" "at_status a = EXTERNAL_PENDING" "db_run X sb s3"
    and after: "get_attempt att (others 4 sb) = Some a2" "get_attempt att s3 = Some a3"
    "a3 = a2 \<or> at_status a3 = fst (verdict (ex p) ''executor'' None)"
    "\<forall>x. r = Inr (x, ''ok'') \<longrightarrow> at_status a3 = SUCCEEDED \<and> (\<exists>info. ex p = Returned True info)"
    by (elim exE conjE) (rule that; assumption)
  from begin_external_ok [OF store_inv_keys [OF i3] sb(1)] a1(1) sb(2)
  have "at_execution a = at_execution a1" "at_approval a = at_approval a1" by auto
  with attempt_rel_fields(2,3) [OF a1(2)] a0 have a: "at_execution a = eid" "at_approval a = aid" by simp_all
  have run: "db_run X (co_store co) sb" using db_run_begin [OF sb(1)] run3 by (rule reaches_trans)
  then have invb: "store_inv sb" by (rule run_inv_later [OF _ inv])
  from gp have conf: "co_confirmed co aid = Some (rq_principal req, ap_digest gt)"
    by (auto simp: is_trusted_def split: option.splits)
  have fin: "is_confirmed aid (co_confirmed co') = False" "db_run X sb (co_store co')"
    "get_attempt att (co_store co') = Some a3"
    using sb(4) after(2) by (simp_all add: co' is_confirmed_def revoke_confirmation_def)
  have digests: "ap_digest gt = action_digest (ox_sha256 X) (rq_tool req) (rq_mode req) (rq_task req)
      (rq_workspace req)" "ap_digest gt = action_digest (ox_sha256 X) (ep_tool p) (ep_mode p) (ep_task p)
      (ep_workspace p)" "ep_digest p = ap_digest gt" "ep_tool p = rq_tool req"
    unfolding p(2-6) using gp by (blast, metis, blast, blast)
  have ids: "execution_id_for (ox_sha256 X) (cp_core cp) aid = Inr (ep_execution p)"
    "at_execution a = ep_execution p" unfolding p(7) by (rule eid, rule a(1))
  show ?thesis
    by (rule exI [of _ p], rule exI [of _ req], rule exI [of _ "ap_digest gt"], rule exI [of _ att],
        rule exI [of _ sb], rule exI [of _ a], rule exI [of _ a2], rule exI [of _ a3], intro conjI)
      (fact p(1) req conf digests fin ids run invb sb(2,3) a(2) after)+
qed

text \<open>
  C13: with other connections at work at every await, an executor is called at most once per run, and
  only for an approved request whose confirmation names this very approval, principal and digest.
  The action it is given has the digest of the stored request and of its own fields, the
  confirmation is spent, and at that moment the journal durably says that the attempt of this
  approval, under the execution identity in the payload, may have an effect.
\<close>

theorem executor_runs_only_what_was_approved:
  assumes "lawful X others" and "store_inv (co_store co)" and "gate_inv (ox_sha256 X) (co_broker co)"
    and "token \<notin> ap_id ` set (bk_pending (co_broker co))"
    and "execute_approved X cp others clock mclock token nr owner aid ex co = (r, calls, co')"
    and "calls \<noteq> []"
  shows "\<exists>p req att sb a. calls = [p] \<and> get_request aid (co_store co) = Some req \<and>
    rq_state req = APPROVED \<and> co_confirmed co aid = Some (rq_principal req, ep_digest p) \<and>
    ep_digest p = action_digest (ox_sha256 X) (rq_tool req) (rq_mode req) (rq_task req) (rq_workspace req) \<and>
    ep_digest p = action_digest (ox_sha256 X) (ep_tool p) (ep_mode p) (ep_task p) (ep_workspace p) \<and>
    ep_tool p = rq_tool req \<and> \<not> is_confirmed aid (co_confirmed co') \<and>
    execution_id_for (ox_sha256 X) (cp_core cp) aid = Inr (ep_execution p) \<and>
    db_run X (co_store co) sb \<and> get_attempt att sb = Some a \<and> at_status a = EXTERNAL_PENDING \<and>
    at_approval a = aid \<and> at_execution a = ep_execution p \<and> db_run X sb (co_store co')"
  using execute_approved_facts [OF assms] by (elim exE conjE) (intro exI conjI; simp)

definition demo_surroundings :: outside where
  "demo_surroundings = demo_outside\<lparr>ox_sha256 := (\<lambda>_. ''h'')\<rparr>"

definition demo_coordinator :: coordinator where
  "demo_coordinator = \<lparr>co_broker = new_broker 120 32, co_confirmed = [''a1'' \<mapsto> (''owner'', ''68'')],
     co_store = demo_approved\<rparr>"

definition demo_execution ::
    "(execution_done option \<times> string) result \<times> exec_payload list \<times> coordinator" where
  "demo_execution = execute_approved demo_surroundings demo_plane (\<lambda>i s. s) (\<lambda>i. 10) 1 ''g1'' ''t10''
     ''pid-1'' ''a1'' (\<lambda>p. Returned True ''done'') demo_coordinator"

lemma demo_execution_runs:
  "fst demo_execution = Inr (Some \<lparr>ed_info = ''done'', ed_execution = ''exec-68''\<rparr>, ''ok'')"
  "map ep_tool (fst (snd demo_execution)) = [''codex_task'']"
proof -
  have "(fst demo_execution, map ep_tool (fst (snd demo_execution))) =
      (Inr (Some \<lparr>ed_info = ''done'', ed_execution = ''exec-68''\<rparr>, ''ok''), [''codex_task''])"
    unfolding demo_execution_def demo_surroundings_def demo_coordinator_def demo_outside_def
      demo_plane_def by code_simp
  then show "fst demo_execution = Inr (Some \<lparr>ed_info = ''done'', ed_execution = ''exec-68''\<rparr>, ''ok'')"
    "map ep_tool (fst (snd demo_execution)) = [''codex_task'']" by simp_all
qed

lemma demo_execution_setting:
  "lawful demo_surroundings (\<lambda>i s. s)" "store_inv (co_store demo_coordinator)"
  "gate_inv (ox_sha256 demo_surroundings) (co_broker demo_coordinator)"
  "''g1'' \<notin> ap_id ` set (bk_pending (co_broker demo_coordinator))"
  "execute_approved demo_surroundings demo_plane (\<lambda>i s. s) (\<lambda>i. 10) 1 ''g1'' ''t10''
     ''pid-1'' ''a1'' (\<lambda>p. Returned True ''done'') demo_coordinator
   = (fst demo_execution, fst (snd demo_execution), snd (snd demo_execution))"
  "fst (snd demo_execution) \<noteq> []"
proof -
  show "fst (snd demo_execution) \<noteq> []" using demo_execution_runs(2) by auto
  show "store_inv (co_store demo_coordinator)"
    by (simp add: demo_coordinator_def store_inv_def store_keys_distinct_def journal_exclusive_def
      one_per_execution_def demo_defs)
qed (simp_all add: lawful_id demo_coordinator_def new_broker_inv new_broker_def demo_execution_def
    broker_inv_def)

theorem executor_runs_only_what_was_approved_witness:
  "\<not> is_confirmed ''a1'' (co_confirmed (snd (snd demo_execution)))"
  using executor_runs_only_what_was_approved [OF demo_execution_setting] by blast



end
