(* ===== verification/Coordinator_Recovery.thy ===== *)
theory Coordinator_Recovery
  imports Coordinator_Safety
begin

text \<open>
  The two recovery paths of \<open>bridge.py\<close>: the startup scan, which closes an attempt only on a
  compare with the status it decided on, and \<open>recover_execution\<close>, which does not.
\<close>

section \<open>What a recovery step writes\<close>

lemma finish_attempts:
  assumes keys: "store_keys_distinct s"
    and f: "finish_execution_attempt now att st detail rs expected s = (r, s')"
  shows "st_attempts s' = st_attempts s \<or>
    (\<exists>a. get_attempt att s = Some a \<and> is_open (at_status a) \<and>
      (expected = None \<or> expected = Some (at_status a)) \<and>
      st_attempts s' = update_where (\<lambda>b. at_id b = att \<and> at_status b = at_status a)
        (finished_row now st detail) (st_attempts s))"
proof (cases "finish_body now att st detail rs expected s")
  case (Inl e)
  with f show ?thesis
    by (cases e) (auto simp: finish_execution_attempt_def finish_attempt_def Let_def split: if_splits)
next
  case (Inr q)
  then obtain out t where body: "finish_body now att st detail rs expected s = Inr (out, t)"
    by (cases q) auto
  show ?thesis
  proof (cases "s' = s")
    case False
    with f body have t: "t = s'"
      by (auto simp: finish_execution_attempt_def finish_attempt_def Let_def split: if_splits)
    show ?thesis
    proof (cases "out = ''ok''")
      case True
      with finish_body_ok [OF body [unfolded t True]] obtain a s1 s2 aid dev where
        a: "get_attempt att s = Some a" "is_open (at_status a)"
        "expected = None \<or> expected = Some (at_status a)"
        and s1: "s1 = s\<lparr>st_attempts := update_where (\<lambda>b. at_id b = att \<and> at_status b = at_status a)
          (finished_row now st detail) (st_attempts s)\<rparr>"
        and s': "s' = audit now (''execution_'' @ status_lower st) aid dev (Some att) None s2"
        and c: "case rs of None \<Rightarrow> s2 = s1 | Some q \<Rightarrow> \<exists>cur err.
          cas_transition now (at_approval a) q (at_device a) err False s1 = Inr (cur, s2)" by blast
      have "st_attempts s2 = st_attempts s1" using c by (cases rs) (auto dest: cas_transition_frame)
      with a s1 s' show ?thesis by auto
    next
      case False
      from finish_body_refused [OF body False] obtain aid dev s1 where
        s': "t = audit now ''execution_rejected'' aid dev (Some out) None s1"
        and "s1 = s \<or> (\<exists>(a :: attempt) h. is_open (at_status a) \<and>
            update_attempt att (at_status a) (finished_row now st detail) s = Inr (h, s1))" by blast
      show ?thesis
      proof (cases "get_attempt att s")
        case None
        with body t show ?thesis by (auto simp: finish_body_def exec_deny_def)
      next
        case (Some a)
        have "rowcount (\<lambda>b. at_id b = att \<and> at_status b = at_status a) (st_attempts s) = 1"
          using keys rowcount_key_1 [OF _ Some, of "\<lambda>b. at_status b = at_status a"]
          by (simp add: store_keys_distinct_def)
        with body Some False t show ?thesis
          by (cases rs) (auto simp: finish_body_def Let_def exec_deny_def dest!: update_attempt_Inr(2)
            split: if_splits sum.splits)
      qed
    qed
  qed simp
qed

lemma lease_attempts:
  assumes "acquire_recovery_lease now att owner lease s = (r, s')"
  shows "st_attempts s' = st_attempts s \<or> (\<exists>p. st_attempts s' = update_where p (\<lambda>a. a\<lparr>at_lease_owner :=
    Some owner, at_lease_expires := Some (now + lease)\<rparr>) (st_attempts s))"
  using assms by (auto simp: acquire_recovery_lease_def atomically_def Let_def put_attempts_Inr_iff
    split: sum.splits if_splits prod.splits)

lemma db_run_lease:
  assumes "acquire_recovery_lease now att owner lease s = (r, s')"
  shows "db_run X s s'"
proof -
  have "store_step H l s (snd (acquire_recovery_lease now att owner lease s))" for H l
    by (rule store_step.lease)
  then show ?thesis unfolding assms snd_conv by (rule reaches_one)
qed

section \<open>The startup scan\<close>

definition scanned :: "scan_summary \<Rightarrow> nat" where
  "scanned sm = sm_closed sm + length (sm_attention sm) + length (sm_retryable sm) +
     length (sm_reconcilable sm) + length (sm_contended sm)"

lemma scan_row_counts:
  "scan_row others now owner row sm s = (Inr sm', s') \<Longrightarrow>
   scanned sm' = Suc (scanned sm) \<and> sm_open sm' = sm_open sm"
  by (auto simp: scan_row_def scanned_def contend_def Let_def split: if_splits sum.splits prod.splits
      option.splits)

lemma scan_rows_count:
  "scan_rows others now owner rows sm s = (Inr sm', s') \<Longrightarrow>
   scanned sm' = scanned sm + length rows \<and> sm_open sm' = sm_open sm"
proof (induction rows arbitrary: others sm s)
  case (Cons row rows)
  from Cons.prems obtain sm1 s1 where 1: "scan_row others now owner row sm s = (Inr sm1, s1)"
    "scan_rows (shift 3 others) now owner rows sm1 s1 = (Inr sm', s')"
    by (auto split: prod.splits sum.splits)
  with Cons.IH [OF 1(2)] scan_row_counts [OF 1(1)] show ?case by simp
qed simp

text \<open>
  The scan accounts for every attempt it found open exactly once, whatever other connections do
  meanwhile: closed, retryable, reconcilable, contended, or left to a human.
\<close>

theorem scan_accounts_for_every_attempt:
  assumes "startup_recovery_scan others now owner s = (Inr sm, s')"
  shows "sm_open sm = length (open_execution_attempts s) \<and> scanned sm = sm_open sm"
proof -
  let ?sm = "\<lparr>sm_open = length (open_execution_attempts s), sm_closed = 0, sm_attention = [],
    sm_retryable = [], sm_reconcilable = [], sm_contended = []\<rparr>"
  from assms obtain t where
    "scan_rows (shift 1 others) now owner (open_execution_attempts s) ?sm s = (Inr sm, t)"
    by (auto simp: startup_recovery_scan_def Let_def split: prod.splits sum.splits)
  from scan_rows_count [OF this] show ?thesis by (simp add: scanned_def)
qed

theorem scan_accounts_for_every_attempt_witness:
  "case fst (startup_recovery_scan (\<lambda>i s. s) 400 ''pid-2'' demo_claimed) of
     Inr sm \<Rightarrow> scanned sm = sm_open sm | Inl _ \<Rightarrow> False"
proof -
  let ?r = "startup_recovery_scan (\<lambda>i s. s) 400 ''pid-2'' demo_claimed"
  have "case fst ?r of Inr sm \<Rightarrow> True | Inl _ \<Rightarrow> False" by code_simp
  then obtain sm where "fst ?r = Inr sm" by (auto split: sum.splits)
  then have "?r = (Inr sm, snd ?r)" by (metis prod.collapse)
  from scan_accounts_for_every_attempt [OF this] \<open>fst ?r = Inr sm\<close> show ?thesis by simp
qed

text \<open>
  A durable statement that an attempt had no effect: closed as ABANDONED with the text of the scan.
  It is false of an attempt that crossed its boundary.
\<close>

definition scan_detail :: string where
  "scan_detail = ''startup recovery: no external effect took place''"

definition denials_true :: "store \<Rightarrow> bool" where
  "denials_true s \<longleftrightarrow> (\<forall>a\<in>set (st_attempts s). at_status a = ABANDONED \<and>
     at_detail a = Some scan_detail \<longrightarrow> at_boundary_at a = None)"

lemma denials_update:
  assumes "denials_true s" and "st_attempts s' = update_where p f (st_attempts s)"
    and "\<And>a. a \<in> set (st_attempts s) \<Longrightarrow> p a \<Longrightarrow> at_boundary_at (f a) = None \<or>
      at_status (f a) = at_status a \<and> at_detail (f a) = at_detail a \<and>
      at_boundary_at (f a) = at_boundary_at a"
  shows "denials_true s'"
  unfolding denials_true_def
proof
  fix b assume "b \<in> set (st_attempts s')"
  then obtain a where a: "a \<in> set (st_attempts s)" "b = (if p a then f a else a)"
    unfolding assms(2) set_update_where by (rule imageE)
  from assms(1) a(1) have "at_status a = ABANDONED \<and> at_detail a = Some scan_detail \<longrightarrow>
      at_boundary_at a = None" by (simp add: denials_true_def)
  with a(2) assms(3) [OF a(1)]
  show "at_status b = ABANDONED \<and> at_detail b = Some scan_detail \<longrightarrow> at_boundary_at b = None"
    by (cases "p a") auto
qed

lemma denials_lease:
  assumes "denials_true s" and "acquire_recovery_lease now att owner lease s = (r, s')"
  shows "denials_true s'"
proof (cases "st_attempts s' = st_attempts s")
  case True
  with assms(1) show ?thesis by (simp add: denials_true_def)
next
  case False
  with lease_attempts [OF assms(2)] obtain p where "st_attempts s' = update_where p (\<lambda>a. a\<lparr>at_lease_owner
      := Some owner, at_lease_expires := Some (now + lease)\<rparr>) (st_attempts s)" by blast
  from denials_update [OF assms(1) this] show ?thesis by simp
qed

lemma denials_finish_claimed:
  assumes "denials_true s" and "store_inv s" and "c = CLAIMED"
    and "finish_execution_attempt now att st detail rs (Some c) s = (r, s')"
  shows "denials_true s'"
proof (cases "st_attempts s' = st_attempts s")
  case True
  with assms(1) show ?thesis by (simp add: denials_true_def)
next
  case False
  with finish_attempts [OF store_inv_keys [OF assms(2)] assms(4)] assms(3)
  have u: "st_attempts s' = update_where (\<lambda>b. at_id b = att \<and> at_status b = CLAIMED)
        (finished_row now st detail) (st_attempts s)" by auto
  have "at_boundary_at (finished_row now st detail a) = None"
    if "a \<in> set (st_attempts s)" "at_id a = att \<and> at_status a = CLAIMED" for a
    using assms(2) that by (auto simp: store_inv_def attempt_wf_def finished_row_def)
  with denials_update [OF assms(1) u] show ?thesis by blast
qed

definition keeps_denials :: "interleaving \<Rightarrow> bool" where
  "keeps_denials others \<longleftrightarrow> (\<forall>i s. store_inv s \<longrightarrow> denials_true s \<longrightarrow> denials_true (others i s))"

lemma scan_row_denials:
  assumes law: "lawful X others" and keeps: "keeps_denials others"
    and s: "store_inv s" "denials_true s" and op: "is_open (at_status row)"
    and r: "scan_row others now owner row sm s = (r, s')"
  shows "store_inv s' \<and> denials_true s'"
proof (cases "re_decision (scan_entry row) = CLOSED_NO_EFFECT")
  case False
  with r s show ?thesis by (auto simp: scan_row_def Let_def split: if_splits)
next
  case True
  then have cl: "at_status row = CLAIMED"
    using op recovery_closed_iff [of "at_status row" "at_semantics row"]
    by (auto simp: scan_entry_def OPEN_STATUSES_def)
  have o: "store_inv (others i t) \<and> denials_true (others i t)" if "store_inv t" "denials_true t" for i t
    using that lawful_inv [OF law] keeps unfolding keeps_denials_def by blast
  obtain lr s1 where l: "acquire_recovery_lease now (at_id row) owner recovery_lease_seconds (others 0 s)
      = (lr, s1)" by (cases "acquire_recovery_lease now (at_id row) owner recovery_lease_seconds (others 0 s)")
  have 1: "store_inv s1" "denials_true s1"
    using run_inv_later [OF db_run_lease [OF l]] denials_lease [OF _ l] o [OF s] by blast+
  have 2: "store_inv (others 1 s1)" "denials_true (others 1 s1)"
    "store_inv (others 2 (others 1 s1))" "denials_true (others 2 (others 1 s1))" using o 1 by blast+
  obtain fr s3 where f: "finish_execution_attempt now (at_id row) ABANDONED
      (Some ''startup recovery: no external effect took place'') (Some FAILED)
      (Some (at_status row)) (others 2 (others 1 s1)) = (fr, s3)"
    by (cases "finish_execution_attempt now (at_id row) ABANDONED
      (Some ''startup recovery: no external effect took place'') (Some FAILED)
      (Some (at_status row)) (others 2 (others 1 s1))")
  have 3: "store_inv s3" "denials_true s3"
    using run_inv_later [OF db_run_finish [OF f] 2(3)] denials_finish_claimed [OF 2(4,3) cl f] by blast+
  from r True l f have "s' = s1 \<or> s' = others 1 s1 \<or> s' = s3"
    by (auto simp: scan_row_def Let_def split: if_splits sum.splits option.splits)
  with 1 2 3 show ?thesis by blast
qed

lemma scan_rows_denials:
  "lawful X others \<Longrightarrow> keeps_denials others \<Longrightarrow> store_inv s \<Longrightarrow> denials_true s \<Longrightarrow>
   \<forall>row\<in>set rows. is_open (at_status row) \<Longrightarrow>
   scan_rows others now owner rows sm s = (r, s') \<Longrightarrow> store_inv s' \<and> denials_true s'"
proof (induction rows arbitrary: others sm s)
  case (Cons row rows)
  obtain r1 s1 where 1: "scan_row others now owner row sm s = (r1, s1)"
    by (cases "scan_row others now owner row sm s")
  have op: "is_open (at_status row)" using Cons.prems(5) by simp
  note 2 = scan_row_denials [OF Cons.prems(1-4) op 1]
  have k: "keeps_denials (shift 3 others)"
    using Cons.prems(2) by (simp add: keeps_denials_def shift_def)
  show ?case
  proof (cases r1)
    case (Inl e)
    with Cons.prems(6) 1 2 show ?thesis by simp
  next
    case (Inr sm1)
    with Cons.prems(6) 1 have "scan_rows (shift 3 others) now owner rows sm1 s1 = (r, s')" by simp
    from Cons.IH [OF lawful_shift [OF Cons.prems(1)] k _ _ _ this] 2 Cons.prems(5)
    show ?thesis by simp
  qed
qed simp

text \<open>
  C15: the startup scan never durably denies an effect that may have happened. Even if an owner that
  is still alive crosses its boundary between the scan's reading and its writing, no attempt with a
  boundary is ever closed as without effect.
\<close>

theorem scan_never_denies_a_started_effect:
  assumes law: "lawful X others" and keeps: "keeps_denials others" and s: "store_inv s" "denials_true s"
    and r: "startup_recovery_scan others now owner s = (r, s')"
    and a: "a \<in> set (st_attempts s')" "at_boundary_at a \<noteq> None"
  shows "\<not> (at_status a = ABANDONED \<and> at_detail a = Some scan_detail)"
proof -
  let ?sm = "\<lparr>sm_open = length (open_execution_attempts s), sm_closed = 0, sm_attention = [],
    sm_retryable = [], sm_reconcilable = [], sm_contended = []\<rparr>"
  obtain q t where q: "scan_rows (shift 1 others) now owner (open_execution_attempts s) ?sm s = (q, t)"
    by (cases "scan_rows (shift 1 others) now owner (open_execution_attempts s) ?sm s")
  have k: "keeps_denials (shift 1 others)" using keeps by (simp add: keeps_denials_def shift_def)
  have "\<forall>row\<in>set (open_execution_attempts s). is_open (at_status row)"
    by (simp add: open_execution_attempts_def)
  from scan_rows_denials [OF lawful_shift [OF law] k s this q]
  have t: "store_inv t" "denials_true t" by simp_all
  with keeps have "denials_true (others 0 t)" by (simp add: keeps_denials_def)
  with t r q have "denials_true s'"
    by (cases q) (auto simp: startup_recovery_scan_def Let_def denials_true_def)
  with a show ?thesis by (auto simp: denials_true_def)
qed

section \<open>The on-demand recovery\<close>

text \<open>
  The owner of the claim is still alive: its lease has run out, and it crosses the boundary right
  after the recovering process took the lease over.
\<close>

definition late_owner :: interleaving where
  "late_owner i s = (if i = 1 then snd (begin_external 400 ''att-1'' demo_identities s) else s)"

lemma late_owner_lawful: "lawful X late_owner"
proof -
  have "store_step H l s (snd (begin_external 400 ''att-1'' demo_identities s))" for H l s
    by (rule store_step.boundary)
  then show ?thesis by (auto simp: lawful_def late_owner_def intro: reaches_one reaches.start)
qed

definition demo_interrupted :: store where
  "demo_interrupted = demo_claimed\<lparr>st_attempts := [demo_attempt\<lparr>at_execution := ''exec-68''\<rparr>]\<rparr>"

lemma demo_interrupted_inv: "store_inv demo_interrupted" "denials_true demo_interrupted"
  by (simp_all add: demo_interrupted_def store_inv_def store_keys_distinct_def journal_exclusive_def
      one_per_execution_def attempt_wf_def denials_true_def demo_defs)

lemma begin_attempts:
  assumes "begin_external now att ids s = (r, s')"
  shows "st_attempts s' = st_attempts s \<or> (\<exists>f. st_attempts s' = update_where (\<lambda>b. at_id b = att \<and>
      at_status b = CLAIMED) f (st_attempts s) \<and> (\<forall>a :: attempt. at_status (f a) = EXTERNAL_PENDING \<or>
      at_detail (f a) = Some ''revoked_before_external_start''))"
proof -
  have "st_attempts s' = st_attempts s \<or>
    st_attempts s' = update_where (\<lambda>b. at_id b = att \<and> at_status b = CLAIMED)
      (\<lambda>a. a\<lparr>at_status := EXTERNAL_PENDING, at_boundary_at := Some now\<rparr>) (st_attempts s) \<or>
    st_attempts s' = update_where (\<lambda>b. at_id b = att \<and> at_status b = CLAIMED)
      (\<lambda>a. a\<lparr>at_status := ABANDONED, at_finished_at := Some now,
        at_detail := Some ''revoked_before_external_start''\<rparr>) (st_attempts s)"
    using assms by (auto simp: begin_external_def atomically_def exec_deny_def
        dest!: update_attempt_Inr(1) cas_transition_frame(6)
        split: if_splits option.splits sum.splits prod.splits)
  then show ?thesis
  proof (elim disjE)
    assume e: "st_attempts s' = update_where (\<lambda>b. at_id b = att \<and> at_status b = CLAIMED)
      (\<lambda>a. a\<lparr>at_status := EXTERNAL_PENDING, at_boundary_at := Some now\<rparr>) (st_attempts s)"
    show ?thesis by (rule disjI2, rule exI, rule conjI [OF e]) simp
  next
    assume e: "st_attempts s' = update_where (\<lambda>b. at_id b = att \<and> at_status b = CLAIMED)
      (\<lambda>a. a\<lparr>at_status := ABANDONED, at_finished_at := Some now,
        at_detail := Some ''revoked_before_external_start''\<rparr>) (st_attempts s)"
    show ?thesis by (rule disjI2, rule exI, rule conjI [OF e]) simp
  qed simp
qed

lemma denials_begin:
  assumes "denials_true s" and "begin_external now att ids s = (r, s')"
  shows "denials_true s'"
proof (cases "st_attempts s' = st_attempts s")
  case True
  with assms(1) show ?thesis by (simp add: denials_true_def)
next
  case False
  with begin_attempts [OF assms(2)] obtain f where
    u: "st_attempts s' = update_where (\<lambda>b. at_id b = att \<and> at_status b = CLAIMED) f (st_attempts s)"
    and f: "\<forall>a :: attempt. at_status (f a) = EXTERNAL_PENDING \<or>
      at_detail (f a) = Some ''revoked_before_external_start''" by blast
  show ?thesis
    unfolding denials_true_def
  proof
    fix b assume "b \<in> set (st_attempts s')"
    then obtain a where a: "a \<in> set (st_attempts s)"
      "b = (if at_id a = att \<and> at_status a = CLAIMED then f a else a)"
      unfolding u set_update_where by (rule imageE)
    show "at_status b = ABANDONED \<and> at_detail b = Some scan_detail \<longrightarrow> at_boundary_at b = None"
    proof (cases "at_id a = att \<and> at_status a = CLAIMED")
      case True
      with a(2) f [rule_format, of a] show ?thesis by (auto simp: scan_detail_def)
    next
      case False
      with a assms(1) show ?thesis by (simp add: denials_true_def)
    qed
  qed
qed

lemma late_owner_keeps: "keeps_denials late_owner"
proof -
  have "denials_true (snd (begin_external 400 ''att-1'' demo_identities s))" if "denials_true s" for s
    using denials_begin [OF that] by (metis prod.collapse)
  then show ?thesis by (auto simp: keeps_denials_def late_owner_def)
qed

text \<open>The scan itself, in the face of the late owner: it leaves the attempt alone.\<close>

theorem scan_never_denies_a_started_effect_witness:
  "\<exists>a. get_attempt ''att-1'' (snd (startup_recovery_scan (\<lambda>i. late_owner (i - 1)) 400 ''pid-2''
       demo_interrupted)) = Some a \<and> at_boundary_at a = Some 400 \<and>
     \<not> (at_status a = ABANDONED \<and> at_detail a = Some scan_detail)"
proof -
  let ?o = "\<lambda>i. late_owner (i - 1)"
  let ?r = "startup_recovery_scan ?o 400 ''pid-2'' demo_interrupted"
  have "map_option at_boundary_at (get_attempt ''att-1'' (snd ?r)) = Some (Some 400)" by code_simp
  then obtain a where a: "get_attempt ''att-1'' (snd ?r) = Some a" "at_boundary_at a = Some 400" by auto
  have o: "lawful demo_surroundings ?o" "keeps_denials ?o"
    using late_owner_lawful [of demo_surroundings] late_owner_keeps by (simp_all add: lawful_def keeps_denials_def)
  have r: "?r = (fst ?r, snd ?r)" by simp
  have "a \<in> set (st_attempts (snd ?r))" "at_boundary_at a \<noteq> None" using a by (auto dest: by_key_SomeD)
  from scan_never_denies_a_started_effect [OF o demo_interrupted_inv r this] a show ?thesis by blast
qed

text \<open>
  C16: \<open>recover_execution\<close> can do what the scan never does. With another connection crossing the
  boundary right after the lease was taken over, it reports \<open>closed_no_effect\<close> and leaves an attempt
  that is closed as without effect although its boundary was crossed: the outcome is written without
  a compare with the status the decision was taken on.
\<close>

theorem recovery_can_deny_a_started_effect:
  "\<exists>others t out a. lawful demo_surroundings others \<and> store_inv demo_interrupted \<and>
     recover_execution demo_surroundings demo_plane others 400 ''pid-2'' None None ''a1''
       demo_interrupted = (Inr (Some out, ''closed_no_effect''), [], t) \<and>
     get_attempt ''att-1'' t = Some a \<and> at_status a = ABANDONED \<and> at_boundary_at a = Some 400 \<and>
     at_detail a = Some ''recovery: no external effect took place''"
proof -
  let ?r = "recover_execution demo_surroundings demo_plane late_owner 400 ''pid-2'' None None ''a1''
       demo_interrupted"
  have 1: "(case fst ?r of Inr (Some out, st) \<Rightarrow> st | _ \<Rightarrow> [], fst (snd ?r),
     map_option (\<lambda>a. (at_status a, at_boundary_at a, at_detail a)) (get_attempt ''att-1'' (snd (snd ?r))))
     = (''closed_no_effect'', [], Some (ABANDONED, Some 400,
         Some ''recovery: no external effect took place''))"
    unfolding demo_surroundings_def demo_outside_def demo_plane_def by code_simp
  obtain w c t where r: "?r = (w, c, t)" by (metis prod_cases3)
  from 1 obtain out where "w = Inr (Some out, ''closed_no_effect'')" "c = []"
    unfolding r by (auto split: sum.splits option.splits prod.splits)
  moreover from 1 obtain a where "get_attempt ''att-1'' t = Some a" "at_status a = ABANDONED"
    "at_boundary_at a = Some 400" "at_detail a = Some ''recovery: no external effect took place''"
    unfolding r by auto
  ultimately show ?thesis using late_owner_lawful [of demo_surroundings] demo_interrupted_inv(1) r by blast
qed

end
