(* ===== verification/Json_Canonical.thy ===== *)
theory Json_Canonical
  imports Json
begin

text \<open>
  What a JSON text determines. \<open>json_print\<close> is \<open>json.dumps\<close> without \<open>sort_keys\<close>, for the separators
  it is given; the canonical text of \<open>Json\<close> is the compact print of the value with its keys sorted.
  A print can be read back in front of whatever may follow a value, so two values with one canonical
  text are the same up to the order of their keys: the fact every digest of the program rests on.
\<close>

section \<open>Printing with given separators\<close>

fun json_print :: "string \<Rightarrow> string \<Rightarrow> (real \<Rightarrow> string) \<Rightarrow> json_value \<Rightarrow> string" where
  "json_print sep col sf Jnull = ''null''"
| "json_print sep col sf (Jbool b) = (if b then ''true'' else ''false'')"
| "json_print sep col sf (Jint i) = int_text i"
| "json_print sep col sf (Jreal r) = sf r"
| "json_print sep col sf (Jstr s) = json_string s"
| "json_print sep col sf (Jlist vs) =
     CHR ''['' # join_with sep (map (json_print sep col sf) vs) @ '']''"
| "json_print sep col sf (Jdict ps) =
     CHR ''{'' # join_with sep (map (\<lambda>(k, v). json_string k @ col @ json_print sep col sf v) ps) @ ''}''"

text \<open>The same value with the keys of every object in order.\<close>

fun sorted_keys :: "json_value \<Rightarrow> json_value" where
  "sorted_keys (Jlist vs) = Jlist (map sorted_keys vs)"
| "sorted_keys (Jdict ps) = Jdict (sort_key fst (map (\<lambda>(k, v). (k, sorted_keys v)) ps))"
| "sorted_keys v = v"

lemma insort_key_map_snd:
  "insort_key fst (fst p, f (snd p)) (map (\<lambda>(k, v). (k, f v)) ps)
     = map (\<lambda>(k, v). (k, f v)) (insort_key fst p ps)"
  by (induction ps) (auto simp: split_def)

lemma sort_key_map_snd:
  "sort_key fst (map (\<lambda>(k, v). (k, f v)) ps) = map (\<lambda>(k, v). (k, f v)) (sort_key fst ps)"
proof (induction ps)
  case (Cons p ps)
  then show ?case by (cases p) (simp flip: insort_key_map_snd)
qed simp

lemma json_text_print: "json_text sf v = json_print '','' '':'' sf (sorted_keys v)"
proof (induction v rule: sorted_keys.induct)
  case (1 vs)
  then show ?case by (simp cong: map_cong)
next
  case (2 ps)
  have "map (\<lambda>(k, v). (k, json_text sf v)) ps
      = map (\<lambda>(k, v). (k, json_print '','' '':'' sf (sorted_keys v))) ps"
    by (rule map_cong) (auto intro: 2)
  then have "sort_key fst (map (\<lambda>(k, v). (k, json_text sf v)) ps)
      = map (\<lambda>(k, v). (k, json_print '','' '':'' sf v))
          (sort_key fst (map (\<lambda>(k, v). (k, sorted_keys v)) ps))"
    by (simp only: sort_key_map_snd [symmetric]) (simp add: comp_def split_def)
  then show ?case by (simp add: comp_def split_def json_key_def)
qed simp_all

section \<open>Numbers\<close>

definition digit_value :: "char \<Rightarrow> nat" where
  "digit_value c = code c - 48"

definition read_decimal :: "string \<Rightarrow> nat" where
  "read_decimal s = foldl (\<lambda>n c. 10 * n + digit_value c) 0 s"

lemma code_digit: "d < 10 \<Longrightarrow> code (char_of (48 + d)) = 48 + d"
  by (rule code_char_of) simp

lemma read_decimal_decimal: "read_decimal (decimal n) = n"
proof (induction n rule: decimal.induct)
  case (1 n)
  show ?case
  proof (cases "n < 10")
    case True
    then show ?thesis by (simp add: decimal.simps [of n] read_decimal_def digit_value_def code_digit)
  next
    case False
    moreover have "code (char_of (48 + n mod 10)) = 48 + n mod 10" by (rule code_digit) simp
    ultimately show ?thesis using 1
      by (simp add: decimal.simps [of n] read_decimal_def digit_value_def)
  qed
qed

lemma decimal_chars: "c \<in> set (decimal n) \<Longrightarrow> 48 \<le> code c \<and> code c \<le> 57"
proof (induction n rule: decimal.induct)
  case (1 n)
  show ?case
  proof (cases "n < 10")
    case True
    with 1(2) show ?thesis by (auto simp: decimal.simps [of n] code_digit)
  next
    case False
    have "code (char_of (48 + n mod 10)) = 48 + n mod 10" "n mod 10 < 10"
      by (simp_all add: code_digit)
    with False 1 show ?thesis by (auto simp: decimal.simps [of n])
  qed
qed

lemma decimal_neq_Nil: "decimal n \<noteq> []"
  by (subst decimal.simps) simp

lemma decimal_no_minus: "hd (decimal n) \<noteq> CHR ''-''"
proof
  assume "hd (decimal n) = CHR ''-''"
  with decimal_chars [of "CHR ''-''" n] hd_in_set [OF decimal_neq_Nil [of n]] show False by (simp add: code_def)
qed

lemma int_text_inj: "int_text i = int_text j \<Longrightarrow> i = j"
proof -
  assume *: "int_text i = int_text j"
  have minus: "CHR ''-'' # decimal m \<noteq> decimal n" for m n
    using decimal_no_minus [of n] by (metis list.sel(1))
  have eq: "decimal m = decimal n \<longleftrightarrow> m = n" for m n by (metis read_decimal_decimal)
  from * minus minus [symmetric] show ?thesis
    by (auto simp: int_text_def eq split: if_splits)
qed

section \<open>Reading a print back\<close>

text \<open>What may follow a value: nothing, or a character no number contains.\<close>

definition number_char :: "char \<Rightarrow> bool" where
  "number_char c \<longleftrightarrow> c \<in> set (''0123456789'' @ ''+-.e'')"

definition delimited :: "string \<Rightarrow> bool" where
  "delimited x \<longleftrightarrow> x = [] \<or> \<not> number_char (hd x)"

text \<open>
  \<open>repr\<close> of a finite float, for the floats in \<open>F\<close>: made of the characters of a number, never the
  text of an integer, never the same for two of them.
\<close>

definition prints_floats :: "(real \<Rightarrow> string) \<Rightarrow> real set \<Rightarrow> bool" where
  "prints_floats sf F \<longleftrightarrow> inj_on sf F \<and>
     (\<forall>r\<in>F. set (sf r) \<subseteq> Collect number_char \<and> (CHR ''.'' \<in> set (sf r) \<or> CHR ''e'' \<in> set (sf r)))"

fun floats_in :: "real set \<Rightarrow> json_value \<Rightarrow> bool" where
  "floats_in F (Jreal r) \<longleftrightarrow> r \<in> F"
| "floats_in F (Jlist vs) \<longleftrightarrow> (\<forall>v\<in>set vs. floats_in F v)"
| "floats_in F (Jdict ps) \<longleftrightarrow> (\<forall>p\<in>set ps. floats_in F (snd p))"
| "floats_in F _ \<longleftrightarrow> True"

lemma number_then_delimiter:
  assumes "set a \<subseteq> Collect number_char" "set b \<subseteq> Collect number_char"
    and "delimited x" "delimited y" and "a @ x = b @ y"
  shows "a = b \<and> x = y"
proof -
  have "takeWhile number_char (a @ x) = a" "takeWhile number_char (b @ y) = b"
    using assms(1-4) by (auto simp: delimited_def takeWhile_append2 takeWhile_eq_Nil_iff subset_iff)
  with assms(5) show ?thesis by auto
qed

lemma code_number_char: "48 \<le> code c \<Longrightarrow> code c \<le> 57 \<Longrightarrow> number_char c"
proof -
  assume "48 \<le> code c" "code c \<le> 57"
  then have "code c \<in> set [48..<58]" unfolding set_upt atLeastLessThan_iff by linarith
  then have "c \<in> set (map char_of [48..<58])" using char_of_code [of c] by (metis image_eqI set_map)
  moreover have "map char_of [48..<58::nat] = ''0123456789''" by code_simp
  ultimately have "c \<in> set ''0123456789''" by (rule back_subst)
  then show ?thesis unfolding number_char_def set_append by (rule UnI1)
qed

lemma int_text_chars: "c \<in> set (int_text i) \<Longrightarrow> number_char c \<and> c \<noteq> CHR ''.'' \<and> c \<noteq> CHR ''e''"
proof -
  assume "c \<in> set (int_text i)"
  then consider "c = CHR ''-''" | "48 \<le> code c" "code c \<le> 57"
    by (auto simp: int_text_def split: if_splits dest: decimal_chars)
  then show ?thesis
  proof cases
    case 1
    then show ?thesis by (simp add: number_char_def)
  next
    case 2
    moreover have "code (CHR ''.'') = 46" "code (CHR ''e'') = 101" by (simp_all add: code_def)
    ultimately show ?thesis using code_number_char [of c] by auto
  qed
qed

lemma int_text_neq_Nil: "int_text i \<noteq> []"
  by (simp add: int_text_def decimal_neq_Nil)

text \<open>The first character tells the kind of a value; numbers are told apart by all of theirs.\<close>

lemma join_with_Cons: "join_with sep (x # xs) = x @ (if xs = [] then [] else sep @ join_with sep xs)"
  by (cases xs) simp_all

text \<open>
  A print function whose results can be told apart in front of a delimiter makes joined lists of
  them readable up to their closing bracket.
\<close>

definition readable :: "('a \<Rightarrow> string) \<Rightarrow> 'a \<Rightarrow> 'a \<Rightarrow> bool" where
  "readable pr a b \<longleftrightarrow>
     (\<forall>x y. delimited x \<longrightarrow> delimited y \<longrightarrow> pr a @ x = pr b @ y \<longrightarrow> a = b \<and> x = y)"

lemma join_readable:
  assumes sep: "sep \<noteq> []" "hd sep = CHR '',''" and close: "\<not> number_char e" "e \<noteq> CHR '',''"
    and "\<And>a b. a \<in> set as1 \<Longrightarrow> b \<in> set bs \<Longrightarrow> readable pr a b"
    and "\<And>a. a \<in> set as1 \<union> set bs \<Longrightarrow> pr a \<noteq> [] \<and> hd (pr a) \<noteq> e"
    and "join_with sep (map pr as1) @ e # x = join_with sep (map pr bs) @ e # y"
  shows "as1 = bs \<and> x = y"
  using assms(5-)
proof (induction as1 arbitrary: bs)
  case Nil
  show ?case
  proof (cases bs)
    case (Cons b bs')
    with Nil(2) [of b] have "pr b \<noteq> []" "hd (pr b) \<noteq> e" by auto
    with Nil(3) Cons show ?thesis by (cases "pr b") (auto simp: join_with_Cons)
  qed (use Nil in simp)
next
  case (Cons a as1)
  show ?case
  proof (cases bs)
    case Nil
    with Cons.prems(2) [of a] have "pr a \<noteq> []" "hd (pr a) \<noteq> e" by auto
    with Cons.prems(3) Nil show ?thesis by (cases "pr a") (auto simp: join_with_Cons)
  next
    case bs: (Cons b bs')
    let ?rest = "\<lambda>as1. (if as1 = [] then [] else sep @ join_with sep (map pr as1))"
    have comma: "\<not> number_char (CHR '','')" by (simp add: number_char_def)
    have *: "pr a @ (?rest as1 @ e # x) = pr b @ (?rest bs' @ e # y)"
      using Cons.prems(3) unfolding bs by (simp add: join_with_Cons)
    have "delimited (?rest as1 @ e # x)" "delimited (?rest bs' @ e # y)"
      using sep close comma by (auto simp: delimited_def)
    then have ab: "a = b" "?rest as1 @ e # x = ?rest bs' @ e # y"
      using Cons.prems(1) [of a b] * unfolding readable_def bs by auto
    obtain sep' where s: "sep = CHR '','' # sep'" using sep by (cases sep) auto
    have "as1 = bs' \<and> x = y"
    proof (cases "as1 = [] \<or> bs' = []")
      case True
      with ab(2) s close show ?thesis by (cases as1; cases bs') auto
    next
      case False
      with ab(2) have "join_with sep (map pr as1) @ e # x = join_with sep (map pr bs') @ e # y"
        by simp
      then show ?thesis using Cons.prems(1,2) unfolding bs by (intro Cons.IH) auto
    qed
    with ab(1) bs show ?thesis by simp
  qed
qed

text \<open>The kind of a value shows in the first character of its print.\<close>

fun print_kind :: "json_value \<Rightarrow> nat" where
  "print_kind Jnull = 0"
| "print_kind (Jbool b) = (if b then 1 else 2)"
| "print_kind (Jint i) = 3"
| "print_kind (Jreal r) = 3"
| "print_kind (Jstr s) = 4"
| "print_kind (Jlist vs) = 5"
| "print_kind (Jdict ps) = 6"

definition char_kind :: "char \<Rightarrow> nat" where
  "char_kind c = (if c = CHR ''n'' then 0 else if c = CHR ''t'' then 1 else if c = CHR ''f'' then 2
     else if number_char c then 3 else if c = CHR 0x22 then 4 else if c = CHR ''['' then 5
     else if c = CHR ''{'' then 6 else 7)"

lemma char_kind_values [simp]:
  "char_kind (CHR ''n'') = 0" "char_kind (CHR ''t'') = 1" "char_kind (CHR ''f'') = 2"
  "char_kind (CHR 0x22) = 4" "char_kind (CHR ''['') = 5" "char_kind (CHR ''{'') = 6"
  "char_kind (CHR '']'') = 7"
  by (simp_all add: char_kind_def number_char_def)

lemma char_kind_number: "number_char c \<Longrightarrow> char_kind c = 3"
proof -
  assume *: "number_char c"
  have "\<not> number_char (CHR ''n'')" "\<not> number_char (CHR ''t'')" "\<not> number_char (CHR ''f'')"
    by (simp_all add: number_char_def)
  with * have "c \<noteq> CHR ''n''" "c \<noteq> CHR ''t''" "c \<noteq> CHR ''f''" by auto
  with * show ?thesis by (simp add: char_kind_def)
qed

lemma float_text:
  assumes "prints_floats sf F" and "r \<in> F"
  shows "sf r \<noteq> []" and "set (sf r) \<subseteq> Collect number_char"
  using assms unfolding prints_floats_def by auto

lemma number_starts: "s \<noteq> [] \<Longrightarrow> set s \<subseteq> Collect number_char \<Longrightarrow> char_kind (hd s) = 3"
  using hd_in_set [of s] char_kind_number [of "hd s"] by blast

lemma int_text_starts: "char_kind (hd (int_text i)) = 3"
  by (rule number_starts) (use int_text_chars [of _ i] int_text_neq_Nil [of i] in auto)

lemma print_starts:
  assumes "prints_floats sf F" and "floats_in F v"
  shows "json_print sep col sf v \<noteq> []" and "char_kind (hd (json_print sep col sf v)) = print_kind v"
  using assms float_text [OF assms(1)] number_starts
  by (cases v; simp add: json_string_def int_text_neq_Nil int_text_starts)+

lemma print_starts_open:
  assumes "prints_floats sf F" and "floats_in F v"
  shows "json_print sep col sf v \<noteq> [] \<and> hd (json_print sep col sf v) \<noteq> CHR '']''"
proof -
  have "print_kind v \<noteq> 7" by (cases v) auto
  then show ?thesis using print_starts [OF assms, of sep col] by (metis char_kind_values(7))
qed

lemma print_numbers:
  assumes "prints_floats sf F" and "floats_in F v" "floats_in F w"
    and "print_kind v = 3" "print_kind w = 3"
    and "delimited x" "delimited y"
    and "json_print sep col sf v @ x = json_print sep col sf w @ y"
  shows "v = w \<and> x = y"
proof -
  have form: "(\<exists>i. u = Jint i) \<or> (\<exists>r\<in>F. u = Jreal r)"
    if "floats_in F u" "print_kind u = 3" for u
    using that by (cases u) (auto split: if_splits)
  have chars: "set (json_print sep col sf u) \<subseteq> Collect number_char"
    if "floats_in F u" "print_kind u = 3" for u
    using form [OF that] float_text(2) [OF assms(1)] int_text_chars by fastforce
  have eq: "json_print sep col sf v = json_print sep col sf w" and "x = y"
    using number_then_delimiter [OF chars chars assms(6,7,8)] assms by auto
  have dots: "int_text i \<noteq> sf r" if "r \<in> F" for i r
    using int_text_chars [of "CHR ''.''" i] int_text_chars [of "CHR ''e''" i] assms(1) that
    unfolding prints_floats_def by metis
  have "inj_on sf F" using assms(1) by (simp add: prints_floats_def)
  then have "v = w"
    using form [OF assms(2,4)] form [OF assms(3,5)] eq dots dots [symmetric] int_text_inj
    by (elim disjE exE bexE) (auto dest: inj_onD)
  with \<open>x = y\<close> show ?thesis by simp
qed

lemma pair_readable:
  assumes "readable pr v w"
  shows "readable (\<lambda>(k, v). json_string k @ col @ pr v) (k, v) (k', w)"
  unfolding readable_def
proof (intro allI impI)
  fix x y
  assume d: "delimited x" "delimited y"
    and "(case (k, v) of (k, v) \<Rightarrow> json_string k @ col @ pr v) @ x
       = (case (k', w) of (k, v) \<Rightarrow> json_string k @ col @ pr v) @ y"
  then have "json_string k @ (col @ pr v @ x) = json_string k' @ (col @ pr w @ y)" by simp
  from json_string_inj [OF this] have "k = k'" "pr v @ x = pr w @ y" by simp_all
  with d assms show "(k, v) = (k', w) \<and> x = y" unfolding readable_def by simp
qed

lemma json_scalar_readable:
  assumes "prints_floats sf F" and "floats_in F v" "floats_in F w"
    and "delimited x" "delimited y"
    and "json_print sep col sf v @ x = json_print sep col sf w @ y"
    and "print_kind v < 5"
  shows "v = w \<and> x = y"
proof -
  have "hd (json_print sep col sf v) = hd (json_print sep col sf w)"
    using assms(6) print_starts(1) [OF assms(1,2), of sep col] print_starts(1) [OF assms(1,3), of sep col]
    by (metis hd_append2)
  then have kinds: "print_kind v = print_kind w"
    using print_starts(2) [OF assms(1,2), of sep col] print_starts(2) [OF assms(1,3), of sep col] by metis
  show ?thesis
  proof (cases "print_kind v = 3")
    case True
    with kinds print_numbers [OF assms(1-3) _ _ assms(4-6)] show ?thesis by simp
  next
    case False
    with kinds assms(6,7) show ?thesis
      by (cases v; cases w) (auto split: if_splits dest: json_string_inj)
  qed
qed

lemma json_scalar_is_readable:
  assumes "prints_floats sf F" and "floats_in F v" "floats_in F w" and "print_kind v < 5"
  shows "readable (json_print sep col sf) v w"
  unfolding readable_def using json_scalar_readable [OF assms(1-3) _ _ _ assms(4)] by blast

lemma json_print_readable:
  assumes "prints_floats sf F" and "sep \<noteq> []" "hd sep = CHR '',''"
    and "floats_in F v" "floats_in F w"
  shows "readable (json_print sep col sf) v w"
  using assms(4,5)
proof (induction v arbitrary: w)

  case (Jlist vs)
  show ?case unfolding readable_def
  proof (intro allI impI)
    fix x y
    assume eq: "json_print sep col sf (Jlist vs) @ x = json_print sep col sf w @ y"
    have "print_kind w = 5"
      using print_starts [OF assms(1) Jlist.prems(2), of sep col] arg_cong [OF eq [symmetric], of hd]
      by simp
    then obtain ws where w: "w = Jlist ws" by (cases w) (auto split: if_splits)
    have "vs = ws \<and> x = y"
    proof (rule join_readable [OF assms(2,3)])
      show "\<not> number_char (CHR '']'')" "CHR '']'' \<noteq> CHR '',''" by (simp_all add: number_char_def)
      show "readable (json_print sep col sf) a b" if "a \<in> set vs" "b \<in> set ws" for a b
        using that Jlist w by simp
      show "json_print sep col sf a \<noteq> [] \<and> hd (json_print sep col sf a) \<noteq> CHR '']''"
        if "a \<in> set vs \<union> set ws" for a
        using that Jlist.prems w by (intro print_starts_open [OF assms(1)]) auto
      show "join_with sep (map (json_print sep col sf) vs) @ CHR '']'' # x
          = join_with sep (map (json_print sep col sf) ws) @ CHR '']'' # y"
        using eq w by simp
    qed
    with w show "Jlist vs = w \<and> x = y" by simp
  qed
next
  case (Jdict ps)
  let ?pr = "\<lambda>(k, v). json_string k @ col @ json_print sep col sf v"
  show ?case unfolding readable_def
  proof (intro allI impI)
    fix x y
    assume eq: "json_print sep col sf (Jdict ps) @ x = json_print sep col sf w @ y"
    have "print_kind w = 6"
      using print_starts [OF assms(1) Jdict.prems(2), of sep col] arg_cong [OF eq [symmetric], of hd]
      by simp
    then obtain qs where w: "w = Jdict qs" by (cases w) (auto split: if_splits)
    have "ps = qs \<and> x = y"
    proof (rule join_readable [OF assms(2,3)])
      show "\<not> number_char (CHR ''}'')" "CHR ''}'' \<noteq> CHR '',''" by (simp_all add: number_char_def)
      show "readable ?pr a b" if "a \<in> set ps" "b \<in> set qs" for a b
      proof -
        have "snd a \<in> Basic_BNFs.snds a" by (cases a) simp
        moreover have "floats_in F (snd a)" "floats_in F (snd b)" using that Jdict.prems w by auto
        ultimately have "readable (json_print sep col sf) (snd a) (snd b)"
          using Jdict.IH [OF that(1)] by blast
        from pair_readable [OF this, of col "fst a" "fst b"] show ?thesis by simp
      qed
      show "?pr a \<noteq> [] \<and> hd (?pr a) \<noteq> CHR ''}''" if "a \<in> set ps \<union> set qs" for a
        by (cases a) (simp add: json_string_def)
      show "join_with sep (map ?pr ps) @ CHR ''}'' # x = join_with sep (map ?pr qs) @ CHR ''}'' # y"
        using eq w by simp
    qed
    with w show "Jdict ps = w \<and> x = y" by simp
  qed
qed (auto intro!: json_scalar_is_readable [OF assms(1)])

section \<open>What a text determines\<close>

lemma floats_in_sorted [simp]: "floats_in F (sorted_keys v) \<longleftrightarrow> floats_in F v"
  by (induction v rule: sorted_keys.induct) (auto simp: split_def)

lemma json_print_eq_iff:
  assumes "prints_floats sf F" "floats_in F v" "floats_in F w" and "sep \<noteq> []" "hd sep = CHR '',''"
  shows "json_print sep col sf v = json_print sep col sf w \<longleftrightarrow> v = w"
  using json_print_readable [OF assms(1,4,5,2,3), of col] unfolding readable_def delimited_def by auto

lemma json_text_eq_iff:
  assumes "prints_floats sf F" "floats_in F v" "floats_in F w"
  shows "json_text sf v = json_text sf w \<longleftrightarrow> sorted_keys v = sorted_keys w"
  using json_print_eq_iff [OF assms(1), of "sorted_keys v" "sorted_keys w"] assms(2,3)
  by (simp add: json_text_print)

text \<open>Printers exist: one float and its text.\<close>

lemma half_printer: "prints_floats (\<lambda>_. ''0.5'') {1 / 2}"
  by (simp add: prints_floats_def number_char_def)

end
