(* ===== verification/Capability_Contract.thy ===== *)
theory Capability_Contract
  imports Execution
begin

text \<open>
  \<open>contracts/trust.py\<close> and \<open>capabilities/contract.py\<close>: where content comes from and what it may
  authorise, what a capability declares about itself, the risk of one call, and the refusal that
  stands in front of every question to a human. Enumerations keep the names of the source behind
  the letters of their class, since several of them share names.
\<close>

section \<open>Trust\<close>

datatype source_type =
  ST_USER_DIRECT | ST_HOME_ASSISTANT | ST_CODEX_RESULT | ST_SOLVIO_INFERENCE
| ST_SYSTEM_OBSERVATION | ST_GMAIL_MESSAGE | ST_WEB_PAGE

datatype trust_level =
  TL_SYSTEM_TRUSTED | TL_USER_DIRECT | TL_LOCAL_TRUSTED_TOOL | TL_MEMORY_CURATED
| TL_EXTERNAL_TOOL_RESULT | TL_UNTRUSTED_EMAIL | TL_UNTRUSTED_WEB | TL_UNTRUSTED_DOCUMENT
| TL_UNTRUSTED_MESSAGE | TL_AGENT_GENERATED

definition AUTHORITY_BEARING :: "trust_level list" where
  "AUTHORITY_BEARING = [TL_SYSTEM_TRUSTED, TL_USER_DIRECT]"

definition UNTRUSTED :: "trust_level list" where
  "UNTRUSTED = [TL_UNTRUSTED_EMAIL, TL_UNTRUSTED_WEB, TL_UNTRUSTED_DOCUMENT, TL_UNTRUSTED_MESSAGE]"

fun SOURCE_TRUST_MAP :: "source_type \<Rightarrow> trust_level option" where
  "SOURCE_TRUST_MAP ST_USER_DIRECT = Some TL_USER_DIRECT"
| "SOURCE_TRUST_MAP ST_HOME_ASSISTANT = Some TL_LOCAL_TRUSTED_TOOL"
| "SOURCE_TRUST_MAP ST_CODEX_RESULT = Some TL_AGENT_GENERATED"
| "SOURCE_TRUST_MAP ST_SOLVIO_INFERENCE = Some TL_AGENT_GENERATED"
| "SOURCE_TRUST_MAP ST_SYSTEM_OBSERVATION = Some TL_SYSTEM_TRUSTED"
| "SOURCE_TRUST_MAP ST_GMAIL_MESSAGE = Some TL_UNTRUSTED_EMAIL"
| "SOURCE_TRUST_MAP ST_WEB_PAGE = Some TL_UNTRUSTED_WEB"

definition trust_for_source :: "source_type \<Rightarrow> trust_level" where
  "trust_for_source st = (case SOURCE_TRUST_MAP st of None \<Rightarrow> TL_AGENT_GENERATED | Some t \<Rightarrow> t)"

definition bears_authority :: "trust_level \<Rightarrow> bool" where
  "bears_authority level \<longleftrightarrow> level \<in> set AUTHORITY_BEARING"

definition is_untrusted :: "trust_level \<Rightarrow> bool" where
  "is_untrusted level \<longleftrightarrow> level \<in> set UNTRUSTED"

record trust_context =
  tc_origin :: trust_level
  tc_user_authorized :: bool
  tc_note :: string

definition may_authorize :: "trust_context \<Rightarrow> bool" where
  "may_authorize t \<longleftrightarrow> tc_user_authorized t \<and> bears_authority (tc_origin t)"

section \<open>The declaration of a capability\<close>

datatype risk_level = RISK_HARMLESS | RISK_MUTATING | RISK_CRITICAL

fun risk_int :: "risk_level \<Rightarrow> int" where
  "risk_int RISK_HARMLESS = 1" | "risk_int RISK_MUTATING = 2" | "risk_int RISK_CRITICAL = 3"

text \<open>\<open>RiskLevel(n)\<close>; \<open>None\<close> is the \<open>ValueError\<close> of a number outside the enumeration.\<close>

definition risk_of_int :: "int \<Rightarrow> risk_level option" where
  "risk_of_int n = (if n = 1 then Some RISK_HARMLESS else if n = 2 then Some RISK_MUTATING
     else if n = 3 then Some RISK_CRITICAL else None)"

datatype execution_class = EC_FAST | EC_CONTROLLED | EC_DEEP | EC_BACKGROUND

fun execution_class_value :: "execution_class \<Rightarrow> string" where
  "execution_class_value EC_FAST = ''fast''"
| "execution_class_value EC_CONTROLLED = ''controlled''"
| "execution_class_value EC_DEEP = ''deep''"
| "execution_class_value EC_BACKGROUND = ''background''"

datatype argument_source =
  AS_USER_DIRECT | AS_TRUSTED_CONTEXT | AS_MODEL_DERIVED | AS_UNTRUSTED_CONTENT

fun SEMANTICS_RANK :: "semantics \<Rightarrow> nat" where
  "SEMANTICS_RANK READ_ONLY = 0"
| "SEMANTICS_RANK IDEMPOTENT_WRITE = 1"
| "SEMANTICS_RANK RECONCILABLE_WRITE = 2"
| "SEMANTICS_RANK NON_IDEMPOTENT_WRITE = 3"

fun SOURCE_RANK :: "argument_source \<Rightarrow> nat" where
  "SOURCE_RANK AS_USER_DIRECT = 0"
| "SOURCE_RANK AS_TRUSTED_CONTEXT = 1"
| "SOURCE_RANK AS_MODEL_DERIVED = 2"
| "SOURCE_RANK AS_UNTRUSTED_CONTENT = 3"

text \<open>The declared type of each property (absent if the schema names none), and what is required.\<close>

record schema =
  sc_properties :: "(string \<times> string option) list"
  sc_required :: "string list"

record capability_spec =
  cs_name :: string
  cs_version :: int
  cs_class :: execution_class
  cs_risk :: risk_level
  cs_semantics :: semantics
  cs_input :: schema
  cs_timeout :: time
  cs_cancellable :: bool

text \<open>
  \<open>__post_init__\<close>: what a declaration has to satisfy to exist. The value the messages end in is
  left out.
\<close>

definition check_spec :: "string \<Rightarrow> int \<Rightarrow> semantics_text \<Rightarrow> time \<Rightarrow> execution_class \<Rightarrow> unit result" where
  "check_spec name version sem timeout cls =
     (if name = [] \<or> strip_by str_space name = []
      then Inl (ValueError ''capability name must not be empty'')
      else if version < 1 then Inl (ValueError ''capability version must be >= 1'')
      else if sem \<notin> set ALL_SEMANTICS then Inl (ValueError ''unknown execution semantics'')
      else if timeout \<le> 0 then Inl (ValueError ''timeout must be positive'')
      else if cls = EC_FAST \<and> sem \<noteq> Sem READ_ONLY
      then Inl (ValueError ''FAST capability must be READ_ONLY'')
      else Inr ())"

definition spec_ok :: "capability_spec \<Rightarrow> bool" where
  "spec_ok sp \<longleftrightarrow> check_spec (cs_name sp) (cs_version sp) (Sem (cs_semantics sp)) (cs_timeout sp)
     (cs_class sp) = Inr ()"

definition effective_semantics :: "capability_spec \<Rightarrow> semantics" where
  "effective_semantics sp =
     (case CAPABILITY_SEMANTICS (cs_name sp) of
        None \<Rightarrow> cs_semantics sp
      | Some pinned \<Rightarrow>
          if SEMANTICS_RANK pinned \<ge> SEMANTICS_RANK (cs_semantics sp) then pinned
          else cs_semantics sp)"

definition is_read_only :: "capability_spec \<Rightarrow> bool" where
  "is_read_only sp \<longleftrightarrow> effective_semantics sp = READ_ONLY"

section \<open>The risk of a call\<close>

definition worst_source :: "argument_source list \<Rightarrow> argument_source" where
  "worst_source sources = fold (\<lambda>source worst.
     if SOURCE_RANK source > SOURCE_RANK worst then source else worst) sources AS_USER_DIRECT"

text \<open>Where each argument comes from; a missing provenance is the empty one.\<close>

type_synonym provenance = "(string \<times> argument_source) list"

definition effective_risk :: "capability_spec \<Rightarrow> provenance \<Rightarrow> risk_level" where
  "effective_risk sp prov =
     (let risk = cs_risk sp in
      if is_read_only sp then risk
      else let worst = worst_source (map snd prov) in
        if worst = AS_UNTRUSTED_CONTENT then RISK_CRITICAL
        else if worst = AS_MODEL_DERIVED
        then the (risk_of_int (max (risk_int risk) (min (risk_int RISK_CRITICAL) (risk_int risk + 1))))
        else risk)"

definition requires_approval :: "risk_level \<Rightarrow> bool" where
  "requires_approval risk \<longleftrightarrow> risk_int risk \<ge> risk_int RISK_MUTATING"

definition authority_refusal :: "capability_spec \<Rightarrow> trust_context \<Rightarrow> risk_level \<Rightarrow> string option" where
  "authority_refusal sp trust risk =
     (if is_read_only sp \<and> \<not> requires_approval risk then None
      else if is_untrusted (tc_origin trust) then Some ''untrusted_origin''
      else if \<not> may_authorize trust then Some ''no_user_authority''
      else None)"

section \<open>Lemmas\<close>

lemma fold_worst:
  "SOURCE_RANK (fold (\<lambda>source worst. if SOURCE_RANK source > SOURCE_RANK worst then source else worst)
     sources w) = Max (insert (SOURCE_RANK w) (SOURCE_RANK ` set sources))"
proof (induction sources arbitrary: w)
  case (Cons x xs)
  let ?w = "if SOURCE_RANK x > SOURCE_RANK w then x else w"
  have "SOURCE_RANK ?w = max (SOURCE_RANK w) (SOURCE_RANK x)" by simp
  moreover have "Max (insert (max a b) A) = Max (insert a (insert b A))"
    if "finite A" for a b :: nat and A using that by (cases "A = {}") simp_all
  ultimately show ?case using Cons.IH [of ?w] by simp
qed simp

lemma SOURCE_RANK_inj: "SOURCE_RANK a = SOURCE_RANK b \<Longrightarrow> a = b"
  by (cases a; cases b) simp_all

lemma worst_source_untrusted:
  "worst_source sources = AS_UNTRUSTED_CONTENT \<longleftrightarrow> AS_UNTRUSTED_CONTENT \<in> set sources"
proof -
  have le: "SOURCE_RANK a \<le> 3" for a by (cases a) simp_all
  have r: "SOURCE_RANK (worst_source sources) = Max (insert 0 (SOURCE_RANK ` set sources))"
    unfolding worst_source_def fold_worst by simp
  have "worst_source sources = AS_UNTRUSTED_CONTENT \<longleftrightarrow> SOURCE_RANK (worst_source sources) = 3"
    using SOURCE_RANK_inj [of _ AS_UNTRUSTED_CONTENT] by auto
  also have "\<dots> \<longleftrightarrow> 3 \<in> insert 0 (SOURCE_RANK ` set sources)"
    unfolding r by (rule Max_eq_iff [THEN trans]) (auto simp: le)
  also have "\<dots> \<longleftrightarrow> AS_UNTRUSTED_CONTENT \<in> set sources"
    using SOURCE_RANK_inj [of AS_UNTRUSTED_CONTENT] by (force simp: image_iff)
  finally show ?thesis .
qed

text \<open>The provenance of the arguments can only raise the risk a capability declares.\<close>

lemma risk_monotone: "risk_int (cs_risk sp) \<le> risk_int (effective_risk sp prov)"
  by (cases "cs_risk sp") (auto simp: effective_risk_def Let_def risk_of_int_def)

lemma risk_raised:
  "\<not> is_read_only sp \<Longrightarrow> AS_UNTRUSTED_CONTENT \<in> set (map snd prov) \<Longrightarrow>
   effective_risk sp prov = RISK_CRITICAL"
  using worst_source_untrusted [of "map snd prov"] by (simp add: effective_risk_def Let_def)

lemma authority_needed:
  "authority_refusal sp trust risk = None \<Longrightarrow> \<not> is_read_only sp \<Longrightarrow>
   may_authorize trust \<and> \<not> is_untrusted (tc_origin trust)"
  by (auto simp: authority_refusal_def split: if_splits)

end
