(* ===== verification/Capability_Policy.thy ===== *)
theory Capability_Policy
  imports Capability_Contract
begin

text \<open>
  \<open>capabilities/policy.py\<close>: the matrix of origins and action classes that decides when a human is
  asked, the class registry, the floor a capability puts under its own class, the two overlays and
  the one exception. The matrix and the tables are the ones of the source, cell by cell.
\<close>

datatype origin_class =
  OC_TRUSTED_INTERACTIVE_APP | OC_ROOM_VOICE | OC_LOCAL_OWNER | OC_BACKGROUND_AUTOMATION
| OC_EXTERNAL_UNTRUSTED | OC_UNSPECIFIED

datatype action_class =
  AC_READ_ONLY | AC_HA_NORMAL | AC_HA_SECURITY | AC_NORMAL_WRITE | AC_CRITICAL | AC_VERY_CRITICAL
| AC_UNCLASSIFIED

datatype decision = EXECUTE_DIRECTLY | REQUIRE_FACE_ID | DENY | EXISTING_SPECIAL_POLICY

section \<open>Tables\<close>

definition STRICTNESS :: "decision \<rightharpoonup> nat" where
  "STRICTNESS = [EXECUTE_DIRECTLY \<mapsto> 0, REQUIRE_FACE_ID \<mapsto> 1, DENY \<mapsto> 2]"

text \<open>The decision without a rank is a \<open>KeyError\<close> in the source.\<close>

definition stricter :: "decision \<Rightarrow> decision \<Rightarrow> decision result" where
  "stricter left right = (case (STRICTNESS left, STRICTNESS right) of
     (Some a, Some b) \<Rightarrow> Inr (if a \<ge> b then left else right) | _ \<Rightarrow> Inl KeyError)"

fun MATRIX :: "origin_class \<Rightarrow> action_class \<Rightarrow> decision" where
  "MATRIX OC_TRUSTED_INTERACTIVE_APP AC_READ_ONLY = EXECUTE_DIRECTLY"
| "MATRIX OC_TRUSTED_INTERACTIVE_APP AC_HA_NORMAL = EXECUTE_DIRECTLY"
| "MATRIX OC_TRUSTED_INTERACTIVE_APP AC_HA_SECURITY = EXECUTE_DIRECTLY"
| "MATRIX OC_TRUSTED_INTERACTIVE_APP AC_NORMAL_WRITE = EXECUTE_DIRECTLY"
| "MATRIX OC_TRUSTED_INTERACTIVE_APP AC_CRITICAL = EXECUTE_DIRECTLY"
| "MATRIX OC_TRUSTED_INTERACTIVE_APP AC_VERY_CRITICAL = REQUIRE_FACE_ID"
| "MATRIX OC_TRUSTED_INTERACTIVE_APP AC_UNCLASSIFIED = REQUIRE_FACE_ID"
| "MATRIX OC_ROOM_VOICE AC_READ_ONLY = EXECUTE_DIRECTLY"
| "MATRIX OC_ROOM_VOICE AC_HA_NORMAL = EXECUTE_DIRECTLY"
| "MATRIX OC_ROOM_VOICE AC_HA_SECURITY = REQUIRE_FACE_ID"
| "MATRIX OC_ROOM_VOICE AC_NORMAL_WRITE = REQUIRE_FACE_ID"
| "MATRIX OC_ROOM_VOICE AC_CRITICAL = REQUIRE_FACE_ID"
| "MATRIX OC_ROOM_VOICE AC_VERY_CRITICAL = REQUIRE_FACE_ID"
| "MATRIX OC_ROOM_VOICE AC_UNCLASSIFIED = REQUIRE_FACE_ID"
| "MATRIX OC_LOCAL_OWNER AC_READ_ONLY = EXECUTE_DIRECTLY"
| "MATRIX OC_LOCAL_OWNER AC_HA_NORMAL = EXECUTE_DIRECTLY"
| "MATRIX OC_LOCAL_OWNER AC_HA_SECURITY = REQUIRE_FACE_ID"
| "MATRIX OC_LOCAL_OWNER AC_NORMAL_WRITE = REQUIRE_FACE_ID"
| "MATRIX OC_LOCAL_OWNER AC_CRITICAL = REQUIRE_FACE_ID"
| "MATRIX OC_LOCAL_OWNER AC_VERY_CRITICAL = REQUIRE_FACE_ID"
| "MATRIX OC_LOCAL_OWNER AC_UNCLASSIFIED = REQUIRE_FACE_ID"
| "MATRIX OC_BACKGROUND_AUTOMATION AC_READ_ONLY = EXECUTE_DIRECTLY"
| "MATRIX OC_BACKGROUND_AUTOMATION AC_HA_NORMAL = REQUIRE_FACE_ID"
| "MATRIX OC_BACKGROUND_AUTOMATION AC_HA_SECURITY = REQUIRE_FACE_ID"
| "MATRIX OC_BACKGROUND_AUTOMATION AC_NORMAL_WRITE = REQUIRE_FACE_ID"
| "MATRIX OC_BACKGROUND_AUTOMATION AC_CRITICAL = REQUIRE_FACE_ID"
| "MATRIX OC_BACKGROUND_AUTOMATION AC_VERY_CRITICAL = DENY"
| "MATRIX OC_BACKGROUND_AUTOMATION AC_UNCLASSIFIED = REQUIRE_FACE_ID"
| "MATRIX OC_EXTERNAL_UNTRUSTED AC_READ_ONLY = EXECUTE_DIRECTLY"
| "MATRIX OC_EXTERNAL_UNTRUSTED AC_HA_NORMAL = DENY"
| "MATRIX OC_EXTERNAL_UNTRUSTED AC_HA_SECURITY = DENY"
| "MATRIX OC_EXTERNAL_UNTRUSTED AC_NORMAL_WRITE = DENY"
| "MATRIX OC_EXTERNAL_UNTRUSTED AC_CRITICAL = DENY"
| "MATRIX OC_EXTERNAL_UNTRUSTED AC_VERY_CRITICAL = DENY"
| "MATRIX OC_EXTERNAL_UNTRUSTED AC_UNCLASSIFIED = DENY"
| "MATRIX OC_UNSPECIFIED AC_READ_ONLY = EXECUTE_DIRECTLY"
| "MATRIX OC_UNSPECIFIED AC_HA_NORMAL = REQUIRE_FACE_ID"
| "MATRIX OC_UNSPECIFIED AC_HA_SECURITY = REQUIRE_FACE_ID"
| "MATRIX OC_UNSPECIFIED AC_NORMAL_WRITE = REQUIRE_FACE_ID"
| "MATRIX OC_UNSPECIFIED AC_CRITICAL = REQUIRE_FACE_ID"
| "MATRIX OC_UNSPECIFIED AC_VERY_CRITICAL = REQUIRE_FACE_ID"
| "MATRIX OC_UNSPECIFIED AC_UNCLASSIFIED = REQUIRE_FACE_ID"

definition ACTION_CLASS :: "(string \<times> action_class) list" where
  "ACTION_CLASS = [
    (''ha_turn_on'', AC_HA_NORMAL),
    (''ha_turn_off'', AC_HA_NORMAL),
    (''ha_set_brightness'', AC_HA_NORMAL),
    (''calendar_create_event'', AC_NORMAL_WRITE),
    (''calendar_update_event'', AC_NORMAL_WRITE),
    (''gmail_create_draft'', AC_NORMAL_WRITE),
    (''memory_confirm_candidate'', AC_NORMAL_WRITE),
    (''memory_decline_candidate'', AC_NORMAL_WRITE),
    (''memory_correct'', AC_NORMAL_WRITE),
    (''memory_forget'', AC_NORMAL_WRITE),
    (''background_create'', AC_NORMAL_WRITE),
    (''background_pause'', AC_NORMAL_WRITE),
    (''background_resume'', AC_NORMAL_WRITE),
    (''background_delete'', AC_NORMAL_WRITE),
    (''background_require_approval'', AC_NORMAL_WRITE),
    (''background_run_now'', AC_NORMAL_WRITE),
    (''proactive_mark_read'', AC_NORMAL_WRITE),
    (''agent_task_research'', AC_NORMAL_WRITE),
    (''agent_task_build'', AC_NORMAL_WRITE),
    (''agent_run_resume'', AC_NORMAL_WRITE),
    (''gmail_send_draft'', AC_CRITICAL),
    (''communication_send'', AC_CRITICAL),
    (''payment_intent_prepare'', AC_CRITICAL),
    (''payment_intent_cancel'', AC_NORMAL_WRITE),
    (''payment_reconcile'', AC_CRITICAL),
    (''payment_method_disable'', AC_CRITICAL),
    (''payment_limit_lower'', AC_CRITICAL),
    (''purchase_cancel'', AC_CRITICAL),
    (''refund_request'', AC_CRITICAL),
    (''calendar_delete_event'', AC_CRITICAL),
    (''memory_purge'', AC_CRITICAL),
    (''portal_login'', AC_CRITICAL),
    (''secret_disable'', AC_CRITICAL),
    (''codex_modify'', AC_VERY_CRITICAL),
    (''codex_task'', AC_VERY_CRITICAL)]"

definition VERY_CRITICAL_BY_BIRTH :: "string list" where
  "VERY_CRITICAL_BY_BIRTH = [
    ''memory_purge_all'', ''memory_wipe'', ''memory_factory_reset'', ''solvio_reset'',
    ''solvio_wipe'', ''approval_policy_set'', ''trust_policy_set'', ''security_disable'',
    ''device_revoke'', ''device_remove'', ''identity_change'', ''credentials_export'',
    ''secret_reveal'', ''payment_send'', ''bank_transfer'', ''purchase_place'',
    ''invest_order'', ''payment_method_add'', ''payment_method_replace'',
    ''payment_method_remove'', ''payment_method_enable'', ''payment_method_rescope'',
    ''payment_limit_raise'', ''secret_add'', ''secret_replace'', ''secret_delete'',
    ''secret_enable'', ''secret_rescope'', ''vault_reset'', ''vault_recovery_configure'',
    ''telephony_call'', ''communication_confirm_binding'']"

definition SPECIAL_POLICY :: "string list" where
  "SPECIAL_POLICY = [''memory_remember'', ''system_heal'']"

fun CLASS_RANK :: "action_class \<Rightarrow> nat" where
  "CLASS_RANK AC_READ_ONLY = 0"
| "CLASS_RANK AC_HA_NORMAL = 1"
| "CLASS_RANK AC_HA_SECURITY = 2"
| "CLASS_RANK AC_NORMAL_WRITE = 2"
| "CLASS_RANK AC_CRITICAL = 2"
| "CLASS_RANK AC_UNCLASSIFIED = 3"
| "CLASS_RANK AC_VERY_CRITICAL = 4"

definition RISK_FLOOR :: "int \<rightharpoonup> action_class" where
  "RISK_FLOOR = [2 \<mapsto> AC_NORMAL_WRITE, 3 \<mapsto> AC_CRITICAL]"

section \<open>The class of a call\<close>

definition apply_floor :: "action_class \<Rightarrow> risk_level \<Rightarrow> action_class" where
  "apply_floor cls base_risk = (case RISK_FLOOR (risk_int base_risk) of
       None \<Rightarrow> cls
     | Some least \<Rightarrow> if CLASS_RANK cls \<ge> CLASS_RANK least then cls else least)"

record classification =
  cl_class :: action_class
  cl_targets :: "string list"
  cl_reason :: string

definition base_class :: "string \<Rightarrow> bool \<Rightarrow> action_class" where
  "base_class name read_only =
     (if name \<in> set VERY_CRITICAL_BY_BIRTH then AC_VERY_CRITICAL
      else if read_only then AC_READ_ONLY
      else case map_of ACTION_CLASS name of None \<Rightarrow> AC_UNCLASSIFIED | Some c \<Rightarrow> c)"

definition has_untrusted_argument :: "provenance \<Rightarrow> bool" where
  "has_untrusted_argument prov =
     (if prov = [] then False else worst_source (map snd prov) = AS_UNTRUSTED_CONTENT)"

section \<open>The decision\<close>

record policy_outcome =
  po_decision :: decision
  po_origin :: origin_class
  po_class :: action_class
  po_reason :: string
  po_preauth :: string

definition needs_approval :: "policy_outcome \<Rightarrow> bool" where
  "needs_approval po \<longleftrightarrow> po_decision po = REQUIRE_FACE_ID"

text \<open>What both overlays do with a cell: the critical cell of the same origin counts too, and there
  is no direct execution.\<close>

definition no_direct :: "origin_class \<Rightarrow> decision \<Rightarrow> decision result" where
  "no_direct origin cell = (case stricter cell (MATRIX origin AC_CRITICAL) of
       Inl e \<Rightarrow> Inl e
     | Inr d \<Rightarrow> Inr (if d = EXECUTE_DIRECTLY then REQUIRE_FACE_ID else d))"

definition decide :: "origin_class \<Rightarrow> action_class \<Rightarrow> string \<Rightarrow> provenance \<Rightarrow> bool \<Rightarrow> string
    \<Rightarrow> policy_outcome result" where
  "decide origin cls capability prov commanded preauth =
     (let outcome = (\<lambda>d reason. \<lparr>po_decision = d, po_origin = origin, po_class = cls,
             po_reason = reason, po_preauth = []\<rparr>);
          cell = MATRIX origin cls
      in if capability \<in> set SPECIAL_POLICY
         then Inr (outcome EXISTING_SPECIAL_POLICY ''special_policy'')
         else if cls \<noteq> AC_READ_ONLY \<and> \<not> commanded then
           (case no_direct origin cell of
              Inl e \<Rightarrow> Inl e | Inr d \<Rightarrow> Inr (outcome d ''turn_not_a_command''))
         else if cls \<noteq> AC_READ_ONLY \<and> has_untrusted_argument prov then
           (case no_direct origin cell of
              Inl e \<Rightarrow> Inl e | Inr d \<Rightarrow> Inr (outcome d ''untrusted_argument_overlay''))
         else if preauth \<noteq> [] \<and> origin = OC_BACKGROUND_AUTOMATION \<and> cls = AC_HA_NORMAL
         then Inr ((outcome EXECUTE_DIRECTLY ''bounded_preauthorization'')\<lparr>po_preauth := preauth\<rparr>)
         else Inr (outcome cell (if cls = AC_UNCLASSIFIED then ''unclassified_action''
                else if origin = OC_UNSPECIFIED then ''origin_unspecified'' else ''matrix_cell'')))"

section \<open>Where a session comes from\<close>

definition CHANNEL_ORIGIN :: "string \<rightharpoonup> origin_class" where
  "CHANNEL_ORIGIN = [''voice_iphone'' \<mapsto> OC_TRUSTED_INTERACTIVE_APP,
                     ''voice_satellite'' \<mapsto> OC_ROOM_VOICE]"

definition origin_for_session :: "string option \<Rightarrow> bool \<Rightarrow> origin_class" where
  "origin_for_session channel interactive_proof =
     (let origin = (case CHANNEL_ORIGIN (or_empty channel) of None \<Rightarrow> OC_UNSPECIFIED | Some o1 \<Rightarrow> o1)
      in if origin = OC_TRUSTED_INTERACTIVE_APP \<and> \<not> interactive_proof then OC_ROOM_VOICE
         else origin)"

fun ORIGIN_LABEL :: "origin_class \<Rightarrow> string" where
  "ORIGIN_LABEL OC_TRUSTED_INTERACTIVE_APP = ''iPhone-App''"
| "ORIGIN_LABEL OC_ROOM_VOICE = ''Raum-Mikrofon''"
| "ORIGIN_LABEL OC_LOCAL_OWNER = ''Rechner''"
| "ORIGIN_LABEL OC_BACKGROUND_AUTOMATION = ''Hintergrundlauf''"
| "ORIGIN_LABEL OC_EXTERNAL_UNTRUSTED = ''fremder Inhalt''"
| "ORIGIN_LABEL OC_UNSPECIFIED = ''unbekannt''"

definition origin_label :: "origin_class \<Rightarrow> string" where
  "origin_label origin = ORIGIN_LABEL origin"

section \<open>What the policy promises\<close>

lemma MATRIX_ranked: "STRICTNESS (MATRIX origin cls) \<noteq> None"
  by (cases origin; cases cls) (simp_all add: STRICTNESS_def)

lemma no_direct_Inr: "\<exists>d. no_direct origin (MATRIX origin cls) = Inr d \<and>
   (d = REQUIRE_FACE_ID \<or> d = DENY)"
  by (cases origin; cases cls) (simp_all add: no_direct_def stricter_def STRICTNESS_def)

lemma MATRIX_direct:
  "MATRIX origin cls = EXECUTE_DIRECTLY \<longleftrightarrow>
   cls = AC_READ_ONLY \<or>
   origin = OC_TRUSTED_INTERACTIVE_APP \<and> cls \<notin> {AC_VERY_CRITICAL, AC_UNCLASSIFIED} \<or>
   origin \<in> {OC_ROOM_VOICE, OC_LOCAL_OWNER} \<and> cls = AC_HA_NORMAL"
  by (cases origin; cases cls) simp_all

lemma untrusted_argument_iff:
  "has_untrusted_argument prov \<longleftrightarrow> AS_UNTRUSTED_CONTENT \<in> snd ` set prov"
  using worst_source_untrusted [of "map snd prov"] by (auto simp: has_untrusted_argument_def)

lemma decide_Inr: "\<exists>po. decide origin cls capability prov commanded preauth = Inr po"
  using no_direct_Inr [of origin cls] by (auto simp: decide_def Let_def)


text \<open>
  Strictness as an order on decisions, for the monotonicity of the inputs a caller could tamper with.
\<close>

definition as_strict :: "decision \<Rightarrow> decision \<Rightarrow> bool" where
  "as_strict a b = (case (STRICTNESS a, STRICTNESS b) of (Some m, Some n) \<Rightarrow> m \<le> n | _ \<Rightarrow> a = b)"

definition decision_of :: "policy_outcome result \<Rightarrow> decision" where
  "decision_of r = (case r of Inr po \<Rightarrow> po_decision po | Inl _ \<Rightarrow> DENY)"

lemma as_strict_refl: "as_strict d d"
  by (cases d) (simp_all add: as_strict_def STRICTNESS_def)

lemma as_strict_direct: "d \<noteq> EXISTING_SPECIAL_POLICY \<Longrightarrow> as_strict EXECUTE_DIRECTLY d"
  by (cases d) (simp_all add: as_strict_def STRICTNESS_def)

lemma MATRIX_never_special: "MATRIX origin cls \<noteq> EXISTING_SPECIAL_POLICY"
  by (cases origin; cases cls) simp_all

lemma no_direct_stricter:
  "\<exists>d. no_direct origin (MATRIX origin cls) = Inr d \<and> as_strict (MATRIX origin cls) d \<and>
     d \<noteq> EXISTING_SPECIAL_POLICY"
  by (cases origin; cases cls)
    (simp_all add: no_direct_def stricter_def STRICTNESS_def as_strict_def)

text \<open>
  Taking evidence away never makes the policy more lenient: a turn that is no longer a command,
  an argument that turns out to be foreign or a preauthorisation that falls away leave the decision
  as strict or make it stricter.
\<close>

theorem less_evidence_is_never_more_lenient:
  assumes "commanded' \<longrightarrow> commanded"
    and "AS_UNTRUSTED_CONTENT \<in> snd ` set prov \<longrightarrow> AS_UNTRUSTED_CONTENT \<in> snd ` set prov'"
    and "preauth' \<noteq> [] \<longrightarrow> preauth \<noteq> []"
  shows "as_strict (decision_of (decide origin cls capability prov commanded preauth))
                   (decision_of (decide origin cls capability prov' commanded' preauth'))"
proof -
  obtain d where d: "no_direct origin (MATRIX origin cls) = Inr d"
    "as_strict (MATRIX origin cls) d" "d \<noteq> EXISTING_SPECIAL_POLICY"
    using no_direct_stricter by blast
  show ?thesis
    using assms d MATRIX_never_special [of origin cls]
    unfolding untrusted_argument_iff [symmetric]
    by (auto simp: decide_def decision_of_def Let_def as_strict_refl as_strict_direct)
qed

theorem less_evidence_is_never_more_lenient_witness:
  "as_strict (decision_of (decide OC_TRUSTED_INTERACTIVE_APP AC_CRITICAL ''gmail_send_draft'' [] True []))
     (decision_of (decide OC_TRUSTED_INTERACTIVE_APP AC_CRITICAL ''gmail_send_draft''
        [(''to'', AS_UNTRUSTED_CONTENT)] False []))"
  by (rule less_evidence_is_never_more_lenient) simp_all

lemma apply_floor_rank: "CLASS_RANK cls \<le> CLASS_RANK (apply_floor cls risk)"
  by (cases risk) (auto simp: apply_floor_def RISK_FLOOR_def)

lemma apply_floor_very_critical: "apply_floor AC_VERY_CRITICAL risk = AC_VERY_CRITICAL"
  by (cases risk) (simp_all add: apply_floor_def RISK_FLOOR_def)

lemma very_critical_not_special: "name \<in> set VERY_CRITICAL_BY_BIRTH \<Longrightarrow> name \<notin> set SPECIAL_POLICY"
  by (auto simp: VERY_CRITICAL_BY_BIRTH_def SPECIAL_POLICY_def)

text \<open>
  What was born very critical is never done without the human's face, from no origin, whatever
  the capability declares about itself and whatever preauthorisation is presented; from a schedule
  and from foreign content it is denied.
\<close>

theorem born_very_critical_stays_biometric:
  assumes "name \<in> set VERY_CRITICAL_BY_BIRTH"
  shows "\<exists>po. decide origin (apply_floor (base_class name read_only) risk) name prov commanded preauth
      = Inr po \<and> po_decision po = (if origin \<in> {OC_BACKGROUND_AUTOMATION, OC_EXTERNAL_UNTRUSTED}
        then DENY else REQUIRE_FACE_ID)"
  using assms very_critical_not_special [OF assms]
  by (cases origin) (simp_all add: base_class_def apply_floor_very_critical decide_def Let_def
      no_direct_def stricter_def STRICTNESS_def)

theorem born_very_critical_stays_biometric_witness:
  "\<exists>po. decide OC_TRUSTED_INTERACTIVE_APP (apply_floor (base_class ''secret_reveal'' True) RISK_HARMLESS)
     ''secret_reveal'' [] True ''pa-1'' = Inr po \<and> po_decision po = REQUIRE_FACE_ID"
proof -
  have "''secret_reveal'' \<in> set VERY_CRITICAL_BY_BIRTH" by (simp add: VERY_CRITICAL_BY_BIRTH_def)
  from born_very_critical_stays_biometric [OF this, of OC_TRUSTED_INTERACTIVE_APP True RISK_HARMLESS
      "[]" True "''pa-1''"]
  show ?thesis by simp
qed

end
