(* ===== verification/Preauthorization.thy ===== *)
theory Preauthorization
  imports Json_Canonical Execution Capability_Policy
begin

text \<open>
  \<open>capabilities/preauth.py\<close>: the one relaxation of the approval policy, a permission bound to the
  effect it permits. A schedule, an argument mapping and what is read from them are JSON values.
  \<open>python_text\<close> holds what Python's \<open>str\<close> prints for a float and for a list or a dict and what
  \<open>float\<close> reads from a text; all other conversions are written out. Text of the digits of other scripts, which \<open>int\<close> would read too, is
  outside the model.
\<close>

section \<open>Python's conversions\<close>

record python_text =
  pt_float :: "real \<Rightarrow> string"
  pt_container :: "json_value \<Rightarrow> string"
  pt_read_float :: "string \<Rightarrow> real option"

fun py_str :: "python_text \<Rightarrow> json_value \<Rightarrow> string" where
  "py_str P Jnull = ''None''"
| "py_str P (Jbool b) = (if b then ''True'' else ''False'')"
| "py_str P (Jint i) = int_text i"
| "py_str P (Jreal r) = pt_float P r"
| "py_str P (Jstr s) = s"
| "py_str P v = pt_container P v"

fun json_truthy :: "json_value \<Rightarrow> bool" where
  "json_truthy Jnull \<longleftrightarrow> False"
| "json_truthy (Jbool b) \<longleftrightarrow> b"
| "json_truthy (Jint i) \<longleftrightarrow> i \<noteq> 0"
| "json_truthy (Jreal r) \<longleftrightarrow> r \<noteq> 0"
| "json_truthy (Jstr s) \<longleftrightarrow> s \<noteq> []"
| "json_truthy (Jlist vs) \<longleftrightarrow> vs \<noteq> []"
| "json_truthy (Jdict ps) \<longleftrightarrow> ps \<noteq> []"

fun int_digits :: "int \<Rightarrow> bool \<Rightarrow> string \<Rightarrow> int option" where
  "int_digits n after [] = (if after then Some n else None)"
| "int_digits n after (c # cs) =
     (if 48 \<le> code c \<and> code c \<le> 57 then int_digits (10 * n + int (digit_value c)) True cs
      else if c = CHR ''_'' \<and> after then int_digits n False cs else None)"

definition int_of_text :: "string \<Rightarrow> int result" where
  "int_of_text s =
     (let t = strip_by str_space s;
          r = (case t of
                 [] \<Rightarrow> None
               | c # cs \<Rightarrow> if c = CHR ''-'' then map_option uminus (int_digits 0 False cs)
                   else if c = CHR ''+'' then int_digits 0 False cs
                   else int_digits 0 False (c # cs))
      in case r of None \<Rightarrow> Inl (ValueError ''invalid literal for int() with base 10'')
         | Some i \<Rightarrow> Inr i)"

fun py_int :: "json_value \<Rightarrow> int result" where
  "py_int (Jint i) = Inr i"
| "py_int (Jbool b) = Inr (if b then 1 else 0)"
| "py_int (Jreal r) = Inr (if r < 0 then - \<lfloor>- r\<rfloor> else \<lfloor>r\<rfloor>)"
| "py_int (Jstr s) = int_of_text s"
| "py_int _ = Inl TypeError"

text \<open>\<open>for d in v\<close>: the elements of a list, the keys of a dict, the characters of a string.\<close>

fun py_iter :: "json_value \<Rightarrow> json_value list result" where
  "py_iter (Jlist vs) = Inr vs"
| "py_iter (Jdict ps) = Inr (map (\<lambda>p. Jstr (fst p)) ps)"
| "py_iter (Jstr s) = Inr (map (\<lambda>c. Jstr [c]) s)"
| "py_iter _ = Inl TypeError"

fun all_ints :: "json_value list \<Rightarrow> int list result" where
  "all_ints [] = Inr []"
| "all_ints (v # vs) = (case py_int v of Inl e \<Rightarrow> Inl e | Inr i \<Rightarrow>
     (case all_ints vs of Inl e \<Rightarrow> Inl e | Inr ds \<Rightarrow> Inr (i # ds)))"

type_synonym json_object = "(string \<times> json_value) list"

definition get_or :: "json_value \<Rightarrow> string \<Rightarrow> json_object \<Rightarrow> json_value" where
  "get_or dflt key ps = (case map_of ps key of None \<Rightarrow> dflt | Some v \<Rightarrow> v)"

section \<open>What is bound\<close>

definition RECURRING_KINDS :: "string list" where
  "RECURRING_KINDS = [''daily'', ''weekly'', ''interval'']"

definition bound_weekdays :: "json_object \<Rightarrow> int list result" where
  "bound_weekdays plan =
     (let v = get_or Jnull ''wochentage'' plan
      in if \<not> json_truthy v then Inr []
         else case py_iter v of Inl e \<Rightarrow> Inl e | Inr vs \<Rightarrow>
           (case all_ints vs of Inl e \<Rightarrow> Inl e | Inr ds \<Rightarrow> Inr (sort ds)))"

definition bound_interval :: "json_object \<Rightarrow> int result" where
  "bound_interval plan =
     (let v = get_or Jnull ''abstand_s'' plan
      in if \<not> json_truthy v then Inr 0 else py_int v)"

definition schedule_binding :: "python_text \<Rightarrow> json_object \<Rightarrow> json_object result" where
  "schedule_binding P plan =
     (let kind = py_str P (get_or (get_or (Jstr []) ''kind'' plan) ''art'' plan);
          bound = [(''art'', Jstr kind), (''zeitzone'', Jstr (py_str P (get_or (Jstr []) ''zeitzone'' plan)))];
          clock = (''uhrzeit'', Jstr (py_str P (get_or (Jstr []) ''uhrzeit'' plan)))
      in if kind = ''daily'' then Inr (bound @ [clock])
         else if kind = ''weekly'' then
           (case bound_weekdays plan of Inl e \<Rightarrow> Inl e
            | Inr ds \<Rightarrow> Inr (bound @ [clock, (''wochentage'', Jlist (map Jint ds))]))
         else if kind = ''interval'' then
           (case bound_interval plan of Inl e \<Rightarrow> Inl e
            | Inr n \<Rightarrow> Inr (bound @ [(''abstand_s'', Jint n)]))
         else Inr bound)"

definition PREAUTH_DOMAIN :: string where
  "PREAUTH_DOMAIN = ''SOLVIO_AUTOMATION_PREAUTH_V1''"

definition DIGEST_VERSION :: int where
  "DIGEST_VERSION = 1"

definition ELIGIBLE_CLASS :: action_class where
  "ELIGIBLE_CLASS = AC_HA_NORMAL"

fun action_class_value :: "action_class \<Rightarrow> string" where
  "action_class_value AC_READ_ONLY = ''read_only''"
| "action_class_value AC_HA_NORMAL = ''ha_normal''"
| "action_class_value AC_HA_SECURITY = ''ha_security''"
| "action_class_value AC_NORMAL_WRITE = ''normal_write''"
| "action_class_value AC_CRITICAL = ''critical''"
| "action_class_value AC_VERY_CRITICAL = ''very_critical''"
| "action_class_value AC_UNCLASSIFIED = ''unclassified''"

definition preauth_payload :: "string \<Rightarrow> string \<Rightarrow> string \<Rightarrow> string list \<Rightarrow> json_object \<Rightarrow> json_object
    \<Rightarrow> json_object" where
  "preauth_payload automation_id capability class_value targets args bound =
     [(''v'', Jint DIGEST_VERSION), (''automation_id'', Jstr automation_id),
      (''capability'', Jstr capability), (''action_class'', Jstr class_value),
      (''targets'', Jlist (map Jstr (sort targets))), (''arguments'', Jdict args),
      (''schedule'', Jdict bound)]"

definition preauth_preimage :: "python_text \<Rightarrow> json_object \<Rightarrow> string" where
  "preauth_preimage P payload =
     PREAUTH_DOMAIN @ [CHR 0x00] @ json_text (pt_float P) (Jdict payload)"

definition preauth_digest :: "(string \<Rightarrow> string) \<Rightarrow> python_text \<Rightarrow> string \<Rightarrow> string \<Rightarrow> string
    \<Rightarrow> string list \<Rightarrow> json_object \<Rightarrow> json_object \<Rightarrow> string result" where
  "preauth_digest H P automation_id capability class_value targets args schedule =
     (case schedule_binding P schedule of Inl e \<Rightarrow> Inl e
      | Inr bound \<Rightarrow> Inr (sha256_hex H (preauth_preimage P
          (preauth_payload automation_id capability class_value targets args bound))))"

section \<open>The permission\<close>

record preauthorization =
  pa_id :: string
  pa_automation :: string
  pa_capability :: string
  pa_class :: string
  pa_targets :: "string list"
  pa_digest :: string
  pa_revision :: int
  pa_created_at :: time
  pa_created_origin :: string
  pa_created_principal :: string
  pa_enabled :: bool
  pa_revoked_at :: "time option"
  pa_revoked_reason :: string

definition pa_active :: "preauthorization \<Rightarrow> bool" where
  "pa_active g \<longleftrightarrow> pa_enabled g \<and> pa_revoked_at g = None"

definition resolved_targets :: "string list \<Rightarrow> string list" where
  "resolved_targets targets = sort (filter (\<lambda>t. strip_by str_space t \<noteq> []) targets)"

definition preauth_id_for :: "(string \<Rightarrow> string) \<Rightarrow> string \<Rightarrow> int \<Rightarrow> string \<Rightarrow> string" where
  "preauth_id_for H automation_id revision dg =
     ''pa-'' @ take 20 (sha256_hex H (automation_id @ ''|'' @ int_text revision @ ''|'' @ dg))"

definition mint :: "(string \<Rightarrow> string) \<Rightarrow> python_text \<Rightarrow> time \<Rightarrow> string \<Rightarrow> string \<Rightarrow> action_class
    \<Rightarrow> string list \<Rightarrow> json_object \<Rightarrow> json_object \<Rightarrow> string \<Rightarrow> string \<Rightarrow> int
    \<Rightarrow> preauthorization result" where
  "mint H P now automation_id capability cls targets args schedule origin who revision =
     (if cls \<noteq> ELIGIBLE_CLASS then Inl (PreauthorizationError ''class_not_eligible'')
      else if automation_id = [] \<or> capability = []
      then Inl (PreauthorizationError ''incomplete_binding'')
      else let resolved = resolved_targets targets
      in if resolved = [] then Inl (PreauthorizationError ''no_resolved_target'')
      else case preauth_digest H P automation_id capability (action_class_value cls) resolved args schedule of
             Inl e \<Rightarrow> Inl e
           | Inr dg \<Rightarrow> Inr \<lparr>pa_id = preauth_id_for H automation_id revision dg,
               pa_automation = automation_id, pa_capability = capability,
               pa_class = action_class_value cls, pa_targets = resolved, pa_digest = dg,
               pa_revision = revision, pa_created_at = now, pa_created_origin = origin,
               pa_created_principal = who, pa_enabled = True, pa_revoked_at = None,
               pa_revoked_reason = []\<rparr>)"

definition verify_preauth :: "(string \<Rightarrow> string) \<Rightarrow> python_text \<Rightarrow> preauthorization option \<Rightarrow> string
    \<Rightarrow> string \<Rightarrow> action_class \<Rightarrow> string list \<Rightarrow> json_object \<Rightarrow> json_object \<Rightarrow> string result" where
  "verify_preauth H P stored automation_id capability cls targets args schedule = (case stored of
       None \<Rightarrow> Inl (PreauthorizationError ''no_preauthorization'')
     | Some g \<Rightarrow>
         if \<not> pa_active g then Inl (PreauthorizationError ''preauthorization_revoked'')
         else if pa_automation g \<noteq> automation_id then Inl (PreauthorizationError ''automation_mismatch'')
         else if pa_capability g \<noteq> capability then Inl (PreauthorizationError ''capability_mismatch'')
         else if pa_class g \<noteq> action_class_value ELIGIBLE_CLASS
         then Inl (PreauthorizationError ''class_not_eligible'')
         else if cls \<noteq> ELIGIBLE_CLASS then Inl (PreauthorizationError ''effect_reclassified'')
         else case preauth_digest H P automation_id capability (action_class_value cls) targets args
                     schedule of
                Inl e \<Rightarrow> Inl e
              | Inr fresh \<Rightarrow>
                  if fresh \<noteq> pa_digest g then Inl (PreauthorizationError ''binding_mismatch'')
                  else Inr (pa_id g))"

section \<open>What a permission binds\<close>

lemma sort_sort [simp]: "sort (sort xs) = sort xs"
  by (rule sorted_sort_id) simp

lemma all_ints_Jint [simp]: "all_ints (map Jint ds) = Inr ds"
  by (induction ds) simp_all

lemma bound_weekdays_sorted: "bound_weekdays plan = Inr ds \<Longrightarrow> sort ds = ds"
  by (auto simp: bound_weekdays_def Let_def split: sum.splits if_splits)

text \<open>The fields a normalised schedule has, whatever it was normalised from.\<close>

lemma schedule_binding_cases:
  assumes "schedule_binding P plan = Inr b"
  obtains k z where "b = [(''art'', Jstr k), (''zeitzone'', Jstr z)]"
      "k \<noteq> ''daily''" "k \<noteq> ''weekly''" "k \<noteq> ''interval''"
  | z t where "b = [(''art'', Jstr ''daily''), (''zeitzone'', Jstr z), (''uhrzeit'', Jstr t)]"
  | z t ds where "b = [(''art'', Jstr ''weekly''), (''zeitzone'', Jstr z), (''uhrzeit'', Jstr t),
      (''wochentage'', Jlist (map Jint ds))]" "sort ds = ds"
  | z n where "b = [(''art'', Jstr ''interval''), (''zeitzone'', Jstr z), (''abstand_s'', Jint n)]"
  using assms bound_weekdays_sorted [of plan] unfolding schedule_binding_def Let_def
  by (auto split: if_splits sum.splits)

text \<open>
  Normalising a schedule twice is normalising it once, so that it does not matter whether the
  caller that mints a permission or the one that checks it hands over the raw schedule of the task
  or its binding.
\<close>

theorem binding_a_bound_schedule_changes_nothing:
  assumes "schedule_binding P plan = Inr b"
  shows "schedule_binding P b = Inr b \<and>
     preauth_digest H P automation_id capability c targets args b
       = preauth_digest H P automation_id capability c targets args plan"
proof -
  have *: "schedule_binding P b = Inr b"
    using assms by (cases rule: schedule_binding_cases)
      (auto simp: schedule_binding_def get_or_def bound_weekdays_def bound_interval_def Let_def)
  then show ?thesis unfolding preauth_digest_def using assms by simp
qed

definition demo_text :: python_text where
  "demo_text = \<lparr>pt_float = (\<lambda>_. ''0.5''), pt_container = (\<lambda>_. []),
     pt_read_float = (\<lambda>_. None)\<rparr>"

definition demo_plan :: json_object where
  "demo_plan = [(''kind'', Jstr ''weekly''), (''uhrzeit'', Jstr ''20:00''),
     (''wochentage'', Jlist [Jint 6, Jstr '' 2 ''])]"

definition demo_bound :: json_object where
  "demo_bound = [(''art'', Jstr ''weekly''), (''zeitzone'', Jstr []), (''uhrzeit'', Jstr ''20:00''),
     (''wochentage'', Jlist [Jint 2, Jint 6])]"

lemma demo_binding: "schedule_binding demo_text demo_plan = Inr demo_bound"
  by code_simp

theorem binding_a_bound_schedule_changes_nothing_witness:
  "schedule_binding demo_text demo_bound = Inr demo_bound"
  using binding_a_bound_schedule_changes_nothing [OF demo_binding] by blast

text \<open>What two equal digests say: the same effect, or a collision of the hash function.\<close>

definition collision :: "(string \<Rightarrow> string) \<Rightarrow> string \<Rightarrow> string \<Rightarrow> bool" where
  "collision H a b \<longleftrightarrow> a \<noteq> b \<and> H a = H b"

lemma payload_sorted:
  "sorted_keys (Jdict (preauth_payload a c v ts args b)) = Jdict
     [(''action_class'', Jstr v), (''arguments'', sorted_keys (Jdict args)), (''automation_id'', Jstr a),
      (''capability'', Jstr c), (''schedule'', sorted_keys (Jdict b)),
      (''targets'', Jlist (map Jstr (sort ts))), (''v'', Jint DIGEST_VERSION)]"
  by (simp add: preauth_payload_def sort_key_def comp_def)

lemma bound_floats: "schedule_binding P plan = Inr b \<Longrightarrow> floats_in F (Jdict b)"
  by (erule schedule_binding_cases) auto

lemma payload_preimage_eq:
  assumes "prints_floats (pt_float P) F" and "floats_in F (Jdict args)" "floats_in F (Jdict args')"
    and "schedule_binding P plan = Inr b" "schedule_binding P plan' = Inr b'"
    and "preauth_preimage P (preauth_payload a c v ts args b)
       = preauth_preimage P (preauth_payload a' c' v' ts' args' b')"
  shows "a = a' \<and> c = c' \<and> v = v' \<and> sort ts = sort ts' \<and>
     sorted_keys (Jdict args) = sorted_keys (Jdict args') \<and>
     sorted_keys (Jdict b) = sorted_keys (Jdict b')"
proof -
  have floats: "floats_in F (Jdict (preauth_payload a c v ts args b))"
    "floats_in F (Jdict (preauth_payload a' c' v' ts' args' b'))"
    using assms(2,3) bound_floats [OF assms(4), of F] bound_floats [OF assms(5), of F]
    by (simp_all add: preauth_payload_def)
  have "json_text (pt_float P) (Jdict (preauth_payload a c v ts args b))
      = json_text (pt_float P) (Jdict (preauth_payload a' c' v' ts' args' b'))"
    using assms(6) by (simp only: preauth_preimage_def append.assoc same_append_eq)
  then have "sorted_keys (Jdict (preauth_payload a c v ts args b))
      = sorted_keys (Jdict (preauth_payload a' c' v' ts' args' b'))"
    using json_text_eq_iff [OF assms(1) floats] by blast
  moreover have "map Jstr xs = map Jstr ys \<Longrightarrow> xs = ys" for xs ys
    by (rule map_injective) (auto intro: injI)
  ultimately show ?thesis unfolding payload_sorted by (simp del: sorted_keys.simps)
qed

lemma mint_Inr:
  assumes "mint H P now automation_id capability cls targets args plan origin who revision = Inr g"
  obtains dg where "cls = ELIGIBLE_CLASS" "resolved_targets targets \<noteq> []"
    "preauth_digest H P automation_id capability (action_class_value cls) (resolved_targets targets)
       args plan = Inr dg"
    "g = \<lparr>pa_id = preauth_id_for H automation_id revision dg,
               pa_automation = automation_id, pa_capability = capability,
               pa_class = action_class_value cls, pa_targets = resolved_targets targets, pa_digest = dg,
               pa_revision = revision, pa_created_at = now, pa_created_origin = origin,
               pa_created_principal = who, pa_enabled = True, pa_revoked_at = None,
               pa_revoked_reason = []\<rparr>"
  using assms unfolding mint_def Let_def by (auto split: if_splits sum.splits)

lemma verify_preauth_Inr:
  assumes "verify_preauth H P stored automation_id capability cls targets args plan = Inr pid"
  obtains g where "stored = Some g" "pa_active g" "pa_automation g = automation_id"
    "pa_capability g = capability" "cls = ELIGIBLE_CLASS" "pid = pa_id g"
    "preauth_digest H P automation_id capability (action_class_value cls) targets args plan
       = Inr (pa_digest g)"
  using assms unfolding verify_preauth_def by (auto split: option.splits if_splits sum.splits)

text \<open>
  C33: a permission that was minted for one effect is accepted for another one only if they are the
  same effect: the same automation and capability, an ordinary action of the house, the same
  resolved targets, the same arguments and the same rule of the schedule, up to the order of keys.
  Otherwise the two canonical texts are a collision of the hash function.
\<close>

theorem permission_covers_only_its_effect:
  assumes "mint H P now a c cls targets args plan origin who revision = Inr g"
    and "verify_preauth H P (Some g) a' c' cls' targets' args' plan' = Inr pid"
    and "prints_floats (pt_float P) F" "floats_in F (Jdict args)" "floats_in F (Jdict args')"
  shows "\<exists>b b'. schedule_binding P plan = Inr b \<and> schedule_binding P plan' = Inr b' \<and>
     pid = pa_id g \<and> a' = a \<and> c' = c \<and> cls' = AC_HA_NORMAL \<and>
     (sort targets' = resolved_targets targets \<and>
      sorted_keys (Jdict args') = sorted_keys (Jdict args) \<and>
      sorted_keys (Jdict b') = sorted_keys (Jdict b) \<or>
      collision H
        (preauth_preimage P (preauth_payload a' c' ''ha_normal'' targets' args' b'))
        (preauth_preimage P (preauth_payload a c ''ha_normal'' (resolved_targets targets) args b)))"
proof -
  obtain dg where m: "cls = ELIGIBLE_CLASS"
      "preauth_digest H P a c (action_class_value cls) (resolved_targets targets) args plan = Inr dg"
    and g: "pa_automation g = a" "pa_capability g = c" "pa_digest g = dg"
    using assms(1) by (elim mint_Inr) auto
  have v: "pa_automation g = a'" "pa_capability g = c'" "cls' = ELIGIBLE_CLASS" "pid = pa_id g"
      "preauth_digest H P a' c' (action_class_value cls') targets' args' plan' = Inr (pa_digest g)"
    using assms(2) by (elim verify_preauth_Inr; simp)+
  obtain b b' where b: "schedule_binding P plan = Inr b" "schedule_binding P plan' = Inr b'"
    and dg: "dg = sha256_hex H (preauth_preimage P
          (preauth_payload a c ''ha_normal'' (resolved_targets targets) args b))"
      "dg = sha256_hex H (preauth_preimage P
          (preauth_payload a' c' ''ha_normal'' targets' args' b'))"
    using m v g by (auto simp: preauth_digest_def ELIGIBLE_CLASS_def split: sum.splits)
  let ?old = "preauth_preimage P (preauth_payload a c ''ha_normal'' (resolved_targets targets) args b)"
  let ?new = "preauth_preimage P (preauth_payload a' c' ''ha_normal'' targets' args' b')"
  have same: "sort targets' = resolved_targets targets \<and>
      sorted_keys (Jdict args') = sorted_keys (Jdict args) \<and>
      sorted_keys (Jdict b') = sorted_keys (Jdict b)" if "?new = ?old"
  proof -
    have "sort (resolved_targets targets) = resolved_targets targets"
      by (simp add: resolved_targets_def)
    moreover have "sort targets' = sort (resolved_targets targets)"
      "sorted_keys (Jdict args') = sorted_keys (Jdict args)"
      "sorted_keys (Jdict b') = sorted_keys (Jdict b)"
      using payload_preimage_eq [OF assms(3,5,4) b(2,1) that] by blast+
    ultimately show ?thesis by (intro conjI) (rule trans)
  qed
  have hash: "H ?new = H ?old" using trans [OF dg(2) [symmetric] dg(1)] unfolding sha256_hex_eq_iff .
  have "a' = a" "c' = c" "cls' = AC_HA_NORMAL"
    using g(1,2) v(1-3) unfolding ELIGIBLE_CLASS_def by simp_all
  moreover have "(sort targets' = resolved_targets targets \<and>
      sorted_keys (Jdict args') = sorted_keys (Jdict args) \<and>
      sorted_keys (Jdict b') = sorted_keys (Jdict b)) \<or> collision H ?new ?old"
    using same hash unfolding collision_def by blast
  ultimately show ?thesis using b v(4) by blast
qed

text \<open>
  Minting and checking agree: a freshly minted permission is accepted for the effect it was
  minted for, in whatever order its targets and the keys of its arguments come, with the raw
  schedule or with its binding.
\<close>

theorem minted_permission_is_accepted:
  assumes "mint H P now a c cls targets args plan origin who revision = Inr g"
    and "\<forall>t\<in>set targets. strip_by str_space t \<noteq> []"
    and "sort targets' = sort targets" and "sorted_keys (Jdict args') = sorted_keys (Jdict args)"
    and "schedule_binding P plan' = schedule_binding P plan"
  shows "verify_preauth H P (Some g) a c cls targets' args' plan' = Inr (pa_id g)"
proof -
  obtain dg where m: "cls = ELIGIBLE_CLASS"
      "preauth_digest H P a c (action_class_value cls) (resolved_targets targets) args plan = Inr dg"
    and g: "pa_automation g = a" "pa_capability g = c" "pa_digest g = dg" "pa_active g"
      "pa_class g = action_class_value cls"
    using assms(1) by (elim mint_Inr) (auto simp: pa_active_def)
  have "resolved_targets targets = sort targets"
    using assms(2) by (simp add: resolved_targets_def filter_id_conv)
  then have same: "sort targets' = sort (resolved_targets targets)" using assms(3) by simp
  have "json_text sf (Jdict (preauth_payload a c v targets' args' b))
      = json_text sf (Jdict (preauth_payload a c v (resolved_targets targets) args b))" for sf v b
    unfolding json_text_print payload_sorted same assms(4) by simp
  then have "preauth_digest H P a c (action_class_value cls) targets' args' plan' = Inr dg"
    using m(2) assms(5) by (auto simp: preauth_digest_def preauth_preimage_def split: sum.splits)
  with m g show ?thesis by (simp add: verify_preauth_def)
qed

definition demo_arguments :: json_object where
  "demo_arguments = [(''name'', Jstr ''Aussenlicht''), (''brightness_pct'', Jint 40)]"

definition demo_grant :: preauthorization where
  "demo_grant = (case mint (\<lambda>_. ''h'') demo_text 1000 ''task-1'' ''ha_turn_on'' AC_HA_NORMAL
     [''light.porch'', ''light.door''] demo_arguments demo_plan ''local'' ''owner'' 1 of Inr g \<Rightarrow> g)"

lemma demo_mint: "mint (\<lambda>_. ''h'') demo_text 1000 ''task-1'' ''ha_turn_on'' AC_HA_NORMAL
     [''light.porch'', ''light.door''] demo_arguments demo_plan ''local'' ''owner'' 1 = Inr demo_grant"
  unfolding demo_grant_def by code_simp

theorem minted_permission_is_accepted_witness:
  "verify_preauth (\<lambda>_. ''h'') demo_text (Some demo_grant) ''task-1'' ''ha_turn_on'' AC_HA_NORMAL
     [''light.door'', ''light.porch''] (rev demo_arguments) demo_bound = Inr (pa_id demo_grant)"
proof (rule minted_permission_is_accepted [OF demo_mint])
  show "\<forall>t\<in>set [''light.porch'', ''light.door'']. strip_by str_space t \<noteq> []" by code_simp
  show "sort [''light.door'', ''light.porch''] = sort [''light.porch'', ''light.door'']" by simp
  show "sorted_keys (Jdict (rev demo_arguments)) = sorted_keys (Jdict demo_arguments)" by code_simp
  show "schedule_binding demo_text demo_bound = schedule_binding demo_text demo_plan" by code_simp
qed

lemma demo_verify: "verify_preauth (\<lambda>_. ''h'') demo_text (Some demo_grant) ''task-1'' ''ha_turn_on''
     AC_HA_NORMAL [''light.door'', ''light.porch''] demo_arguments demo_plan = Inr (pa_id demo_grant)"
  by code_simp

theorem permission_covers_only_its_effect_witness:
  "sort [''light.door'', ''light.porch''] = resolved_targets [''light.porch'', ''light.door''] \<or>
   collision (\<lambda>_. ''h'')
        (preauth_preimage demo_text (preauth_payload ''task-1'' ''ha_turn_on'' ''ha_normal''
           [''light.door'', ''light.porch''] demo_arguments demo_bound))
        (preauth_preimage demo_text (preauth_payload ''task-1'' ''ha_turn_on'' ''ha_normal''
           (resolved_targets [''light.porch'', ''light.door'']) demo_arguments demo_bound))"
proof -
  have "prints_floats (pt_float demo_text) {1 / 2}" using half_printer by (simp add: demo_text_def)
  from permission_covers_only_its_effect [OF demo_mint demo_verify this]
  show ?thesis using demo_binding by (auto simp: demo_arguments_def)
qed

end
