(* ===== verification/Approval_Render.thy ===== *)
theory Approval_Render
  imports Coordinator_Safety Preauthorization
begin

text \<open>
  \<open>capabilities/approval_gateway.py\<close>, the text a human confirms: the table of headings and labels,
  the rendering of a call into one line per argument, and the digest of that text, which is the one
  the control plane computes when it stores the request. Texts are UTF-8 bytes; the two-byte letters
  of the German table have names of their own. Sorting keys by bytes is sorting them by code point.
\<close>

section \<open>Headings and labels\<close>

abbreviation ae_u :: string where "ae_u \<equiv> [CHR 0xC3, CHR 0xA4]"
abbreviation oe_u :: string where "oe_u \<equiv> [CHR 0xC3, CHR 0xB6]"
abbreviation ue_u :: string where "ue_u \<equiv> [CHR 0xC3, CHR 0xBC]"
abbreviation Ae_u :: string where "Ae_u \<equiv> [CHR 0xC3, CHR 0x84]"

type_synonym label_table = "(string \<times> string \<times> (string \<times> string) list) list"

definition EVERYDAY_LABELS :: label_table where
  "EVERYDAY_LABELS = [
    (''calendar_create_event'', ''Kalendertermin anlegen'', [
       (''title'', ''Titel''), (''when'', ''Tag''), (''time'', ''Uhrzeit''),
       (''duration_minutes'', ''Dauer (Minuten)''), (''all_day'', ''Ganzt'' @ ae_u @ ''gig''),
       (''location'', ''Ort''), (''description'', ''Notiz'')]),
    (''calendar_update_event'', ''Kalendertermin '' @ ae_u @ ''ndern'', [
       (''title'', ''Bisheriger Titel''), (''when'', ''Bisheriger Tag''),
       (''new_title'', ''Neuer Titel''), (''new_when'', ''Neuer Tag''),
       (''new_time'', ''Neue Uhrzeit''), (''duration_minutes'', ''Dauer (Minuten)'')]),
    (''calendar_delete_event'', ''Kalendertermin l'' @ oe_u @ ''schen'', [
       (''title'', ''Titel''), (''when'', ''Tag'')]),
    (''gmail_send_draft'', ''E-Mail senden'', [
       (''to'', ''An''), (''subject'', ''Betreff''), (''body'', ''Nachricht''),
       (''draft_id'', ''Entwurf'')]),
    (''gmail_create_draft'', ''E-Mail-Entwurf anlegen'', [
       (''to'', ''An''), (''subject'', ''Betreff''), (''body'', ''Nachricht''),
       (''reply_to_message'', ''Antwort auf'')]),
    (''portal_login'', ''SOLVIO m'' @ oe_u @ ''chte sich anmelden'', [
       (''portal'', ''Portal''), (''adresse'', ''Domain''), (''seite'', ''Seite''),
       (''aktion'', ''Vorgang''), (''zugang'', ''Konto''), (''felder'', ''Eingaben''),
       (''pruefsumme'', ''Seitenpr'' @ ue_u @ ''fsumme'')]),
    (''portal_submit'', ''Auf einer Webseite abschicken'', [
       (''portal'', ''Portal''), (''adresse'', ''Domain''), (''seite'', ''Seite''),
       (''aktion'', ''Vorgang''), (''zugang'', ''Konto''), (''felder'', ''Eingaben''),
       (''pruefsumme'', ''Seitenpr'' @ ue_u @ ''fsumme'')]),
    (''ha_turn_on'', ''Ger'' @ ae_u @ ''t einschalten'', [
       (''name'', ''Ger'' @ ae_u @ ''t''), (''area'', ''Raum'')]),
    (''ha_turn_off'', ''Ger'' @ ae_u @ ''t ausschalten'', [
       (''name'', ''Ger'' @ ae_u @ ''t''), (''area'', ''Raum'')]),
    (''ha_set_brightness'', ''Helligkeit setzen'', [
       (''name'', ''Lampe''), (''area'', ''Raum''),
       (''brightness_pct'', ''Helligkeit (Prozent)'')]),
    (''background_create'', ''Wiederkehrende Aufgabe anlegen'', [
       (''titel'', ''Titel''), (''wann'', ''Wann''), (''aktion'', ''Was''),
       (''argumente'', ''Angaben''), (''bedingung'', ''Bedingung''), (''melden'', ''Melden'')]),
    (''background_delete'', ''Wiederkehrende Aufgabe l'' @ oe_u @ ''schen'', [
       (''id'', ''Aufgabe'')]),
    (''background_pause'', ''Wiederkehrende Aufgabe pausieren'', [
       (''id'', ''Aufgabe'')]),
    (''background_resume'', ''Wiederkehrende Aufgabe fortsetzen'', [
       (''id'', ''Aufgabe'')]),
    (''background_run_now'', ''Wiederkehrende Aufgabe jetzt ausf'' @ ue_u @ ''hren'', [
       (''id'', ''Aufgabe'')]),
    (''background_require_approval'', ''Vorab-Freigabe zur'' @ ue_u @ ''ckziehen'', [
       (''id'', ''Aufgabe'')])]"

definition VAULT_LABELS :: label_table where
  "VAULT_LABELS = [
    (''secret_add'', ''SOLVIO m'' @ oe_u @ ''chte einen Zugang im Tresor hinterlegen'', [
       (''zugang'', ''Zugang''), (''verweis'', ''Verweis''), (''art'', ''Art''),
       (''konto'', ''Konto''), (''nur_fuer'', ''Nur f'' @ ue_u @ ''r''),
       (''nur_ueber'', ''Nur '' @ ue_u @ ''ber''),
       (''faehigkeiten'', ''Verwendbar f'' @ ue_u @ ''r''),
       (''im_hintergrund'', ''Im Hintergrund''), (''vorgang'', ''Vorgang'')]),
    (''secret_replace'', ''SOLVIO m'' @ oe_u @ ''chte einen Zugang ersetzen'', [
       (''zugang'', ''Zugang''), (''verweis'', ''Verweis''), (''vorgang'', ''Vorgang'')]),
    (''secret_disable'', ''Einen Zugang sperren'', [
       (''zugang'', ''Zugang''), (''verweis'', ''Verweis'')]),
    (''secret_enable'', ''Einen gesperrten Zugang wieder freigeben'', [
       (''zugang'', ''Zugang''), (''verweis'', ''Verweis'')]),
    (''secret_delete'', ''Einen Zugang endg'' @ ue_u @ ''ltig l'' @ oe_u @ ''schen'', [
       (''zugang'', ''Zugang''), (''verweis'', ''Verweis'')])]"

definition PAYMENT_LABELS :: label_table where
  "PAYMENT_LABELS = [
    (''purchase_place'', ''SOLVIO m'' @ oe_u @ ''chte f'' @ ue_u @ ''r dich bezahlen'', [
       (''zweck'', ''Wof'' @ ue_u @ ''r''), (''rechnung'', ''Rechnung''),
       (''haendler'', ''H'' @ ae_u @ ''ndler''), (''adresse'', ''Adresse''),
       (''posten'', ''Artikel''), (''menge'', ''St'' @ ue_u @ ''ckzahl''),
       (''betrag'', ''Gesamtbetrag''), (''waehrung'', ''W'' @ ae_u @ ''hrung''),
       (''zwischensumme'', ''Zwischensumme''), (''aufschlaege'', ''Hinzu kommen''),
       (''belastet'', ''Belastet wird''), (''zahlungsmittel'', ''Zahlungsmittel''),
       (''lieferung'', ''Lieferung''), (''lieferziel'', ''Lieferziel (Pr'' @ ue_u @ ''fsumme)''),
       (''gueltig_bis'', ''G'' @ ue_u @ ''ltig bis''), (''vorgang'', ''Vorgang''),
       (''pruefsumme'', ''Pr'' @ ue_u @ ''fsumme'')]),
    (''purchase_cancel'', ''Eine Bestellung stornieren'', [
       (''vorgang'', ''Vorgang''), (''haendler'', ''H'' @ ae_u @ ''ndler''),
       (''betrag'', ''Betrag'')]),
    (''refund_request'', ''Geld zur'' @ ue_u @ ''ckfordern'', [
       (''vorgang'', ''Vorgang''), (''haendler'', ''H'' @ ae_u @ ''ndler''),
       (''betrag'', ''Betrag''), (''zurueck_auf'', ''Zur'' @ ue_u @ ''ck auf'')]),
    (''payment_method_add'', ''SOLVIO m'' @ oe_u @ ''chte ein Zahlungsmittel hinterlegen'', [
       (''zahlungsmittel'', ''Zahlungsmittel''), (''verweis'', ''Verweis''), (''art'', ''Art''),
       (''anbieter'', ''Anbieter''),
       (''grenze_einzeln'', ''H'' @ oe_u @ ''chstbetrag je Zahlung''),
       (''grenze_taeglich'', ''H'' @ oe_u @ ''chstbetrag je Tag''),
       (''waehrungen'', ''W'' @ ae_u @ ''hrungen''), (''haendler'', ''Nur bei''),
       (''vorgang'', ''Vorgang'')]),
    (''payment_method_remove'', ''Ein Zahlungsmittel endg'' @ ue_u @ ''ltig entfernen'', [
       (''zahlungsmittel'', ''Zahlungsmittel''), (''verweis'', ''Verweis'')]),
    (''payment_method_enable'', ''Ein gesperrtes Zahlungsmittel wieder freigeben'', [
       (''zahlungsmittel'', ''Zahlungsmittel''), (''verweis'', ''Verweis'')]),
    (''payment_method_disable'', ''Ein Zahlungsmittel sperren'', [
       (''zahlungsmittel'', ''Zahlungsmittel''), (''verweis'', ''Verweis''),
       (''grund'', ''Grund'')]),
    (''payment_limit_raise'', ''Eine Zahlungsgrenze ANHEBEN'', [
       (''zahlungsmittel'', ''Zahlungsmittel''), (''verweis'', ''Verweis''),
       (''bisher_einzeln'', ''Bisher je Zahlung''), (''neu_einzeln'', ''Neu je Zahlung''),
       (''bisher_taeglich'', ''Bisher je Tag''), (''neu_taeglich'', ''Neu je Tag'')]),
    (''payment_limit_lower'', ''Eine Zahlungsgrenze senken'', [
       (''zahlungsmittel'', ''Zahlungsmittel''), (''verweis'', ''Verweis''),
       (''bisher_einzeln'', ''Bisher je Zahlung''), (''neu_einzeln'', ''Neu je Zahlung''),
       (''bisher_taeglich'', ''Bisher je Tag''), (''neu_taeglich'', ''Neu je Tag'')]),
    (''payment_method_rescope'', Ae_u @ ''ndern, wof'' @ ue_u @ ''r ein Zahlungsmittel gilt'', [
       (''zahlungsmittel'', ''Zahlungsmittel''), (''verweis'', ''Verweis''),
       (''waehrungen'', ''W'' @ ae_u @ ''hrungen''), (''haendler'', ''Nur bei''),
       (''bisher_haendler'', ''Bisher nur bei'')])]"

definition SCOPE_AND_PERSON_LABELS :: label_table where
  "SCOPE_AND_PERSON_LABELS = [
    (''secret_rescope'', Ae_u @ ''ndern, wof'' @ ue_u @ ''r ein Zugang benutzt werden darf'', [
       (''zugang'', ''Zugang''), (''verweis'', ''Verweis''),
       (''faehigkeiten'', ''Verwendbar f'' @ ue_u @ ''r''),
       (''nur_fuer'', ''Nur f'' @ ue_u @ ''r''), (''nur_ueber'', ''Nur '' @ ue_u @ ''ber''),
       (''im_hintergrund'', ''Im Hintergrund''),
       (''bisher_nur_fuer'', ''Bisher nur f'' @ ue_u @ ''r''), (''kommt_hinzu'', ''Neu erlaubt''),
       (''entfaellt'', ''Wird entfernt''), (''bisher'', ''Bisher erlaubt''),
       (''bleibt'', ''Bleibt erlaubt''), (''fassung'', ''Aktueller Stand'')]),
    (''communication_confirm_binding'', ''Einen Kontakt festlegen oder '' @ ae_u @ ''ndern'', [
       (''diese_person'', ''Wer''), (''gemerkt_als'', ''Gemerkt als''),
       (''hiess_bisher'', ''Wer bisher''),
       (''kontakt_bisher'', ''Bisher erreichbar '' @ ue_u @ ''ber''),
       (''kontakt_neu'', ''K'' @ ue_u @ ''nftig erreichbar '' @ ue_u @ ''ber''),
       (''stand'', ''Stand'')]),
    (''telephony_call'', ''Anruf f'' @ ue_u @ ''hren und etwas ausrichten'', [
       (''anrufen'', ''Anrufen''), (''bei_nummer'', ''Unter der Nummer''),
       (''nachricht'', ''Diese Nachricht wird ausgerichtet''),
       (''worum_es_geht'', ''Worum es geht''),
       (''zeitrahmen'', ''Das Gespr'' @ ae_u @ ''ch endet sp'' @ ae_u @ ''testens nach'')])]"

definition ACTION_LABELS :: label_table where
  "ACTION_LABELS = EVERYDAY_LABELS @ VAULT_LABELS @ PAYMENT_LABELS @ SCOPE_AND_PERSON_LABELS"

definition labels_for :: "capability_spec \<Rightarrow> string \<times> (string \<times> string) list" where
  "labels_for sp =
     (let (headline, labels) = (case map_of ACTION_LABELS (cs_name sp) of None \<Rightarrow> ([], []) | Some e \<Rightarrow> e)
      in (if headline = [] then cs_name sp @ '' ausf'' @ ue_u @ ''hren'' else headline, labels))"

text \<open>The capabilities whose labels are not distinct.\<close>

definition labels_are_unambiguous :: "string list" where
  "labels_are_unambiguous = map fst
     (filter (\<lambda>(name, _, labels). length (remdups (map snd labels)) \<noteq> length labels) ACTION_LABELS)"

section \<open>The text and its digest\<close>

definition label_of :: "capability_spec \<Rightarrow> string \<Rightarrow> string" where
  "label_of sp key = (case map_of (snd (labels_for sp)) key of None \<Rightarrow> key | Some l \<Rightarrow> l)"

definition argument_line :: "(real \<Rightarrow> string) \<Rightarrow> capability_spec \<Rightarrow> string \<times> json_value \<Rightarrow> string" where
  "argument_line sf sp p = label_of sp (fst p) @ '': '' @ json_print '', '' '': '' sf (snd p)"

definition origin_line :: "string \<Rightarrow> string" where
  "origin_line asked_from = ''Angefragt '' @ ue_u @ ''ber: '' @ asked_from"

definition newline :: string where "newline = [CHR 0x0A]"

definition render_action :: "(real \<Rightarrow> string) \<Rightarrow> capability_spec \<Rightarrow> (string \<times> json_value) list \<Rightarrow> string
    \<Rightarrow> string" where
  "render_action sf sp args asked_from =
     join_with newline
       (fst (labels_for sp) # map (argument_line sf sp) (sort_key fst args) @
        (if asked_from \<noteq> [] then [origin_line asked_from] else []))"

definition approval_mode :: "capability_spec \<Rightarrow> string" where
  "approval_mode sp = execution_class_value (cs_class sp) @ ''-v'' @ int_text (cs_version sp)"

definition approval_digest :: "(string \<Rightarrow> string) \<Rightarrow> (real \<Rightarrow> string) \<Rightarrow> capability_spec
    \<Rightarrow> (string \<times> json_value) list \<Rightarrow> string \<Rightarrow> string" where
  "approval_digest H sf sp args asked_from =
     action_digest H (cs_name sp) (approval_mode sp) (render_action sf sp args asked_from) []"

section \<open>The table\<close>

definition plain_label :: "string \<Rightarrow> bool" where
  "plain_label l \<longleftrightarrow> CHR '':'' \<notin> set l \<and> CHR 0x0A \<notin> set l"

definition table_ok :: "string \<times> string \<times> (string \<times> string) list \<Rightarrow> bool" where
  "table_ok e = (case e of (name, headline, labels) \<Rightarrow> headline \<noteq> [] \<and> CHR 0x0A \<notin> set headline \<and>
     distinct (map fst labels) \<and> distinct (map snd labels) \<and> list_all plain_label (map snd labels))"

lemma table_checked:
  "list_all table_ok EVERYDAY_LABELS" "list_all table_ok VAULT_LABELS" "list_all table_ok PAYMENT_LABELS"
  "list_all table_ok SCOPE_AND_PERSON_LABELS"
  by code_simp+

lemma table_entry: "map_of ACTION_LABELS name = Some e \<Longrightarrow> table_ok (name, e)"
  using table_checked by (auto simp: ACTION_LABELS_def list_all_iff dest!: map_of_SomeD)


section \<open>Reading the text back\<close>

lemma first_char_split:
  "x @ c # y = x' @ c # y' \<Longrightarrow> c \<notin> set x \<Longrightarrow> c \<notin> set x' \<Longrightarrow> x = x' \<and> y = y'"
  by (induction x arbitrary: x') (auto simp: Cons_eq_append_conv append_eq_Cons_conv)

lemma join_lines_eq:
  assumes "join_with newline xs = join_with newline ys" and "xs \<noteq> []" "ys \<noteq> []"
    and "\<And>l. l \<in> set (xs @ ys) \<Longrightarrow> CHR 0x0A \<notin> set l"
  shows "xs = ys"
  using assms
proof (induction xs arbitrary: ys)
  case (Cons x xs)
  then obtain y zs where ys: "ys = y # zs" by (cases ys) auto
  have xy: "CHR 0x0A \<notin> set x" "CHR 0x0A \<notin> set y" using Cons.prems(4) ys by auto
  show ?case
  proof (cases "xs = [] \<or> zs = []")
    case True
    have "xs = [] \<and> zs = []"
    proof (rule ccontr)
      assume "\<not> ?thesis"
      with True Cons.prems(1) ys have "CHR 0x0A \<in> set x \<or> CHR 0x0A \<in> set y"
        by (auto simp: join_with_Cons newline_def split: if_splits)
      with xy show False by simp
    qed
    with Cons.prems(1) ys show ?thesis by simp
  next
    case False
    with Cons.prems(1) ys have "x @ CHR 0x0A # join_with newline xs = y @ CHR 0x0A # join_with newline zs"
      by (simp add: join_with_Cons newline_def)
    from first_char_split [OF this xy] Cons.IH [of zs] Cons.prems(4) False ys show ?thesis by auto
  qed
qed simp

lemma json_string_one_line: "CHR 0x0A \<notin> set (json_string s)"
proof -
  have "hex_val (CHR 0x0A) = None" by code_simp
  then have hex: "hex_digit n \<noteq> CHR 0x0A" if "n < 16" for n
    using hex_val_digit [OF that] by (metis option.distinct(1))
  have "code (CHR 0x0A) = 10" by (simp add: code_def)
  then have "CHR 0x0A \<notin> set (json_escape c)" for c
    using hex [of "code c div 16"] hex [of "code c mod 16"] by (auto simp: json_escape_def)
  then show ?thesis by (auto simp: json_string_def)
qed

lemma number_char_one_line: "number_char c \<Longrightarrow> c \<noteq> CHR 0x0A"
  by (auto simp: number_char_def)

lemma join_with_chars: "c \<in> set (join_with sep xs) \<Longrightarrow> c \<in> set sep \<or> (\<exists>x\<in>set xs. c \<in> set x)"
  by (induction sep xs rule: join_with.induct) auto

lemma json_one_line:
  "prints_floats sf F \<Longrightarrow> floats_in F v \<Longrightarrow> CHR 0x0A \<notin> set (json_print '', '' '': '' sf v)"
proof (induction v)
  case (Jint i)
  then show ?case using int_text_chars [of "CHR 0x0A" i] number_char_one_line by auto
next
  case (Jreal r)
  then have "set (sf r) \<subseteq> Collect number_char" by (auto simp: prints_floats_def)
  then show ?case using number_char_one_line by auto
next
  case (Jlist vs)
  then show ?case by (auto dest!: join_with_chars)
next
  case (Jdict ps)
  then show ?case using json_string_one_line by (fastforce dest!: join_with_chars)
qed (simp_all add: json_string_one_line)

lemma argument_line_inj:
  assumes "argument_line sf sp p = argument_line sf sp' p'"
    and "plain_label (label_of sp (fst p))" "plain_label (label_of sp' (fst p'))"
    and "prints_floats sf F" "floats_in F (snd p)" "floats_in F (snd p')"
  shows "label_of sp (fst p) = label_of sp' (fst p') \<and> snd p = snd p'"
proof -
  from assms(1) have "label_of sp (fst p) @ CHR '':'' # (CHR '' '' # json_print '', '' '': '' sf (snd p)) =
      label_of sp' (fst p') @ CHR '':'' # (CHR '' '' # json_print '', '' '': '' sf (snd p'))"
    by (simp add: argument_line_def)
  from first_char_split [OF this] assms(2,3) have "label_of sp (fst p) = label_of sp' (fst p')"
    and "json_print '', '' '': '' sf (snd p) = json_print '', '' '': '' sf (snd p')"
    by (simp_all add: plain_label_def)
  moreover have "number_char (CHR '','') = False" "number_char (CHR '':'') = False" by code_simp+
  ultimately show ?thesis using assms(4-6) by (auto simp: json_print_eq_iff)
qed

text \<open>
  Arguments whose lines can be told apart: no key twice, and for a capability of the table only keys
  it has a label for; for any other capability the keys are their own labels.
\<close>

definition confirmable :: "capability_spec \<Rightarrow> (string \<times> json_value) list \<Rightarrow> bool" where
  "confirmable sp args \<longleftrightarrow> distinct (map fst args) \<and>
     (case map_of ACTION_LABELS (cs_name sp) of
        None \<Rightarrow> list_all plain_label (map fst args)
      | Some (_, labels) \<Rightarrow> list_all (\<lambda>k. k \<in> fst ` set labels) (map fst args))"

lemma labels_for_known:
  assumes "map_of ACTION_LABELS (cs_name sp) = Some (h, labels)"
  shows "labels_for sp = (h, labels)" "distinct (map fst labels)" "distinct (map snd labels)"
    "\<And>k l. (k, l) \<in> set labels \<Longrightarrow> plain_label l"
  using table_entry [OF assms] assms by (auto simp: labels_for_def table_ok_def list_all_iff)

lemma label_plain: "confirmable sp args \<Longrightarrow> (k, v) \<in> set args \<Longrightarrow> plain_label (label_of sp k)"
proof (cases "map_of ACTION_LABELS (cs_name sp)")
  case None
  then show "confirmable sp args \<Longrightarrow> (k, v) \<in> set args \<Longrightarrow> ?thesis"
    by (auto simp: confirmable_def label_of_def labels_for_def list_all_iff)
next
  case (Some e)
  obtain h labels where e: "e = (h, labels)" by (cases e)
  assume "confirmable sp args" "(k, v) \<in> set args"
  with Some e obtain l where "(k, l) \<in> set labels"
    by (force simp: confirmable_def list_all_iff)
  with labels_for_known [OF Some [unfolded e]] show ?thesis
    by (simp add: label_of_def map_of_is_SomeI)
qed

lemma label_inj:
  assumes "confirmable sp args" "confirmable sp args'" "(k, v) \<in> set args" "(k', v') \<in> set args'"
    and "label_of sp k = label_of sp k'"
  shows "k = k'"
proof (cases "map_of ACTION_LABELS (cs_name sp)")
  case None
  with assms(5) show ?thesis by (simp add: label_of_def labels_for_def)
next
  case (Some e)
  obtain h labels where e: "e = (h, labels)" by (cases e)
  note known = labels_for_known [OF Some [unfolded e]]
  from assms(1-4) Some e obtain l l' where l: "(k, l) \<in> set labels" "(k', l') \<in> set labels"
    by (force simp: confirmable_def list_all_iff)
  with known assms(5) have "l = l'" by (simp add: label_of_def map_of_is_SomeI)
  with l known(3) show ?thesis by (force simp: distinct_map inj_on_def)
qed

lemma map_lines_inj:
  assumes "map (argument_line sf sp) xs = map (argument_line sf sp) ys"
    and "\<And>p q. p \<in> set xs \<Longrightarrow> q \<in> set ys \<Longrightarrow> argument_line sf sp p = argument_line sf sp q \<Longrightarrow> p = q"
  shows "xs = ys"
  using assms
proof (induction xs arbitrary: ys)
  case (Cons x xs)
  then obtain y zs where ys: "ys = y # zs" by (cases ys) auto
  with Cons.prems have "x = y" by simp
  with Cons.IH [of zs] Cons.prems ys show ?case by simp
qed simp

lemma origin_label_inj: "ORIGIN_LABEL o1 = ORIGIN_LABEL o2 \<Longrightarrow> o1 = o2"
  by (cases o1; cases o2) simp_all

lemma origin_label_facts: "ORIGIN_LABEL o1 \<noteq> []" "CHR 0x0A \<notin> set (ORIGIN_LABEL o1)"
  by (cases o1; simp)+

lemma line_one_line:
  assumes "confirmable sp args" "p \<in> set args" "prints_floats sf F" "floats_in F (snd p)"
  shows "CHR 0x0A \<notin> set (argument_line sf sp p)"
  using label_plain [OF assms(1), of "fst p" "snd p"] json_one_line [OF assms(3,4)] assms(2)
  by (auto simp: argument_line_def plain_label_def)

lemma join_with_tail:
  "join_with newline (h # xs) = join_with newline (h # ys) \<Longrightarrow> xs \<noteq> [] \<Longrightarrow> ys \<noteq> [] \<Longrightarrow>
   join_with newline xs = join_with newline ys"
  by (simp add: join_with_Cons)

lemma render_inj:
  assumes sep: "confirmable sp args" "confirmable sp args'"
    and fl: "prints_floats sf F" "\<And>p. p \<in> set args \<union> set args' \<Longrightarrow> floats_in F (snd p)"
    and eq: "render_action sf sp args (ORIGIN_LABEL o1) = render_action sf sp args' (ORIGIN_LABEL o2)"
  shows "set args = set args' \<and> o1 = o2"
proof -
  define lines where "lines = (\<lambda>as q. map (argument_line sf sp) (sort_key fst as) @
    [origin_line (ORIGIN_LABEL q)])"
  have "join_with newline (lines args o1) = join_with newline (lines args' o2)"
    using eq unfolding render_action_def lines_def if_P [OF origin_label_facts(1)]
    by (rule join_with_tail) simp_all
  moreover have "CHR 0x0A \<notin> set l" if "l \<in> set (lines args o1 @ lines args' o2)" for l
  proof -
    have "CHR 0x0A \<notin> set (argument_line sf sp p)" if "p \<in> set args" for p
      using line_one_line [OF sep(1) that fl(1)] fl(2) that by simp
    moreover have "CHR 0x0A \<notin> set (argument_line sf sp p)" if "p \<in> set args'" for p
      using line_one_line [OF sep(2) that fl(1)] fl(2) that by simp
    moreover have "CHR 0x0A \<notin> set (origin_line (ORIGIN_LABEL q))" for q
      by (cases q; simp add: origin_line_def)
    ultimately show ?thesis using that
      unfolding lines_def set_append set_map set_sort list.set by blast
  qed
  moreover have "lines args o1 \<noteq> []" "lines args' o2 \<noteq> []" by (simp_all add: lines_def)
  ultimately have "lines args o1 = lines args' o2" by (intro join_lines_eq)
  then have maps: "map (argument_line sf sp) (sort_key fst args) = map (argument_line sf sp) (sort_key fst args')"
    and "ORIGIN_LABEL o1 = ORIGIN_LABEL o2" by (simp_all add: lines_def origin_line_def)
  have "sort_key fst args = sort_key fst args'"
  proof (rule map_lines_inj [OF maps])
    fix p q assume *: "p \<in> set (sort_key fst args)" "q \<in> set (sort_key fst args')"
      and line: "argument_line sf sp p = argument_line sf sp q"
    from * have in_args: "(fst p, snd p) \<in> set args" "(fst q, snd q) \<in> set args'" by simp_all
    have fl2: "floats_in F (snd p)" "floats_in F (snd q)" using fl(2) * by simp_all
    from argument_line_inj [OF line label_plain [OF sep(1) in_args(1)] label_plain [OF sep(2) in_args(2)]
        fl(1) fl2] have same: "label_of sp (fst p) = label_of sp (fst q)" "snd p = snd q" by simp_all
    from label_inj [OF sep in_args same(1)] same(2) show "p = q" by (rule prod_eqI)
  qed
  then have "set args = set args'" by (metis set_sort)
  with \<open>ORIGIN_LABEL o1 = ORIGIN_LABEL o2\<close> show ?thesis by (simp add: origin_label_inj)
qed

lemma approval_mode_inj:
  assumes "approval_mode sp = approval_mode sp'"
  shows "cs_class sp = cs_class sp' \<and> cs_version sp = cs_version sp'"
proof -
  have "CHR ''-'' \<notin> set (execution_class_value c)" for c by (cases c) simp_all
  with assms have "execution_class_value (cs_class sp) = execution_class_value (cs_class sp')"
    and v: "CHR ''v'' # int_text (cs_version sp) = CHR ''v'' # int_text (cs_version sp')"
    by (auto simp: approval_mode_def dest!: first_char_split)
  then show ?thesis using int_text_inj by (cases "cs_class sp"; cases "cs_class sp'") auto
qed

lemma render_same_name: "cs_name sp = cs_name sp' \<Longrightarrow> render_action sf sp = render_action sf sp'"
proof -
  assume "cs_name sp = cs_name sp'"
  then have labels: "labels_for sp = labels_for sp'" by (simp only: labels_for_def)
  then have "argument_line sf sp = argument_line sf sp'" for sf
    by (intro ext) (simp only: argument_line_def label_of_def)
  with labels show ?thesis by (intro ext) (simp only: render_action_def)
qed

lemma confirmable_same_name: "cs_name sp = cs_name sp' \<Longrightarrow> confirmable sp = confirmable sp'"
  by (rule ext) (simp add: confirmable_def)

section \<open>One digest, one action\<close>

lemma sha256_hex_eq: "sha256_hex H a = sha256_hex H b \<Longrightarrow> a = b \<or> collision H a b"
  using from_hex_to_hex by (metis collision_def option.inject sha256_hex_def)


definition demo_lamp :: capability_spec where
  "demo_lamp = \<lparr>cs_name = ''ha_turn_on'', cs_version = 1, cs_class = EC_CONTROLLED,
     cs_risk = RISK_MUTATING, cs_semantics = IDEMPOTENT_WRITE,
     cs_input = \<lparr>sc_properties = [(''name'', Some ''string''), (''area'', Some ''string'')],
       sc_required = [''name'']\<rparr>, cs_timeout = 10, cs_cancellable = False\<rparr>"


text \<open>
  The condition on the keys is needed: a key without a label is its own label, so one that is spelled
  like the label of another key gives the text of that key. \<open>labels_are_unambiguous\<close>, which finds
  nothing in the table, does not look for this.
\<close>

lemma labels_are_unambiguous_everywhere: "labels_are_unambiguous = []"
proof -
  have "length (remdups (map snd labels)) = length labels" if "(name, h, labels) \<in> set ACTION_LABELS"
    for name h labels
  proof -
    from table_checked that have "table_ok (name, h, labels)" by (auto simp: ACTION_LABELS_def list_all_iff)
    then have "distinct (map snd labels)" by (simp add: table_ok_def)
    then show ?thesis by (simp add: distinct_remdups_id)
  qed
  then show ?thesis by (auto simp: labels_are_unambiguous_def filter_empty_conv)
qed

theorem unlabelled_key_can_share_a_text:
  "render_action sf demo_lamp [(''name'', v)] from_label = render_action sf demo_lamp [(''Ger'' @ ae_u @ ''t'', v)] from_label"
proof -
  have "label_of demo_lamp ''name'' = label_of demo_lamp (''Ger'' @ ae_u @ ''t'')" by code_simp
  then show ?thesis by (simp add: render_action_def argument_line_def)
qed

end
