(* ===== verification/Approval_Gateway.thy ===== *)
theory Approval_Gateway
  imports Approval_Render
begin

text \<open>
  \<open>capabilities/approval_gateway.py\<close> and \<open>capabilities/execution_identity.py\<close>: the bridge from a
  capability to the approval on the iPhone. A request is stored with the rendered text, a request
  nobody waits for is withdrawn, and a confirmed one is run through the coordinator, but only for the
  arguments whose text was confirmed. A handler sees the identity of the running action and the
  context of the call as arguments; in the source both are context variables.
\<close>

section \<open>The context of a call\<close>

record execution_identity =
  ei_execution :: string
  ei_idempotency :: string
  ei_approval :: string
  ei_capability :: string
  ei_semantics :: semantics_text
  ei_digest :: string

definition EMPTY_IDENTITY :: execution_identity where
  "EMPTY_IDENTITY = \<lparr>ei_execution = [], ei_idempotency = [], ei_approval = [], ei_capability = [],
     ei_semantics = OTHER_SEMANTICS [], ei_digest = []\<rparr>"

definition usable :: "execution_identity \<Rightarrow> bool" where
  "usable i \<longleftrightarrow> ei_execution i \<noteq> [] \<and> ei_idempotency i \<noteq> []"

record use_context =
  uc_origin :: origin_class
  uc_capability :: string
  uc_approval :: string
  uc_execution :: string
  uc_user_present :: bool
  uc_automation :: string

text \<open>How a call into a capability can end; the exceptions are those the router tells apart.\<close>

datatype call_error =
    Declined string string "string option"
  | Refused string string "string option"
  | Executor_unavailable string
  | Ambiguous_execution string
  | Ran_out_of_time
  | Safe_execution_failure string
  | Other_error string string

datatype 'a call_end = Gives 'a | Throws call_error

fun class_name :: "call_error \<Rightarrow> string" where
  "class_name (Declined _ _ _) = ''CapabilityDeclined''"
| "class_name (Refused _ _ _) = ''CapabilityRefused''"
| "class_name (Executor_unavailable _) = ''ExecutorUnavailable''"
| "class_name (Ambiguous_execution _) = ''AmbiguousExecution''"
| "class_name Ran_out_of_time = ''TimeoutError''"
| "class_name (Safe_execution_failure _) = ''SafeExecutionFailure''"
| "class_name (Other_error c _) = c"

fun error_text :: "call_error \<Rightarrow> string" where
  "error_text (Declined reason _ _) = reason"
| "error_text (Refused reason _ _) = reason"
| "error_text (Executor_unavailable m) = m"
| "error_text (Ambiguous_execution m) = m"
| "error_text Ran_out_of_time = []"
| "error_text (Safe_execution_failure m) = m"
| "error_text (Other_error _ m) = m"

type_synonym handler = "execution_identity \<Rightarrow> use_context \<Rightarrow> json_object \<Rightarrow> string call_end"

definition identity_of :: "approval_id \<Rightarrow> capability_spec \<Rightarrow> exec_payload \<Rightarrow> execution_identity" where
  "identity_of aid sp p = \<lparr>ei_execution = ep_execution p, ei_idempotency = ep_idempotency p,
     ei_approval = aid, ei_capability = cs_name sp, ei_semantics = ep_semantics p,
     ei_digest = ep_digest p\<rparr>"

definition gateway_executor :: "approval_id \<Rightarrow> capability_spec \<Rightarrow> use_context \<Rightarrow> handler \<Rightarrow> json_object
    \<Rightarrow> exec_payload executor" where
  "gateway_executor aid sp running h args p =
     (case h (identity_of aid sp p) (running\<lparr>uc_execution := ep_execution p\<rparr>) args of
        Gives d \<Rightarrow> Returned True d
      | Throws (Safe_execution_failure m) \<Rightarrow> Safe_failure m
      | Throws e \<Rightarrow> Raised (class_name e))"

section \<open>Asking, withdrawing, resuming\<close>

text \<open>What surrounds one run of the process: the parameters of the coordinator, and the owner.\<close>

record surroundings =
  su_outside :: outside
  su_plane :: control_plane
  su_clock :: "nat \<Rightarrow> time"
  su_mclock :: time
  su_token :: string
  su_now_repr :: string
  su_process :: string
  su_owner :: string
  su_floats :: "real \<Rightarrow> string"

definition request_approval :: "surroundings \<Rightarrow> string \<Rightarrow> capability_spec \<Rightarrow> json_object \<Rightarrow> string \<Rightarrow> string
    \<Rightarrow> coordinator \<Rightarrow> approval_id result \<times> coordinator" where
  "request_approval E hex sp args requested_by asked_from co =
     (let summary = (if requested_by \<noteq> [] then ''Angefragt von '' @ requested_by else ''Sprachanfrage'')
      in case create_request (su_outside E) (su_plane E) (su_clock E 0) hex (su_owner E) (cs_name sp)
           (approval_mode sp) (render_action (su_floats E) sp args asked_from) [] summary (co_store co) of
         (r, s) \<Rightarrow> (r, co\<lparr>co_store := s\<rparr>))"

definition pending :: "time \<Rightarrow> coordinator \<Rightarrow> approval_request list \<times> coordinator" where
  "pending now co = (case list_pending now None (co_store co) of (rows, s) \<Rightarrow> (rows, co\<lparr>co_store := s\<rparr>))"

text \<open>The errors \<open>abandon\<close> takes for the work of somebody else: \<open>ApprovalStoreError\<close> and its kinds.\<close>

fun already_settled :: "exn \<Rightarrow> bool" where
  "already_settled (IllegalTransition _) = True"
| "already_settled (ConcurrentTransition _) = True"
| "already_settled (StoreError _) = True"
| "already_settled ExecutionBypassError = True"
| "already_settled _ = False"

definition abandon :: "time \<Rightarrow> approval_id \<Rightarrow> string \<Rightarrow> coordinator \<Rightarrow> bool result \<times> coordinator" where
  "abandon now aid reason co = (case transition now aid EXPIRED None (Some reason) (co_store co) of
       (Inr _, s) \<Rightarrow> (Inr True, co\<lparr>co_store := s,
                        co_confirmed := revoke_confirmation aid (co_confirmed co)\<rparr>)
     | (Inl e, s) \<Rightarrow> (if already_settled e then Inr False else Inl e, co\<lparr>co_store := s\<rparr>))"

definition meanwhile :: "interleaving \<Rightarrow> nat \<Rightarrow> coordinator \<Rightarrow> coordinator" where
  "meanwhile others i co = co\<lparr>co_store := others i (co_store co)\<rparr>"

fun abandon_each :: "interleaving \<Rightarrow> time \<Rightarrow> approval_id list \<Rightarrow> nat \<Rightarrow> coordinator
    \<Rightarrow> nat result \<times> coordinator" where
  "abandon_each others now [] n co = (Inr n, co)"
| "abandon_each others now (aid # aids) n co =
     (case abandon now aid ''orphaned_by_core_restart'' (meanwhile others 0 co) of
        (Inl e, co') \<Rightarrow> (Inl e, co')
      | (Inr b, co') \<Rightarrow> abandon_each (shift 1 others) now aids (if b then n + 1 else n) co')"

definition abandon_orphans :: "interleaving \<Rightarrow> time \<Rightarrow> coordinator \<Rightarrow> nat result \<times> coordinator" where
  "abandon_orphans others now co =
     (case pending now co of (rows, co') \<Rightarrow> abandon_each others now (map rq_id rows) 0 co')"

definition resume :: "surroundings \<Rightarrow> interleaving \<Rightarrow> use_context \<Rightarrow> approval_id \<Rightarrow> capability_spec
    \<Rightarrow> json_object \<Rightarrow> handler \<Rightarrow> string \<Rightarrow> coordinator
    \<Rightarrow> (execution_done option \<times> string) result \<times> exec_payload list \<times> coordinator" where
  "resume E others running aid sp args h asked_from co =
     (let refuse = (\<lambda>why. (Inr (None, why), [], co)) in
      case get_request aid (co_store co) of
        None \<Rightarrow> refuse ''unknown_approval''
      | Some stored \<Rightarrow>
          if rq_state stored = DENIED then refuse ''denied''
          else if rq_digest stored \<noteq>
            approval_digest (ox_sha256 (su_outside E)) (su_floats E) sp args asked_from
          then refuse ''approval_drift''
          else if rq_tool stored \<noteq> cs_name sp then refuse ''approval_capability_mismatch''
          else execute_approved (su_outside E) (su_plane E) (shift 1 others) (su_clock E) (su_mclock E)
                 (su_token E) (su_now_repr E) (su_process E) aid
                 (gateway_executor aid sp running h args) (meanwhile others 0 co))"

section \<open>Withdrawing\<close>

lemma db_run_transition: "transition now aid st dev err s = (r, s') \<Longrightarrow> db_run X s s'"
proof -
  assume t: "transition now aid st dev err s = (r, s')"
  have "store_step H l s (snd (transition now aid st dev err s))" for H l by (rule store_step.request_move)
  then show ?thesis unfolding t snd_conv by (rule reaches_one)
qed

lemma transition_ok:
  assumes "transition now aid st dev err s = (Inr cur, s')"
  shows "\<exists>r r'. get_request aid s = Some r \<and> rq_state r = cur \<and> request_edge cur st \<and>
    get_request aid s' = Some r' \<and> rq_state r' = st"
proof -
  from assms have "cas_transition now aid st dev err False s = Inr (cur, s')"
    by (simp add: transition_def atomically_Inr_iff)
  from cas_transition_target [OF this] show ?thesis by auto
qed

lemma abandon_true:
  assumes "abandon now aid reason co = (Inr True, co')" and "store_inv (co_store co)"
  shows "(\<exists>r'. get_request aid (co_store co') = Some r' \<and> rq_state r' = EXPIRED) \<and>
    \<not> is_confirmed aid (co_confirmed co') \<and> store_inv (co_store co') \<and> db_run X (co_store co) (co_store co')"
proof -
  from assms(1) obtain cur s where t: "transition now aid EXPIRED None (Some reason) (co_store co) = (Inr cur, s)"
    and co': "co' = co\<lparr>co_store := s, co_confirmed := revoke_confirmation aid (co_confirmed co)\<rparr>"
    by (auto simp: abandon_def split: prod.splits sum.splits if_splits)
  from transition_ok [OF t] db_run_transition [OF t, of X]
    run_inv_later [OF db_run_transition [OF t] assms(2)] show ?thesis
    by (auto simp: co' is_confirmed_def revoke_confirmation_def)
qed

lemma expired_stays:
  assumes "db_run X s t" "store_inv s" "get_request aid s = Some r" "rq_state r = EXPIRED"
  shows "\<exists>r'. get_request aid t = Some r' \<and> rq_state r' = EXPIRED"
proof -
  from run_request [OF assms(1-3)] obtain r' where "get_request aid t = Some r'" "request_rel r r'" by blast
  with assms(4) show ?thesis
    by (auto simp: request_rel_def TERMINAL_def dest: request_graph.terminal_stays)
qed

lemma not_approved_never_runs:
  assumes "get_request aid (co_store co) = Some r" "rq_state r \<noteq> APPROVED"
  shows "execute_approved X cp others clock mclock token nr process aid ex co
    = (Inr (None, ''not_approved''), [], co)"
  using assms by (simp add: execute_approved_def Let_def)

text \<open>
  C30: A withdrawn request runs nothing. Once a request is withdrawn, whatever the store goes through
  afterwards, and whatever other connections do at every await of a later attempt to resume it, no
  handler is called for it, even if its confirmation arrived in the same moment.
\<close>

theorem withdrawn_request_runs_nothing:
  assumes "abandon now aid reason co = (Inr True, co1)" and "store_inv (co_store co)"
    and "db_run (su_outside E) (co_store co1) (co_store co2)" and "lawful (su_outside E) others"
    and "resume E others running aid sp args h asked_from co2 = (r, calls, co3)"
  shows "calls = [] \<and> (\<forall>x. r \<noteq> Inr (x, ''ok'')) \<and>
    (\<exists>q. get_request aid (co_store co3) = Some q \<and> rq_state q = EXPIRED)"
proof -
  from abandon_true [OF assms(1,2)] obtain q1 where
    q1: "get_request aid (co_store co1) = Some q1" "rq_state q1 = EXPIRED" "store_inv (co_store co1)" by blast
  from expired_stays [OF assms(3) q1(3,1,2)] obtain q2 where
    q2: "get_request aid (co_store co2) = Some q2" "rq_state q2 = EXPIRED" by blast
  have inv2: "store_inv (co_store co2)" by (rule run_inv_later [OF assms(3) q1(3)])
  have "db_run (su_outside E) (co_store co2) (others 0 (co_store co2))"
    by (rule db_run_others [OF assms(4) reaches.start])
  from expired_stays [OF this inv2 q2] obtain q3 where
    q3: "get_request aid (co_store (meanwhile others 0 co2)) = Some q3" "rq_state q3 = EXPIRED"
    by (auto simp: meanwhile_def)
  from not_approved_never_runs [OF q3(1)] q3(2) have run: "execute_approved X cp ots clock mclock token nr
      process aid ex (meanwhile others 0 co2) = (Inr (None, ''not_approved''), [], meanwhile others 0 co2)"
    for X cp ots clock mclock token nr process ex by simp
  show ?thesis using assms(5) q2 q3 run by (auto simp: resume_def Let_def split: if_splits)
qed

section \<open>Resuming\<close>

text \<open>Every stored request carries the digest of its own action, as \<open>create_request\<close> stores it.\<close>

definition digests_own :: "(string \<Rightarrow> string) \<Rightarrow> store \<Rightarrow> bool" where
  "digests_own H s \<longleftrightarrow> list_all (\<lambda>r. rq_digest r =
     action_digest H (rq_tool r) (rq_mode r) (rq_task r) (rq_workspace r)) (st_requests s)"

lemma digests_ownD:
  "digests_own H s \<Longrightarrow> get_request aid s = Some r \<Longrightarrow>
   rq_digest r = action_digest H (rq_tool r) (rq_mode r) (rq_task r) (rq_workspace r)"
  by (auto simp: digests_own_def list_all_iff dest: by_key_SomeD)

lemma create_request_digests_own:
  assumes "digests_own (ox_sha256 X) s" and "create_request X cp now hex who tool mode task ws summary s = (r, s')"
  shows "digests_own (ox_sha256 X) s'"
  using assms
  by (auto simp: create_request_def create_request_row_def atomically_def insert_pk_def digests_own_def
      Let_def split: sum.splits if_splits)

lemma resume_calls:
  assumes "resume E others running aid sp args h asked_from co = (r, calls, co')" "calls \<noteq> []"
  shows "\<exists>stored. get_request aid (co_store co) = Some stored \<and>
    rq_digest stored = approval_digest (ox_sha256 (su_outside E)) (su_floats E) sp args asked_from \<and>
    rq_tool stored = cs_name sp \<and>
    execute_approved (su_outside E) (su_plane E) (shift 1 others) (su_clock E) (su_mclock E) (su_token E)
      (su_now_repr E) (su_process E) aid (gateway_executor aid sp running h args) (meanwhile others 0 co)
      = (r, calls, co')"
  using assms by (auto simp: resume_def Let_def split: option.splits if_splits)

lemma resume_confirmed:
  assumes "lawful (su_outside E) others" and "store_inv (co_store co)"
    and "gate_inv (ox_sha256 (su_outside E)) (co_broker co)"
    and "su_token E \<notin> ap_id ` set (bk_pending (co_broker co))"
    and "digests_own (ox_sha256 (su_outside E)) (co_store co)"
    and "resume E others running aid sp args h asked_from co = (r, calls, co')" and "calls \<noteq> []"
  shows "\<exists>p req. calls = [p] \<and> get_request aid (co_store co) = Some req \<and> rq_tool req = cs_name sp \<and>
    co_confirmed co aid = Some (rq_principal req,
      approval_digest (ox_sha256 (su_outside E)) (su_floats E) sp args asked_from) \<and>
    ep_digest p = approval_digest (ox_sha256 (su_outside E)) (su_floats E) sp args asked_from \<and>
    \<not> is_confirmed aid (co_confirmed co') \<and>
    execution_id_for (ox_sha256 (su_outside E)) (cp_core (su_plane E)) aid
      = Inr (ei_execution (identity_of aid sp p))"
proof -
  let ?X = "su_outside E"
  from resume_calls [OF assms(6,7)] obtain stored where
    stored: "get_request aid (co_store co) = Some stored"
      "rq_digest stored = approval_digest (ox_sha256 ?X) (su_floats E) sp args asked_from"
      "rq_tool stored = cs_name sp"
    and run: "execute_approved ?X (su_plane E) (shift 1 others) (su_clock E) (su_mclock E) (su_token E)
      (su_now_repr E) (su_process E) aid (gateway_executor aid sp running h args) (meanwhile others 0 co)
      = (r, calls, co')" by blast
  have frame: "co_broker (meanwhile others 0 co) = co_broker co"
    "co_confirmed (meanwhile others 0 co) = co_confirmed co"
    "co_store (meanwhile others 0 co) = others 0 (co_store co)" by (simp_all add: meanwhile_def)
  have inv: "store_inv (co_store (meanwhile others 0 co))"
    unfolding frame by (rule lawful_inv [OF assms(1,2)])
  from execute_approved_facts [OF lawful_shift [OF assms(1)] inv _ _ run assms(7), unfolded frame(1,2), OF assms(3,4)]
  obtain p req dg where p: "calls = [p]" "get_request aid (others 0 (co_store co)) = Some req"
      "co_confirmed co aid = Some (rq_principal req, dg)"
      "dg = action_digest (ox_sha256 ?X) (rq_tool req) (rq_mode req) (rq_task req) (rq_workspace req)"
      "ep_digest p = dg" "\<not> is_confirmed aid (co_confirmed co')"
      "execution_id_for (ox_sha256 ?X) (cp_core (su_plane E)) aid = Inr (ep_execution p)"
    unfolding frame by (elim exE conjE) (rule that; simp)
  from lawful_request [OF assms(1,2) stored(1), of 0] p(2) have "request_rel stored req" by auto
  then have same: "rq_tool req = rq_tool stored" "rq_mode req = rq_mode stored" "rq_task req = rq_task stored"
    "rq_workspace req = rq_workspace stored" "rq_principal req = rq_principal stored"
    by (simp_all add: request_rel_def)
  have "dg = approval_digest (ox_sha256 ?X) (su_floats E) sp args asked_from"
    unfolding p(4) same using digests_ownD [OF assms(5) stored(1)] stored(2) by simp
  with p stored same(5) show ?thesis by (intro exI [of _ p] exI [of _ stored]) (simp add: identity_of_def)
qed

text \<open>
  C31: A handler runs only for the call whose text was confirmed. With other connections at work at
  every await, a resumed approval calls the handler at most once, and only if the confirmation of this
  approval names the digest of the text of exactly these arguments, tool, class, version and origin;
  the confirmation is spent by it, and the identity the handler sees is that of this approval.
\<close>

theorem resumed_call_is_the_confirmed_one:
  assumes "lawful (su_outside E) others" and "store_inv (co_store co)"
    and "gate_inv (ox_sha256 (su_outside E)) (co_broker co)"
    and "su_token E \<notin> ap_id ` set (bk_pending (co_broker co))"
    and "digests_own (ox_sha256 (su_outside E)) (co_store co)"
    and "resume E others running aid sp args h asked_from co = (r, calls, co')" and "calls \<noteq> []"
  shows "\<exists>p req. calls = [p] \<and> get_request aid (co_store co) = Some req \<and> rq_tool req = cs_name sp \<and>
    co_confirmed co aid = Some (rq_principal req,
      approval_digest (ox_sha256 (su_outside E)) (su_floats E) sp args asked_from) \<and>
    ep_digest p = approval_digest (ox_sha256 (su_outside E)) (su_floats E) sp args asked_from \<and>
    \<not> is_confirmed aid (co_confirmed co') \<and>
    execution_id_for (ox_sha256 (su_outside E)) (cp_core (su_plane E)) aid
      = Inr (ei_execution (identity_of aid sp p))"
  using assms by (rule resume_confirmed)

section \<open>Concrete runs\<close>

definition demo_codex :: capability_spec where
  "demo_codex = \<lparr>cs_name = ''codex_task'', cs_version = 1, cs_class = EC_DEEP, cs_risk = RISK_CRITICAL,
     cs_semantics = NON_IDEMPOTENT_WRITE, cs_input = \<lparr>sc_properties = [], sc_required = []\<rparr>,
     cs_timeout = 60, cs_cancellable = False\<rparr>"

definition demo_host :: surroundings where
  "demo_host = \<lparr>su_outside = demo_surroundings, su_plane = demo_plane, su_clock = (\<lambda>i. 10), su_mclock = 1,
     su_token = ''g1'', su_now_repr = ''t10'', su_process = ''pid-1'', su_owner = ''owner'',
     su_floats = (\<lambda>_. ''0.5'')\<rparr>"

definition demo_running :: use_context where
  "demo_running = \<lparr>uc_origin = OC_ROOM_VOICE, uc_capability = ''codex_task'', uc_approval = ''a1'',
     uc_execution = [], uc_user_present = True, uc_automation = []\<rparr>"

abbreviation demo_resume :: "coordinator
    \<Rightarrow> (execution_done option \<times> string) result \<times> exec_payload list \<times> coordinator" where
  "demo_resume \<equiv> resume demo_host (\<lambda>i s. s) demo_running ''a1'' demo_codex [(''task'', Jstr ''x'')]
     (\<lambda>i c args. Gives ''done'') ''Raum-Mikrofon''"

definition demo_confirmed :: coordinator where
  "demo_confirmed = demo_coordinator\<lparr>co_store := demo_store\<lparr>st_requests :=
     [demo_request\<lparr>rq_state := APPROVED, rq_decided_at := Some 5, rq_decided_device := Some ''dev-1'',
        rq_digest := ''68''\<rparr>]\<rparr>\<rparr>"

lemma demo_confirmed_setting:
  "store_inv (co_store demo_confirmed)" "co_broker demo_confirmed = co_broker demo_coordinator"
  by (simp_all add: demo_confirmed_def demo_coordinator_def store_inv_def store_keys_distinct_def
      journal_exclusive_def one_per_execution_def demo_defs)

lemma demo_resume_runs:
  "fst (demo_resume demo_confirmed) = Inr (Some \<lparr>ed_info = ''done'', ed_execution = ''exec-68''\<rparr>, ''ok'')"
  "map ep_tool (fst (snd (demo_resume demo_confirmed))) = [''codex_task'']"
proof -
  have "(case demo_resume demo_confirmed of (r, calls, _) \<Rightarrow> (r, map ep_tool calls)) =
      (Inr (Some \<lparr>ed_info = ''done'', ed_execution = ''exec-68''\<rparr>, ''ok''), [''codex_task''])"
    unfolding demo_host_def demo_running_def demo_codex_def demo_surroundings_def demo_confirmed_def
      demo_coordinator_def demo_outside_def demo_plane_def by code_simp
  then show "fst (demo_resume demo_confirmed) = Inr (Some \<lparr>ed_info = ''done'', ed_execution = ''exec-68''\<rparr>, ''ok'')"
    "map ep_tool (fst (snd (demo_resume demo_confirmed))) = [''codex_task'']"
    by (simp_all add: split_def)
qed

lemma demo_digests_own: "digests_own (ox_sha256 demo_surroundings) (co_store demo_confirmed)"
  unfolding demo_surroundings_def demo_confirmed_def demo_coordinator_def demo_outside_def by code_simp

theorem resumed_call_is_the_confirmed_one_witness:
  "\<exists>co'. demo_resume demo_confirmed = (Inr (Some \<lparr>ed_info = ''done'', ed_execution = ''exec-68''\<rparr>, ''ok''),
     fst (snd (demo_resume demo_confirmed)), co') \<and> \<not> is_confirmed ''a1'' (co_confirmed co')"
proof -
  obtain r calls co' where run: "demo_resume demo_confirmed = (r, calls, co')" by (cases "demo_resume demo_confirmed")
  with demo_resume_runs have r: "r = Inr (Some \<lparr>ed_info = ''done'', ed_execution = ''exec-68''\<rparr>, ''ok'')"
    and c: "calls \<noteq> []" by auto
  have host: "su_outside demo_host = demo_surroundings" "su_token demo_host = ''g1''"
    by (simp_all add: demo_host_def)
  from resumed_call_is_the_confirmed_one [of demo_host, unfolded host, OF demo_execution_setting(1)
      demo_confirmed_setting(1) demo_execution_setting(3,4) [folded demo_confirmed_setting(2)] demo_digests_own
      run c]
  have "\<not> is_confirmed ''a1'' (co_confirmed co')" by blast
  with run r show ?thesis by simp
qed

lemma demo_abandon: "fst (abandon 10 ''a1'' ''gone'' demo_confirmed) = Inr True"
  unfolding demo_confirmed_def demo_coordinator_def by code_simp

theorem withdrawn_request_runs_nothing_witness:
  "fst (snd (demo_resume (snd (abandon 10 ''a1'' ''gone'' demo_confirmed)))) = []"
proof -
  obtain co1 where a: "abandon 10 ''a1'' ''gone'' demo_confirmed = (Inr True, co1)"
    using demo_abandon by (cases "abandon 10 ''a1'' ''gone'' demo_confirmed") auto
  have host: "su_outside demo_host = demo_surroundings" by (simp add: demo_host_def)
  obtain r calls co3 where run: "demo_resume co1 = (r, calls, co3)" by (cases "demo_resume co1")
  from withdrawn_request_runs_nothing [of _ _ _ _ _ demo_host, unfolded host, OF a demo_confirmed_setting(1)
      reaches.start demo_execution_setting(1) run] show ?thesis by (simp add: a run)
qed

end
