(* ===== verification/Capability_Router.thy ===== *)
theory Capability_Router
  imports Approval_Gateway
begin

text \<open>
  \<open>capabilities/router.py\<close> and \<open>capabilities/envelope.py\<close>: the one path on which a capability is
  executed, with every early return in its order: resolve, check the arguments, risk, authority,
  policy, approval, run, and an outcome that says what is known. Handlers, describers and classifiers
  are functions of what they are given; every call of a handler is part of the result, so that the
  theorems can count them. At an await of the router other tasks of the same process may run:
  \<open>turn i\<close> is what they do to the router at the i-th of them. A cancellation from outside
  (\<open>asyncio.CancelledError\<close>) is not modelled, and a sink for events that raises is swallowed.
\<close>

section \<open>Outcomes\<close>

datatype capability_outcome =
  SUCCESS | INVALID_INPUT | REJECTED_BY_POLICY | APPROVAL_REQUIRED | CANCELLED | TIMEOUT
| EXECUTOR_UNAVAILABLE | CAPABILITY_FAILED | RECOVERY_REQUIRED

fun outcome_value :: "capability_outcome \<Rightarrow> string" where
  "outcome_value SUCCESS = ''success''"
| "outcome_value INVALID_INPUT = ''invalid_input''"
| "outcome_value REJECTED_BY_POLICY = ''rejected_by_policy''"
| "outcome_value APPROVAL_REQUIRED = ''approval_required''"
| "outcome_value CANCELLED = ''cancelled''"
| "outcome_value TIMEOUT = ''timeout''"
| "outcome_value EXECUTOR_UNAVAILABLE = ''executor_unavailable''"
| "outcome_value CAPABILITY_FAILED = ''capability_failed''"
| "outcome_value RECOVERY_REQUIRED = ''recovery_required''"

definition NO_EFFECT_OUTCOMES :: "capability_outcome list" where
  "NO_EFFECT_OUTCOMES = [INVALID_INPUT, REJECTED_BY_POLICY, APPROVAL_REQUIRED, EXECUTOR_UNAVAILABLE,
     CAPABILITY_FAILED]"

text \<open>The data of a result: none, what a handler or an exception carried, or the id of a request.\<close>

datatype result_data = No_data | Data string | Request_id string

record capability_result =
  cr_outcome :: capability_outcome
  cr_call_id :: string
  cr_capability :: string
  cr_data :: result_data
  cr_human :: string
  cr_reason :: string
  cr_detail :: string

definition succeeded :: "capability_result \<Rightarrow> bool" where
  "succeeded r \<longleftrightarrow> cr_outcome r = SUCCESS"

definition had_no_effect :: "capability_result \<Rightarrow> bool" where
  "had_no_effect r \<longleftrightarrow> cr_outcome r \<in> set NO_EFFECT_OUTCOMES"

fun data_json :: "result_data \<Rightarrow> json_value option" where
  "data_json No_data = None"
| "data_json (Data d) = Some (Jstr d)"
| "data_json (Request_id i) = Some (Jdict [(''request_id'', Jstr i)])"

definition result_as_dict :: "capability_result \<Rightarrow> json_object" where
  "result_as_dict r =
     [(''outcome'', Jstr (outcome_value (cr_outcome r))), (''call_id'', Jstr (cr_call_id r)),
      (''capability'', Jstr (cr_capability r)), (''success'', Jbool (succeeded r))] @
     (case data_json (cr_data r) of None \<Rightarrow> [] | Some d \<Rightarrow> [(''data'', d)]) @
     (if cr_human r \<noteq> [] then [(''human_message'', Jstr (cr_human r))] else []) @
     (if cr_reason r \<noteq> [] then [(''reason'', Jstr (cr_reason r))] else [])"

record tool_result =
  to_success :: bool
  to_data :: result_data
  to_human :: string
  to_error :: "string option"

definition as_tool_result :: "capability_result \<Rightarrow> tool_result" where
  "as_tool_result r =
     (if succeeded r
      then \<lparr>to_success = True, to_data = cr_data r, to_human = cr_human r, to_error = None\<rparr>
      else \<lparr>to_success = False, to_data = cr_data r, to_human = cr_human r,
             to_error = Some (if cr_reason r = [] then outcome_value (cr_outcome r)
                        else outcome_value (cr_outcome r) @ '':'' @ cr_reason r)\<rparr>)"

definition tool_result_as_dict :: "tool_result \<Rightarrow> json_object" where
  "tool_result_as_dict t =
     [(''success'', Jbool (to_success t))] @
     (case data_json (to_data t) of None \<Rightarrow> [] | Some d \<Rightarrow> [(''data'', d)]) @
     (if to_human t \<noteq> [] then [(''human_message'', Jstr (to_human t))] else []) @
     (if truthy (to_error t) then [(''error'', Jstr (or_empty (to_error t)))] else [])"

section \<open>Arguments\<close>

definition canonical_binding :: "(real \<Rightarrow> string) \<Rightarrow> capability_spec \<Rightarrow> json_object \<Rightarrow> string" where
  "canonical_binding sf sp args = canonical_bytes sf
     [(''capability'', Jstr (cs_name sp)), (''version'', Jint (cs_version sp)), (''arguments'', Jdict args)]"

definition binding_digest :: "(string \<Rightarrow> string) \<Rightarrow> (real \<Rightarrow> string) \<Rightarrow> capability_spec \<Rightarrow> json_object
    \<Rightarrow> string" where
  "binding_digest H sf sp args =
     action_digest H (cs_name sp) (execution_class_value (cs_class sp)) (canonical_binding sf sp args) []"

text \<open>
  \<open>isinstance\<close> against the Python types of a declared JSON type; \<open>None\<close> is a type the table does not
  know. A \<open>bool\<close> is no number here, although it is an \<open>int\<close> in Python.
\<close>

definition type_fits :: "string \<Rightarrow> json_value \<Rightarrow> bool option" where
  "type_fits declared v =
     (if declared = ''string'' then Some (case v of Jstr _ \<Rightarrow> True | _ \<Rightarrow> False)
      else if declared = ''number'' then Some (case v of Jint _ \<Rightarrow> True | Jreal _ \<Rightarrow> True | _ \<Rightarrow> False)
      else if declared = ''integer'' then Some (case v of Jint _ \<Rightarrow> True | _ \<Rightarrow> False)
      else if declared = ''boolean'' then Some (case v of Jbool _ \<Rightarrow> True | _ \<Rightarrow> False)
      else if declared = ''object'' then Some (case v of Jdict _ \<Rightarrow> True | _ \<Rightarrow> False)
      else if declared = ''array'' then Some (case v of Jlist _ \<Rightarrow> True | _ \<Rightarrow> False)
      else None)"

definition check_argument :: "(string \<times> string option) list \<Rightarrow> string \<times> json_value \<Rightarrow> string option" where
  "check_argument properties p = (case map_of properties (fst p) of
       None \<Rightarrow> Some (''unknown_argument:'' @ fst p)
     | Some None \<Rightarrow> None
     | Some (Some declared) \<Rightarrow>
         (case type_fits declared (snd p) of
            Some False \<Rightarrow> Some (''wrong_type:'' @ fst p)
          | _ \<Rightarrow> None))"

fun first_fault :: "('a \<Rightarrow> string option) \<Rightarrow> 'a list \<Rightarrow> string option" where
  "first_fault f [] = None"
| "first_fault f (x # xs) = (case f x of Some e \<Rightarrow> Some e | None \<Rightarrow> first_fault f xs)"

text \<open>
  \<open>_validate\<close>. A value of the model always has a JSON text, so the last refusal of the source,
  \<open>unserializable_arguments\<close>, has no counterpart.
\<close>

definition validate :: "capability_spec \<Rightarrow> json_object \<Rightarrow> string option" where
  "validate sp args =
     (case first_fault (\<lambda>key. if key \<notin> fst ` set args then Some (''missing_argument:'' @ key) else None)
             (sc_required (cs_input sp)) of
        Some e \<Rightarrow> Some e
      | None \<Rightarrow>
          if sc_properties (cs_input sp) = [] then None
          else first_fault (check_argument (sc_properties (cs_input sp))) args)"

section \<open>The router\<close>

record capability_event =
  ev_sequence :: nat
  ev_call_id :: string
  ev_capability :: string
  ev_phase :: string
  ev_outcome :: string
  ev_risk :: int
  ev_detail :: string

text \<open>
  What is registered under a name. A describer gives \<open>None\<close> for what is no mapping, a classifier for
  what is no classification.
\<close>

record registration =
  rg_spec :: capability_spec
  rg_handler :: handler
  rg_describe :: "(use_context \<Rightarrow> json_object \<Rightarrow> json_object option call_end) option"
  rg_classify :: "(use_context \<Rightarrow> json_object \<Rightarrow> classification option call_end) option"

type_synonym preauth_check =
  "string \<Rightarrow> string \<Rightarrow> action_class \<Rightarrow> string list \<Rightarrow> json_object \<Rightarrow> string result"

record router =
  rt_registered :: "(string \<times> registration) list"
  rt_approvals :: "broker option"
  rt_mobile :: "coordinator option"
  rt_principal :: string
  rt_preauth :: "preauth_check option"
  rt_policy_mode :: string
  rt_sequence :: nat
  rt_events :: "capability_event list"
  rt_outstanding :: "(string \<times> approval_id) list"

definition register_capability :: "capability_spec \<Rightarrow> handler
    \<Rightarrow> (use_context \<Rightarrow> json_object \<Rightarrow> json_object option call_end) option
    \<Rightarrow> (use_context \<Rightarrow> json_object \<Rightarrow> classification option call_end) option
    \<Rightarrow> router \<Rightarrow> unit result \<times> router" where
  "register_capability sp h describe classify rt =
     (if cs_name sp \<in> fst ` set (rt_registered rt)
      then (Inl (ValueError ''capability already registered''), rt)
      else (Inr (), rt\<lparr>rt_registered := rt_registered rt @ [(cs_name sp,
             \<lparr>rg_spec = sp, rg_handler = h, rg_describe = describe, rg_classify = classify\<rparr>)]\<rparr>))"

definition names :: "router \<Rightarrow> string list" where
  "names rt = sort (map fst (rt_registered rt))"

definition spec :: "string \<Rightarrow> router \<Rightarrow> capability_spec option" where
  "spec name rt = map_option rg_spec (map_of (rt_registered rt) name)"

definition emit :: "string \<Rightarrow> string \<Rightarrow> string \<Rightarrow> string \<Rightarrow> int \<Rightarrow> string \<Rightarrow> router \<Rightarrow> router" where
  "emit call_id capability phase outcome risk detail rt =
     rt\<lparr>rt_sequence := rt_sequence rt + 1,
        rt_events := rt_events rt @ [\<lparr>ev_sequence = rt_sequence rt + 1, ev_call_id = call_id,
          ev_capability = capability, ev_phase = phase, ev_outcome = outcome, ev_risk = risk,
          ev_detail = detail\<rparr>]\<rparr>"

section \<open>One call\<close>

text \<open>
  What one call is given besides the router: who asks for what, from where, with which claim of
  authority, and what its surroundings do. \<open>ca_race\<close> says what comes first once the handler runs.
\<close>

datatype race = Work_first | Cancel_first | Time_first

record call =
  ca_args :: json_object
  ca_trust :: trust_context
  ca_provenance :: provenance
  ca_approval :: string
  ca_who :: string
  ca_origin :: origin_class
  ca_automation :: string
  ca_commanded :: bool
  ca_cancel :: "bool option"
  ca_race :: race
  ca_hex :: string
  ca_request_hex :: string
  ca_host :: surroundings
  ca_others :: interleaving
  ca_turn :: "nat \<Rightarrow> router \<Rightarrow> router"

definition call_id :: "call \<Rightarrow> string" where
  "call_id C = ''c-'' @ ca_hex C"

text \<open>One call of a handler: the capability, what it was told about the call, and its arguments.\<close>

record handler_call =
  hc_capability :: string
  hc_identity :: execution_identity
  hc_context :: use_context
  hc_args :: json_object

type_synonym call_step = "capability_result \<times> handler_call list \<times> router"

text \<open>Every way out writes an event and answers; the event comes first.\<close>

definition answer :: "call \<Rightarrow> string \<Rightarrow> string \<Rightarrow> capability_outcome \<Rightarrow> int \<Rightarrow> string \<Rightarrow> result_data
    \<Rightarrow> string \<Rightarrow> string \<Rightarrow> string \<Rightarrow> handler_call list \<Rightarrow> router \<Rightarrow> call_step" where
  "answer C name phase oc risk ev_text data reason detail human calls rt =
     (\<lparr>cr_outcome = oc, cr_call_id = call_id C, cr_capability = name, cr_data = data,
        cr_human = human, cr_reason = reason, cr_detail = detail\<rparr>, calls,
      emit (call_id C) name phase (outcome_value oc) risk ev_text rt)"

definition carried :: "string option \<Rightarrow> result_data" where
  "carried d = (case d of None \<Rightarrow> No_data | Some t \<Rightarrow> Data t)"

definition or_text :: "string \<Rightarrow> string \<Rightarrow> string" where
  "or_text s t = (if s = [] then t else s)"

definition human_declined :: string where "human_declined = ''Damit kann ich nichts anfangen.''"
definition human_refused :: string where "human_refused = ''Das mache ich nicht.''"
definition human_unavailable :: string where
  "human_unavailable = ''Dafuer ist gerade nichts erreichbar '' @ [CHR 0xE2, CHR 0x80, CHR 0x94] @
     '' es ist nichts passiert.''"

definition call_context :: "call \<Rightarrow> string \<Rightarrow> use_context" where
  "call_context C name = \<lparr>uc_origin = ca_origin C, uc_capability = name, uc_approval = [],
     uc_execution = [], uc_user_present = False, uc_automation = ca_automation C\<rparr>"

definition EMPTY_CONTEXT :: use_context where
  "EMPTY_CONTEXT = \<lparr>uc_origin = OC_UNSPECIFIED, uc_capability = [], uc_approval = [],
     uc_execution = [], uc_user_present = False, uc_automation = []\<rparr>"

definition approved_context :: "call \<Rightarrow> string \<Rightarrow> approval_id \<Rightarrow> use_context" where
  "approved_context C name aid = \<lparr>uc_origin = ca_origin C, uc_capability = name, uc_approval = aid,
     uc_execution = [], uc_user_present = True, uc_automation = []\<rparr>"

section \<open>Class and decision\<close>

definition classify_call :: "registration \<Rightarrow> use_context \<Rightarrow> json_object \<Rightarrow> classification call_end" where
  "classify_call rg ctx args =
     (let sp = rg_spec rg in
      case rg_classify rg of
        None \<Rightarrow> Gives \<lparr>cl_class = apply_floor (base_class (cs_name sp) (is_read_only sp)) (cs_risk sp),
                   cl_targets = [], cl_reason = ''registry''\<rparr>
      | Some refine \<Rightarrow>
          (case refine ctx args of
             Throws e \<Rightarrow> Throws e
           | Gives None \<Rightarrow> Gives \<lparr>cl_class = AC_UNCLASSIFIED, cl_targets = [],
                             cl_reason = ''classifier_invalid''\<rparr>
           | Gives (Some c) \<Rightarrow> Gives (c\<lparr>cl_class := apply_floor (cl_class c) (cs_risk sp)\<rparr>)))"

text \<open>\<open>_verify_preauth\<close>: no checker, a refusal and a failure are all the empty permission.\<close>

definition verified_preauth :: "router \<Rightarrow> call \<Rightarrow> string \<Rightarrow> classification \<Rightarrow> string" where
  "verified_preauth rt C name cl = (case rt_preauth rt of
       None \<Rightarrow> []
     | Some check \<Rightarrow>
         (case check (ca_automation C) name (cl_class cl) (cl_targets cl) (ca_args C) of
            Inr p \<Rightarrow> p | Inl _ \<Rightarrow> []))"

definition classify_and_decide :: "router \<Rightarrow> call \<Rightarrow> registration \<Rightarrow> policy_outcome result call_end" where
  "classify_and_decide rt C rg =
     (let name = cs_name (rg_spec rg);
          decided = (\<lambda>cl.
            let permit = (if ca_automation C \<noteq> [] \<and> ca_origin C = OC_BACKGROUND_AUTOMATION \<and>
                             cl_class cl = ELIGIBLE_CLASS
                          then verified_preauth rt C name cl else [])
            in Gives (decide (ca_origin C) (cl_class cl) name (ca_provenance C) (ca_commanded C) permit));
          unknown = \<lparr>cl_class = AC_UNCLASSIFIED, cl_targets = [], cl_reason = ''classifier_failed''\<rparr>
      in case classify_call rg (call_context C name) (ca_args C) of
           Gives cl \<Rightarrow> decided cl
         | Throws (Declined r h d) \<Rightarrow> Throws (Declined r h d)
         | Throws (Refused r h d) \<Rightarrow> Throws (Refused r h d)
         | Throws (Executor_unavailable m) \<Rightarrow> Throws (Executor_unavailable m)
         | Throws _ \<Rightarrow> decided unknown)"

section \<open>The run without a question\<close>

definition ambiguous :: "call \<Rightarrow> capability_spec \<Rightarrow> int \<Rightarrow> capability_outcome \<Rightarrow> string \<Rightarrow> string \<Rightarrow> string
    \<Rightarrow> handler_call list \<Rightarrow> router \<Rightarrow> call_step" where
  "ambiguous C sp risk oc reason human detail =
     (if recovery_decision EXTERNAL_PENDING (Sem (effective_semantics sp)) = MANUAL_RECOVERY_REQUIRED
      then answer C (cs_name sp) ''finished'' RECOVERY_REQUIRED risk (or_text detail reason) No_data reason
             detail (''Ich weiss nicht sicher, ob das durchging '' @ [CHR 0xE2, CHR 0x80, CHR 0x94] @
               '' bitte pruef es, bevor wir es wiederholen.'')
      else answer C (cs_name sp) ''finished'' oc risk (or_text detail reason) No_data reason detail human)"

text \<open>
  \<open>_run\<close>: the handler is called and raced against its time limit, and against the cancel token where
  the capability can be cancelled. In every case it has been called.
\<close>

definition run_handler :: "call \<Rightarrow> registration \<Rightarrow> int \<Rightarrow> router \<Rightarrow> call_step" where
  "run_handler C rg risk rt =
     (let sp = rg_spec rg; name = cs_name sp; ctx = call_context C name;
          calls = [\<lparr>hc_capability = name, hc_identity = EMPTY_IDENTITY, hc_context = ctx,
                     hc_args = ca_args C\<rparr>];
          done_with = (\<lambda>oc ev_text data reason detail human.
            answer C name ''finished'' oc risk ev_text data reason detail human calls rt);
          late = ambiguous C sp risk TIMEOUT ''timeout'' ''Das hat zu lange gedauert.'' [] calls rt
      in if ca_race C = Cancel_first \<and> ca_cancel C \<noteq> None \<and> cs_cancellable sp
         then done_with CANCELLED [] No_data ''cancelled'' [] ''Abgebrochen.''
         else if ca_race C = Time_first then late
         else case rg_handler rg EMPTY_IDENTITY ctx (ca_args C) of
           Gives d \<Rightarrow> done_with SUCCESS [] (Data d) [] [] []
         | Throws Ran_out_of_time \<Rightarrow> late
         | Throws (Declined r h d) \<Rightarrow> done_with INVALID_INPUT r (carried d) r [] (or_text h human_declined)
         | Throws (Refused r h d) \<Rightarrow> done_with REJECTED_BY_POLICY r (carried d) r [] (or_text h human_refused)
         | Throws (Executor_unavailable m) \<Rightarrow>
             (let text = ''ExecutorUnavailable: '' @ m in
              done_with EXECUTOR_UNAVAILABLE text No_data ''executor_unavailable'' text human_unavailable)
         | Throws (Ambiguous_execution m) \<Rightarrow>
             ambiguous C sp risk TIMEOUT ''ambiguous_execution''
               ''Ich habe dafuer keine Bestaetigung bekommen.'' (''AmbiguousExecution: '' @ m) calls rt
         | Throws e \<Rightarrow>
             (let text = class_name e @ '': '' @ take_points 200 (error_text e) in
              done_with CAPABILITY_FAILED text No_data ''capability_failed'' text ''Dabei ging etwas schief.''))"

section \<open>The broker without a device\<close>

text \<open>\<open>_check_approval\<close>: \<open>Inr\<close> is approved, go on; \<open>Inl\<close> is the answer the call ends with.\<close>

definition check_approval :: "call \<Rightarrow> capability_spec \<Rightarrow> int \<Rightarrow> router \<Rightarrow> call_step + router" where
  "check_approval C sp risk rt =
     (let E = ca_host C; H = ox_sha256 (su_outside E); name = cs_name sp;
          reject = (\<lambda>ev_text reason human rt. Inl (answer C name ''rejected'' REJECTED_BY_POLICY risk ev_text
                      No_data reason [] human [] rt))
      in case rt_approvals rt of
           None \<Rightarrow> reject ''no_approval_channel'' ''no_approval_channel'' ''Dafuer fehlt mir ein Freigabeweg.'' rt
         | Some b \<Rightarrow>
             if ca_approval C = [] then
               (case broker_request H (su_mclock E) (su_token E) (or_text (ca_who C) (rt_principal rt)) name
                       (canonical_binding (su_floats E) sp (ca_args C)) []
                       (execution_class_value (cs_class sp)) b of
                  (Inl _, b') \<Rightarrow> reject ''too_many_pending_approvals'' ''too_many_pending_approvals''
                      ''Es warten schon zu viele Freigaben.'' (rt\<lparr>rt_approvals := Some b'\<rparr>)
                | (Inr r, b') \<Rightarrow> Inl (answer C name ''approval_required'' APPROVAL_REQUIRED risk (ap_digest r)
                      (Request_id (ap_id r)) ''awaiting_user_approval'' []
                      ''Das muss ich mir erst bestaetigen lassen.'' [] (rt\<lparr>rt_approvals := Some b'\<rparr>)))
             else
               (case broker_take_approved (su_mclock E) (ca_approval C) (Some name) b of
                  ((None, st), b') \<Rightarrow> reject st (''approval_'' @ st) ''Diese Freigabe gilt nicht.''
                      (rt\<lparr>rt_approvals := Some b'\<rparr>)
                | ((Some taken, _), b') \<Rightarrow>
                    if ap_digest taken \<noteq> binding_digest H (su_floats E) sp (ca_args C)
                    then reject ''approval_drift'' ''approval_drift''
                           ''Das ist nicht mehr die Aktion, die du bestaetigt hast.''
                           (rt\<lparr>rt_approvals := Some b'\<rparr>)
                    else Inr (rt\<lparr>rt_approvals := Some b'\<rparr>)))"

section \<open>The approval on the iPhone\<close>

fun approval_failure_text :: "string \<Rightarrow> string" where
  "approval_failure_text st =
     (if st = ''not_approved'' then ''Das ist noch nicht freigegeben.''
      else if st = ''denied'' then ''Das hast du abgelehnt. Dabei bleibt es.''
      else if st = ''approval_drift'' then ''Das ist nicht mehr die Aktion, die du bestaetigt hast.''
      else if st = ''unknown_approval'' then ''Diese Freigabe kenne ich nicht.''
      else if st = ''approval_capability_mismatch'' then ''Diese Freigabe gilt einer anderen Aktion.''
      else ''Das habe ich nicht ausgefuehrt.'')"

definition approval_failure :: "call \<Rightarrow> string \<Rightarrow> int \<Rightarrow> string \<Rightarrow> handler_call list \<Rightarrow> router
    \<Rightarrow> call_step" where
  "approval_failure C name risk st calls rt =
     (if st = ''unknown_outcome''
      then answer C name ''finished'' RECOVERY_REQUIRED risk st No_data st []
             (''Ich weiss nicht sicher, ob das durchging '' @ [CHR 0xE2, CHR 0x80, CHR 0x94] @
               '' bitte pruef es, bevor wir es wiederholen.'') calls rt
      else if st = ''failed_safe''
      then answer C name ''finished'' CAPABILITY_FAILED risk st No_data st []
             (''Das hat nicht geklappt '' @ [CHR 0xE2, CHR 0x80, CHR 0x94] @ '' es ist nichts passiert.'')
             calls rt
      else answer C name ''rejected'' REJECTED_BY_POLICY risk st No_data st []
             (approval_failure_text st) calls rt)"

definition NOT_USABLE :: "string list" where
  "NOT_USABLE = [''not_approved'', ''unknown_approval'', ''approval_drift'',
     ''approval_capability_mismatch'']"

definition drop_outstanding :: "string \<Rightarrow> router \<Rightarrow> router" where
  "drop_outstanding name rt =
     rt\<lparr>rt_outstanding := filter (\<lambda>p. fst p \<noteq> name) (rt_outstanding rt)\<rparr>"

definition outstanding_for :: "string \<Rightarrow> router \<Rightarrow> approval_id" where
  "outstanding_for name rt = or_empty (map_of (rt_outstanding rt) name)"

definition set_outstanding :: "string \<Rightarrow> approval_id \<Rightarrow> router \<Rightarrow> router" where
  "set_outstanding name aid rt =
     rt\<lparr>rt_outstanding := (if name \<in> fst ` set (rt_outstanding rt)
        then map (\<lambda>p. if fst p = name then (name, aid) else p) (rt_outstanding rt)
        else rt_outstanding rt @ [(name, aid)])\<rparr>"

text \<open>
  The gateway call both continuations make: the text is bound to what was shown, the handler gets the
  real arguments (\<open>_WithArguments\<close>).
\<close>

definition resume_call :: "call \<Rightarrow> registration \<Rightarrow> approval_id \<Rightarrow> json_object \<Rightarrow> coordinator
    \<Rightarrow> (execution_done option \<times> string) result \<times> handler_call list \<times> coordinator" where
  "resume_call C rg aid shown m =
     (let sp = rg_spec rg; name = cs_name sp; ctx = approved_context C name aid
      in case resume (ca_host C) (ca_others C) ctx aid sp shown (\<lambda>i c _. rg_handler rg i c (ca_args C))
               (ORIGIN_LABEL (ca_origin C)) m of
           (r, payloads, m') \<Rightarrow>
             (r, map (\<lambda>p. \<lparr>hc_capability = name, hc_identity = identity_of aid sp p,
                     hc_context = ctx\<lparr>uc_execution := ep_execution p\<rparr>, hc_args = ca_args C\<rparr>) payloads, m'))"

definition success_data :: "execution_done option \<Rightarrow> result_data" where
  "success_data d = (case d of None \<Rightarrow> No_data | Some i \<Rightarrow> Data (ed_info i))"

text \<open>\<open>_resume_if_approved\<close>: \<open>Inr\<close> is that this approval does not carry the call.\<close>

definition resume_if_approved :: "call \<Rightarrow> registration \<Rightarrow> int \<Rightarrow> approval_id \<Rightarrow> json_object \<Rightarrow> coordinator
    \<Rightarrow> router \<Rightarrow> call_step + handler_call list \<times> router" where
  "resume_if_approved C rg risk aid shown m rt =
     (let name = cs_name (rg_spec rg) in
      case resume_call C rg aid shown m of
        (Inl _, calls, m') \<Rightarrow> Inr (calls, ca_turn C 3 (rt\<lparr>rt_mobile := Some m'\<rparr>))
      | (Inr (d, st), calls, m') \<Rightarrow>
          let rt1 = ca_turn C 3 (rt\<lparr>rt_mobile := Some m'\<rparr>) in
          if st \<in> set NOT_USABLE then Inr (calls, rt1)
          else let rt2 = drop_outstanding name rt1 in
            Inl (if st = ''ok'' then answer C name ''finished'' SUCCESS risk [] (success_data d) [] [] [] calls rt2
                 else approval_failure C name risk st calls rt2))"

definition abandon_mobile :: "time \<Rightarrow> approval_id \<Rightarrow> string \<Rightarrow> router \<Rightarrow> router" where
  "abandon_mobile now aid reason rt = (case rt_mobile rt of
       None \<Rightarrow> rt
     | Some m \<Rightarrow> rt\<lparr>rt_mobile := Some (snd (abandon now aid reason m))\<rparr>)"

definition ask_on_phone :: "call \<Rightarrow> capability_spec \<Rightarrow> int \<Rightarrow> json_object \<Rightarrow> handler_call list \<Rightarrow> router
    \<Rightarrow> call_step" where
  "ask_on_phone C sp risk shown calls rt =
     (let name = cs_name sp; refuse = (\<lambda>cls rt. answer C name ''rejected'' REJECTED_BY_POLICY risk
             (''approval_request_failed:'' @ cls) No_data ''approval_unavailable'' []
             ''Ich kann dir das gerade nicht zur Freigabe schicken.'' calls rt)
      in case rt_mobile rt of
           None \<Rightarrow> refuse ''AttributeError'' rt
         | Some m \<Rightarrow>
      (case request_approval (ca_host C) (ca_request_hex C) sp shown (ca_who C)
              (ORIGIN_LABEL (ca_origin C)) m of
         (Inl e, m') \<Rightarrow> refuse (exn_name e) (ca_turn C 5 (rt\<lparr>rt_mobile := Some m'\<rparr>))
       | (Inr aid, m') \<Rightarrow> answer C name ''approval_required'' APPROVAL_REQUIRED risk aid (Request_id aid)
             ''awaiting_user_approval'' []
             (''Ich habe dir das aufs iPhone geschickt '' @ [CHR 0xE2, CHR 0x80, CHR 0x94] @
               '' bitte mit Face ID bestaetigen.'') calls
             (set_outstanding name aid (ca_turn C 5 (rt\<lparr>rt_mobile := Some m'\<rparr>)))))"

text \<open>What a describer or a classifier that objects turns into; the rest of the exceptions is \<open>other\<close>.\<close>

definition objection :: "call \<Rightarrow> string \<Rightarrow> int \<Rightarrow> call_error \<Rightarrow> call_step \<Rightarrow> router \<Rightarrow> call_step" where
  "objection C name risk e other rt = (case e of
       Declined r h d \<Rightarrow> answer C name ''rejected'' INVALID_INPUT risk r (carried d) r []
         (or_text h human_declined) [] rt
     | Refused r h d \<Rightarrow> answer C name ''rejected'' REJECTED_BY_POLICY risk r (carried d) r []
         (or_text h human_refused) [] rt
     | Executor_unavailable _ \<Rightarrow> answer C name ''rejected'' EXECUTOR_UNAVAILABLE risk [] No_data
         ''executor_unavailable'' ''ExecutorUnavailable'' human_unavailable [] rt
     | _ \<Rightarrow> other)"

definition undescribable :: "call \<Rightarrow> string \<Rightarrow> int \<Rightarrow> string \<Rightarrow> router \<Rightarrow> call_step" where
  "undescribable C name risk cls rt =
     answer C name ''rejected'' REJECTED_BY_POLICY risk (''describe_failed:'' @ cls) No_data
       ''action_not_describable'' []
       (''Ich kann dir nicht genau sagen, was passieren wuerde '' @ [CHR 0xE2, CHR 0x80, CHR 0x94] @
         '' deshalb frage ich auch nicht danach.'') [] rt"

definition describe_call :: "registration \<Rightarrow> json_object \<Rightarrow> json_object option call_end" where
  "describe_call rg args = (case rg_describe rg of
       None \<Rightarrow> Gives (Some args) | Some f \<Rightarrow> f EMPTY_CONTEXT args)"

definition resume_approved :: "call \<Rightarrow> registration \<Rightarrow> int \<Rightarrow> json_object \<Rightarrow> router \<Rightarrow> call_step" where
  "resume_approved C rg risk shown rt0 =
     (let name = cs_name (rg_spec rg); aid = ca_approval C;
          rt = emit (call_id C) name ''started'' [] risk [] (drop_outstanding name rt0);
          failed = (\<lambda>text calls rt. answer C name ''finished'' CAPABILITY_FAILED risk text No_data
             ''capability_failed'' text ''Dabei ging etwas schief.'' calls rt)
      in case rt_mobile rt of
           None \<Rightarrow> failed ''AttributeError: '' [] rt
         | Some m \<Rightarrow>
      (case resume_call C rg aid shown m of
         (Inl e, calls, m') \<Rightarrow> failed (exn_name e @ '': '' @ take_points 160 (exn_text e)) calls
             (ca_turn C 3 (rt\<lparr>rt_mobile := Some m'\<rparr>))
       | (Inr (d, st), calls, m') \<Rightarrow>
           if st = ''ok'' then answer C name ''finished'' SUCCESS risk [] (success_data d) [] [] [] calls
             (ca_turn C 3 (rt\<lparr>rt_mobile := Some m'\<rparr>))
           else approval_failure C name risk st calls (ca_turn C 3 (rt\<lparr>rt_mobile := Some m'\<rparr>))))"

definition mobile_approval :: "call \<Rightarrow> registration \<Rightarrow> int \<Rightarrow> router \<Rightarrow> call_step" where
  "mobile_approval C rg risk rt0 =
     (let sp = rg_spec rg; name = cs_name sp; rt = ca_turn C 2 rt0
      in case describe_call rg (ca_args C) of
           Throws e \<Rightarrow> objection C name risk e (undescribable C name risk (class_name e) rt) rt
         | Gives None \<Rightarrow> undescribable C name risk ''CapabilityError'' rt
         | Gives (Some shown) \<Rightarrow>
             if ca_approval C \<noteq> [] then resume_approved C rg risk shown rt
             else
               (let previous = outstanding_for name rt in
                if previous = [] then ask_on_phone C sp risk shown [] rt
                else case rt_mobile rt of
                    None \<Rightarrow> ask_on_phone C sp risk shown [] rt
                  | Some m \<Rightarrow>
                (case resume_if_approved C rg risk previous shown m rt of
                   Inl done_call \<Rightarrow> done_call
                 | Inr (calls, rt1) \<Rightarrow>
                     ask_on_phone C sp risk shown calls
                       (ca_turn C 4 (abandon_mobile (su_clock (ca_host C) 0) previous
                          ''superseded_by_new_request''
                          (drop_outstanding name rt1))))))"

section \<open>The pipeline\<close>

fun refusal_message :: "string \<Rightarrow> string" where
  "refusal_message reason =
     (if reason = ''untrusted_origin''
      then ''Das stand in fremdem Inhalt. Ich kann es dir sagen, aber nicht danach handeln.''
      else ''Dafuer fehlt mir deine ausdrueckliche Anweisung.'')"

text \<open>In a shadow run the policy is computed, and the older rule decides.\<close>

definition asks_human :: "router \<Rightarrow> policy_outcome \<Rightarrow> risk_level \<Rightarrow> bool" where
  "asks_human rt po level =
     (if rt_policy_mode rt = ''enforce'' then needs_approval po else requires_approval level)"

definition run_now :: "call \<Rightarrow> registration \<Rightarrow> int \<Rightarrow> router \<Rightarrow> call_step" where
  "run_now C rg risk rt =
     (let name = cs_name (rg_spec rg) in
      if ca_cancel C = Some True
      then answer C name ''finished'' CANCELLED risk [] No_data ''cancelled_before_start'' [] ''Abgebrochen.'' [] rt
      else run_handler C rg risk (emit (call_id C) name ''started'' [] risk [] rt))"

text \<open>Everything behind the policy decision; \<open>po\<close> is that decision.\<close>

definition execute_decided :: "call \<Rightarrow> registration \<Rightarrow> risk_level \<Rightarrow> policy_outcome \<Rightarrow> router \<Rightarrow> call_step" where
  "execute_decided C rg level po rt =
     (let sp = rg_spec rg; risk = risk_int level in
      if po_decision po = DENY
      then answer C (cs_name sp) ''rejected'' REJECTED_BY_POLICY risk (''policy_denied:'' @ po_reason po) No_data
             ''policy_denied'' [] ''Das mache ich auf diesem Weg nicht.'' [] rt
      else if \<not> asks_human rt po level then run_now C rg risk rt
      else if rt_mobile rt \<noteq> None then mobile_approval C rg risk rt
      else case check_approval C sp risk rt of Inl ended \<Rightarrow> ended | Inr rt' \<Rightarrow> run_now C rg risk rt')"

definition execute :: "call \<Rightarrow> string \<Rightarrow> router \<Rightarrow> call_step result" where
  "execute C name rt0 =
     (case map_of (rt_registered rt0) name of
        None \<Rightarrow> Inr (answer C name ''rejected'' REJECTED_BY_POLICY 0 [] No_data ''unknown_capability'' []
                  ''Diese Faehigkeit kenne ich nicht.'' [] rt0)
      | Some rg \<Rightarrow>
      let sp = rg_spec rg; rt = emit (call_id C) (cs_name sp) ''requested'' [] 0 [] rt0 in
      (case validate sp (ca_args C) of
         Some fault \<Rightarrow> Inr (answer C (cs_name sp) ''rejected'' INVALID_INPUT 0 fault No_data fault []
                          ''Die Angaben passen nicht.'' [] rt)
       | None \<Rightarrow>
      let level = effective_risk sp (ca_provenance C); risk = risk_int level in
      (case authority_refusal sp (ca_trust C) level of
         Some why \<Rightarrow> Inr (answer C (cs_name sp) ''rejected'' REJECTED_BY_POLICY risk why No_data why []
                        (refusal_message why) [] rt)
       | None \<Rightarrow>
      (case classify_and_decide rt C rg of
         Throws e \<Rightarrow> Inr (objection C (cs_name sp) risk e
                        (undescribable C (cs_name sp) risk (class_name e) (ca_turn C 1 rt)) (ca_turn C 1 rt))
       | Gives (Inl e) \<Rightarrow> Inl e
       | Gives (Inr po) \<Rightarrow> Inr (execute_decided C rg level po (ca_turn C 1 rt))))))"

section \<open>Withdrawing what is open\<close>

text \<open>\<open>abandon_outstanding\<close> for one name, or for all of them if the name is empty.\<close>

fun abandon_names :: "time \<Rightarrow> (nat \<Rightarrow> router \<Rightarrow> router) \<Rightarrow> string list \<Rightarrow> nat \<Rightarrow> router \<Rightarrow> nat \<times> router" where
  "abandon_names now turn [] n rt = (n, rt)"
| "abandon_names now turn (name # rest) n rt =
     (let aid = outstanding_for name rt; rt1 = drop_outstanding name rt in
      if aid = [] then abandon_names now turn rest n rt1
      else abandon_names now (\<lambda>i. turn (i + 1)) rest (n + 1)
             (turn 0 (abandon_mobile now aid ''capability_gave_up'' rt1)))"

definition abandon_outstanding :: "time \<Rightarrow> (nat \<Rightarrow> router \<Rightarrow> router) \<Rightarrow> string \<Rightarrow> router \<Rightarrow> nat \<times> router" where
  "abandon_outstanding now turn name rt =
     abandon_names now turn (if name \<noteq> [] then [name] else map fst (rt_outstanding rt)) 0 rt"

end
