(* ===== verification/Router_Safety.thy ===== *)
theory Router_Safety
  imports Capability_Router
begin

text \<open>
  What the router promises: a handler is only reached by arguments of the declared types, with the
  authority of the owner, past the policy, and, where the policy asks for it, behind an approval of
  exactly this call; and where the outcomes it answers with say more than is known.
\<close>

section \<open>Typed arguments\<close>

text \<open>The JSON types of a schema; a type the router does not know admits every value.\<close>

inductive value_type :: "json_value \<Rightarrow> string \<Rightarrow> bool" where
  a_string: "value_type (Jstr s) ''string''"
| an_integer: "value_type (Jint i) ''integer''"
| an_int_number: "value_type (Jint i) ''number''"
| a_real_number: "value_type (Jreal r) ''number''"
| a_boolean: "value_type (Jbool b) ''boolean''"
| an_object: "value_type (Jdict ps) ''object''"
| an_array: "value_type (Jlist vs) ''array''"
| unknown: "t \<notin> set [''string'', ''integer'', ''number'', ''boolean'', ''object'', ''array''] \<Longrightarrow> value_type v t"

inductive_simps value_type_simps [simp]:
  "value_type Jnull t" "value_type (Jbool b) t" "value_type (Jint i) t" "value_type (Jreal r) t"
  "value_type (Jstr s) t" "value_type (Jlist vs) t" "value_type (Jdict ps) t"

definition conforms :: "schema \<Rightarrow> json_object \<Rightarrow> bool" where
  "conforms sc args \<longleftrightarrow> set (sc_required sc) \<subseteq> fst ` set args \<and>
     (sc_properties sc \<noteq> [] \<longrightarrow> (\<forall>(k, v) \<in> set args. \<exists>t. map_of (sc_properties sc) k = Some t \<and>
        (\<forall>declared. t = Some declared \<longrightarrow> value_type v declared)))"

lemma type_fits_iff: "type_fits declared v \<noteq> Some False \<longleftrightarrow> value_type v declared"
  by (cases v) (auto simp: type_fits_def)

lemma first_fault_None: "first_fault f xs = None \<longleftrightarrow> (\<forall>x\<in>set xs. f x = None)"
  by (induction xs) (auto split: option.splits)

lemma check_argument_None:
  "check_argument properties (k, v) = None \<longleftrightarrow>
   (\<exists>t. map_of properties k = Some t \<and> (\<forall>declared. t = Some declared \<longrightarrow> value_type v declared))"
proof (cases "map_of properties k")
  case (Some t)
  show ?thesis
  proof (cases t)
    case (Some declared)
    with \<open>map_of properties k = Some t\<close> type_fits_iff [of declared v] show ?thesis
      by (auto simp: check_argument_def split: option.splits bool.splits)
  qed (use Some in \<open>simp add: check_argument_def\<close>)
qed (simp add: check_argument_def)

lemma validate_conforms: "validate sp args = None \<longleftrightarrow> conforms (cs_input sp) args"
proof -
  let ?missing = "first_fault (\<lambda>key. if key \<notin> fst ` set args then Some (''missing_argument:'' @ key) else None)
    (sc_required (cs_input sp))"
  have "?missing = None \<longleftrightarrow> set (sc_required (cs_input sp)) \<subseteq> fst ` set args"
    unfolding first_fault_None by auto
  moreover have "first_fault (check_argument (sc_properties (cs_input sp))) args = None \<longleftrightarrow>
      (\<forall>(k, v) \<in> set args. \<exists>t. map_of (sc_properties (cs_input sp)) k = Some t \<and>
        (\<forall>declared. t = Some declared \<longrightarrow> value_type v declared))"
    unfolding first_fault_None by (auto simp: check_argument_None split_paired_all)
  ultimately show ?thesis unfolding validate_def conforms_def by (cases ?missing) simp_all
qed

section \<open>Which handler calls a step makes\<close>

lemma answer_calls [simp]: "fst (snd (answer C name phase oc risk ev data reason detail human calls rt)) = calls"
  by (simp add: answer_def)

lemma answer_eqD:
  "answer C name phase oc risk ev data reason detail human calls rt = (res, calls', rt') \<Longrightarrow> calls' = calls"
  by (simp add: answer_def)

definition direct_call :: "call \<Rightarrow> string \<Rightarrow> handler_call" where
  "direct_call C name = \<lparr>hc_capability = name, hc_identity = EMPTY_IDENTITY,
     hc_context = call_context C name, hc_args = ca_args C\<rparr>"

lemma ambiguous_calls [simp]: "fst (snd (ambiguous C sp risk oc reason human detail calls rt)) = calls"
  by (simp add: ambiguous_def)

lemma run_handler_calls: "fst (snd (run_handler C rg risk rt)) = [direct_call C (cs_name (rg_spec rg))]"
  by (simp add: run_handler_def Let_def direct_call_def split: call_end.splits call_error.splits)

lemma approval_failure_calls [simp]: "fst (snd (approval_failure C name risk st calls rt)) = calls"
  by (simp add: approval_failure_def)

lemma ask_on_phone_calls [simp]: "fst (snd (ask_on_phone C sp risk shown calls rt)) = calls"
  by (simp add: ask_on_phone_def Let_def split: option.splits prod.splits sum.splits)

lemma objection_calls: "fst (snd other) = [] \<Longrightarrow> fst (snd (objection C name risk e other rt)) = []"
  by (simp add: objection_def split: call_error.splits)

lemma undescribable_calls [simp]: "fst (snd (undescribable C name risk cls rt)) = []"
  by (simp add: undescribable_def)

lemma check_approval_calls: "check_approval C sp risk rt = Inl r \<Longrightarrow> fst (snd r) = []"
  by (auto simp: check_approval_def Let_def split: option.splits if_splits prod.splits sum.splits)

lemma check_approval_Inr:
  assumes "check_approval C sp risk rt = Inr rt'"
  shows "\<exists>b taken st b'. rt_approvals rt = Some b \<and>
    broker_take_approved (su_mclock (ca_host C)) (ca_approval C) (Some (cs_name sp)) b = ((Some taken, st), b') \<and>
    ap_digest taken = binding_digest (ox_sha256 (su_outside (ca_host C))) (su_floats (ca_host C)) sp (ca_args C)"
  using assms
  by (auto simp: check_approval_def Let_def split: option.splits if_splits prod.splits sum.splits)

lemma resume_approved_calls:
  assumes "resume_approved C rg risk shown rt = (res, calls, rt')" "calls \<noteq> []"
  shows "\<exists>m r m'. rt_mobile rt = Some m \<and> resume_call C rg (ca_approval C) shown m = (r, calls, m')"
  using assms
  by (auto simp: resume_approved_def Let_def emit_def drop_outstanding_def answer_def approval_failure_def
      split: option.splits prod.splits sum.splits if_splits)

lemma resume_if_approved_calls:
  "resume_if_approved C rg risk aid shown m rt = Inl r \<Longrightarrow>
     \<exists>q m'. resume_call C rg aid shown m = (q, fst (snd r), m')"
  "resume_if_approved C rg risk aid shown m rt = Inr (calls, rt1) \<Longrightarrow>
     \<exists>q m'. resume_call C rg aid shown m = (q, calls, m')"
  by (auto simp: resume_if_approved_def Let_def split: prod.splits sum.splits if_splits)

text \<open>On the iPhone path a handler is only called through the gateway, for what was shown.\<close>

lemma mobile_approval_calls:
  assumes "mobile_approval C rg risk rt = (res, calls, rt')" "calls \<noteq> []"
  shows "\<exists>shown aid m r m'. describe_call rg (ca_args C) = Gives (Some shown) \<and>
    rt_mobile (ca_turn C 2 rt) = Some m \<and> resume_call C rg aid shown m = (r, calls, m')"
proof -
  let ?rt = "ca_turn C 2 rt" and ?name = "cs_name (rg_spec rg)"
  from assms have c: "fst (snd (mobile_approval C rg risk rt)) = calls" by simp
  have "fst (snd (objection C ?name risk e (undescribable C ?name risk cls ?rt) ?rt)) = []" for e cls
    by (simp add: objection_calls)
  with c assms(2) obtain shown where shown: "describe_call rg (ca_args C) = Gives (Some shown)"
    by (auto simp: mobile_approval_def Let_def split: call_end.splits option.splits)
  show ?thesis
  proof (cases "ca_approval C = []")
    case False
    with assms(1) shown have "resume_approved C rg risk shown ?rt = (res, calls, rt')"
      by (simp add: mobile_approval_def Let_def)
    from resume_approved_calls [OF this assms(2)] shown show ?thesis by blast
  next
    case True
    with c assms(2) shown obtain m where m: "rt_mobile ?rt = Some m" "outstanding_for ?name ?rt \<noteq> []"
      by (cases "outstanding_for ?name ?rt = []"; cases "rt_mobile ?rt")
        (auto simp: mobile_approval_def Let_def)
    with c True shown show ?thesis
      using resume_if_approved_calls [of C rg risk "outstanding_for ?name ?rt" shown m ?rt]
      by (auto simp: mobile_approval_def Let_def split: sum.splits)
  qed
qed

text \<open>What lies in front of every call of a handler.\<close>

abbreviation requested :: "call \<Rightarrow> registration \<Rightarrow> router \<Rightarrow> router" where
  "requested C rg \<equiv> emit (call_id C) (cs_name (rg_spec rg)) ''requested'' [] 0 []"

lemma execute_calls:
  assumes "execute C name rt = Inr (res, calls, rt')" "calls \<noteq> []"
  shows "\<exists>rg po. map_of (rt_registered rt) name = Some rg \<and> validate (rg_spec rg) (ca_args C) = None \<and>
    authority_refusal (rg_spec rg) (ca_trust C) (effective_risk (rg_spec rg) (ca_provenance C)) = None \<and>
    classify_and_decide (requested C rg rt) C rg = Gives (Inr po) \<and>
    execute_decided C rg (effective_risk (rg_spec rg) (ca_provenance C)) po
      (ca_turn C 1 (requested C rg rt)) = (res, calls, rt')"
proof -
  let ?obj = "\<lambda>rg e. objection C (cs_name (rg_spec rg)) (risk_int (effective_risk (rg_spec rg) (ca_provenance C))) e
    (undescribable C (cs_name (rg_spec rg)) (risk_int (effective_risk (rg_spec rg) (ca_provenance C)))
      (class_name e) (ca_turn C 1 (requested C rg rt))) (ca_turn C 1 (requested C rg rt))"
  have "fst (snd (?obj rg e)) = []" for rg e by (simp add: objection_calls)
  then have none: "?obj rg e \<noteq> (res, calls, rt')" for rg e
    using assms(2) by (metis fst_conv snd_conv)
  show ?thesis using assms none
    by (auto simp: execute_def Let_def dest!: answer_eqD
        split: option.splits call_end.splits sum.splits)
qed

lemma run_now_calls:
  "fst (snd (run_now C rg risk rt)) \<noteq> [] \<Longrightarrow>
   fst (snd (run_now C rg risk rt)) = [direct_call C (cs_name (rg_spec rg))]"
  by (auto simp: run_now_def Let_def run_handler_calls)

lemma execute_decided_calls:
  assumes "execute_decided C rg level po rt = (res, calls, rt')" "calls \<noteq> []"
  shows "po_decision po \<noteq> DENY \<and>
    (asks_human rt po level \<and> rt_mobile rt \<noteq> None \<and>
       mobile_approval C rg (risk_int level) rt = (res, calls, rt') \<or>
     calls = [direct_call C (cs_name (rg_spec rg))] \<and>
       (asks_human rt po level \<longrightarrow> (\<exists>rt1. check_approval C (rg_spec rg) (risk_int level) rt = Inr rt1)))"
proof -
  let ?r = "execute_decided C rg level po rt"
  have c: "fst (snd ?r) = calls" using assms(1) by simp
  have run: "fst (snd (run_now C rg (risk_int level) q)) = calls \<Longrightarrow>
      calls = [direct_call C (cs_name (rg_spec rg))]" for q
    using run_now_calls assms(2) by metis
  have deny: "po_decision po \<noteq> DENY"
    using assms(2) c by (auto simp: execute_decided_def Let_def)
  consider "\<not> asks_human rt po level" | "asks_human rt po level" "rt_mobile rt \<noteq> None"
    | "asks_human rt po level" "rt_mobile rt = None" by blast
  then show ?thesis
  proof cases
    case 1
    then have "?r = run_now C rg (risk_int level) rt" using deny by (simp add: execute_decided_def Let_def)
    with run c deny 1 show ?thesis by simp
  next
    case 2
    then show ?thesis using deny assms(1) by (simp add: execute_decided_def Let_def)
  next
    case 3
    show ?thesis
    proof (cases "check_approval C (rg_spec rg) (risk_int level) rt")
      case (Inl ended)
      with 3 deny have "?r = ended" by (simp add: execute_decided_def Let_def)
      with check_approval_calls [OF Inl] c assms(2) show ?thesis by simp
    next
      case (Inr rt1)
      with 3 deny have "?r = run_now C rg (risk_int level) rt1" by (simp add: execute_decided_def Let_def)
      with run c deny Inr show ?thesis by simp
    qed
  qed
qed

lemma resume_call_args:
  assumes "resume_call C rg aid shown m = (r, calls, m')" "h \<in> set calls"
  shows "hc_capability h = cs_name (rg_spec rg) \<and> hc_args h = ca_args C"
  using assms by (auto simp: resume_call_def Let_def split: prod.splits)

lemma execute_call_args:
  assumes "execute C name rt = Inr (res, calls, rt')" "h \<in> set calls"
  shows "\<exists>rg. map_of (rt_registered rt) name = Some rg \<and> hc_capability h = cs_name (rg_spec rg) \<and>
    hc_args h = ca_args C"
proof -
  from assms(2) have ne: "calls \<noteq> []" by auto
  from execute_calls [OF assms(1) ne] obtain rg po where rg: "map_of (rt_registered rt) name = Some rg"
    and ex: "execute_decided C rg (effective_risk (rg_spec rg) (ca_provenance C)) po
      (ca_turn C 1 (requested C rg rt)) = (res, calls, rt')" by blast
  from execute_decided_calls [OF ex ne, THEN conjunct2] have "hc_capability h = cs_name (rg_spec rg) \<and> hc_args h = ca_args C"
  proof (elim disjE conjE)
    assume "mobile_approval C rg (risk_int (effective_risk (rg_spec rg) (ca_provenance C)))
      (ca_turn C 1 (requested C rg rt)) = (res, calls, rt')"
    from mobile_approval_calls [OF this ne] assms(2) show ?thesis by (blast dest: resume_call_args)
  next
    assume "calls = [direct_call C (cs_name (rg_spec rg))]"
    with assms(2) show ?thesis by (simp add: direct_call_def)
  qed
  with rg show ?thesis by blast
qed

section \<open>Properties\<close>


text \<open>
  C27: Authority comes before everything. A handler is only called for a call that only reads and asks
  for no approval, or for one whose context bears the authority of the owner and does not come from
  foreign content; and only past a policy decision that is not a refusal.
\<close>

theorem handlers_run_only_with_authority:
  assumes "execute C name rt = Inr (res, calls, rt')" and "calls \<noteq> []"
  shows "\<exists>rg po. map_of (rt_registered rt) name = Some rg \<and>
    (is_read_only (rg_spec rg) \<and> \<not> requires_approval (effective_risk (rg_spec rg) (ca_provenance C)) \<or>
     may_authorize (ca_trust C) \<and> \<not> is_untrusted (tc_origin (ca_trust C))) \<and>
    classify_and_decide (requested C rg rt) C rg = Gives (Inr po) \<and> po_decision po \<noteq> DENY"
proof -
  from execute_calls [OF assms] obtain rg po where rg: "map_of (rt_registered rt) name = Some rg"
    and auth: "authority_refusal (rg_spec rg) (ca_trust C) (effective_risk (rg_spec rg) (ca_provenance C)) = None"
    and po: "classify_and_decide (requested C rg rt) C rg = Gives (Inr po)"
    and ex: "execute_decided C rg (effective_risk (rg_spec rg) (ca_provenance C)) po
      (ca_turn C 1 (requested C rg rt)) = (res, calls, rt')" by blast
  from execute_decided_calls [OF ex assms(2)] have "po_decision po \<noteq> DENY" by blast
  with rg po auth show ?thesis by (auto simp: authority_refusal_def split: if_splits)
qed

text \<open>
  What the gateway needs of the coordinator, and that the other tasks of the process keep it and do not
  change the mode of the policy.
\<close>

definition mobile_ok :: "call \<Rightarrow> coordinator \<Rightarrow> bool" where
  "mobile_ok C m \<longleftrightarrow> store_inv (co_store m) \<and>
     gate_inv (ox_sha256 (su_outside (ca_host C))) (co_broker m) \<and>
     su_token (ca_host C) \<notin> ap_id ` set (bk_pending (co_broker m)) \<and>
     digests_own (ox_sha256 (su_outside (ca_host C))) (co_store m)"

definition router_ok :: "call \<Rightarrow> router \<Rightarrow> bool" where
  "router_ok C rt \<longleftrightarrow> (case rt_mobile rt of None \<Rightarrow> True | Some m \<Rightarrow> mobile_ok C m)"

definition lawful_turns :: "call \<Rightarrow> bool" where
  "lawful_turns C \<longleftrightarrow> (\<forall>i rt. rt_policy_mode (ca_turn C i rt) = rt_policy_mode rt \<and>
     (router_ok C rt \<longrightarrow> router_ok C (ca_turn C i rt)))"

definition broker_released :: "call \<Rightarrow> capability_spec \<Rightarrow> router \<Rightarrow> bool" where
  "broker_released C sp rt \<longleftrightarrow> (\<exists>b taken st b'. rt_approvals rt = Some b \<and>
     broker_take_approved (su_mclock (ca_host C)) (ca_approval C) (Some (cs_name sp)) b = ((Some taken, st), b') \<and>
     ap_approved taken \<and>
     ap_digest taken = binding_digest (ox_sha256 (su_outside (ca_host C))) (su_floats (ca_host C)) sp (ca_args C))"

definition human_confirmed :: "call \<Rightarrow> registration \<Rightarrow> handler_call \<Rightarrow> router \<Rightarrow> bool" where
  "human_confirmed C rg h rt \<longleftrightarrow> (\<exists>shown m who. rt_mobile rt = Some m \<and>
     describe_call rg (ca_args C) = Gives (Some shown) \<and>
     co_confirmed m (ei_approval (hc_identity h)) = Some (who,
       approval_digest (ox_sha256 (su_outside (ca_host C))) (su_floats (ca_host C)) (rg_spec rg) shown
         (ORIGIN_LABEL (ca_origin C))) \<and>
     execution_id_for (ox_sha256 (su_outside (ca_host C))) (cp_core (su_plane (ca_host C)))
       (ei_approval (hc_identity h)) = Inr (ei_execution (hc_identity h)))"

lemma resume_call_confirmed:
  assumes "resume_call C rg aid shown m = (r, calls, m')" "calls \<noteq> []" and "mobile_ok C m"
    and "lawful (su_outside (ca_host C)) (ca_others C)" and "describe_call rg (ca_args C) = Gives (Some shown)"
    and "rt_mobile rt = Some m"
  shows "\<exists>h. calls = [h] \<and> human_confirmed C rg h rt"
proof -
  let ?ctx = "approved_context C (cs_name (rg_spec rg)) aid"
  let ?h = "\<lambda>i c x. rg_handler rg i c (ca_args C)"
  from assms(1) obtain payloads where res: "resume (ca_host C) (ca_others C) ?ctx aid (rg_spec rg) shown ?h
      (ORIGIN_LABEL (ca_origin C)) m = (r, payloads, m')"
    and calls: "calls = map (\<lambda>p. \<lparr>hc_capability = cs_name (rg_spec rg), hc_identity = identity_of aid (rg_spec rg) p,
      hc_context = ?ctx\<lparr>uc_execution := ep_execution p\<rparr>, hc_args = ca_args C\<rparr>) payloads"
    by (auto simp: resume_call_def Let_def split: prod.splits)
  from calls assms(2) have "payloads \<noteq> []" by simp
  have ok: "store_inv (co_store m)" "gate_inv (ox_sha256 (su_outside (ca_host C))) (co_broker m)"
    "su_token (ca_host C) \<notin> ap_id ` set (bk_pending (co_broker m))"
    "digests_own (ox_sha256 (su_outside (ca_host C))) (co_store m)"
    using assms(3) unfolding mobile_ok_def by blast+
  from resume_confirmed [OF assms(4) ok res \<open>payloads \<noteq> []\<close>] obtain p who where
    p: "payloads = [p]" "co_confirmed m aid = Some (who,
      approval_digest (ox_sha256 (su_outside (ca_host C))) (su_floats (ca_host C)) (rg_spec rg) shown
        (ORIGIN_LABEL (ca_origin C)))"
      "execution_id_for (ox_sha256 (su_outside (ca_host C))) (cp_core (su_plane (ca_host C))) aid
        = Inr (ei_execution (identity_of aid (rg_spec rg) p))"
    by (elim exE conjE) (rule that; assumption)
  have "ei_approval (identity_of aid (rg_spec rg) p) = aid" by (simp add: identity_of_def)
  with p assms(5,6) show ?thesis unfolding calls human_confirmed_def by auto
qed

lemma broker_take_approved_ok:
  "broker_take_approved now rid tool b = ((Some taken, st), b') \<Longrightarrow> ap_approved taken"
  by (auto simp: broker_take_approved_def Let_def split: option.splits if_splits)

text \<open>
  C26: Where the policy asks for a human, nothing runs without one. If the policy decides that a call
  needs an approval, then at most one handler is called for it, and either the coordinator holds the
  confirmation of a human for exactly the text of what this call was described as, under the
  execution identity the handler is given, or the broker handed out an approved request with the digest of
  exactly these arguments. This is with other connections at work on the database and other tasks
  at work on the router at every await.
\<close>

theorem nothing_runs_without_its_approval:
  assumes "execute C name rt = Inr (res, calls, rt')" and "calls \<noteq> []"
    and "rt_policy_mode rt = ''enforce''" and "router_ok C rt" and "lawful_turns C"
    and "lawful (su_outside (ca_host C)) (ca_others C)"
  shows "\<exists>rg po h. map_of (rt_registered rt) name = Some rg \<and>
    classify_and_decide (requested C rg rt) C rg = Gives (Inr po) \<and> calls = [h] \<and>
    (needs_approval po \<longrightarrow> 
       human_confirmed C rg h (ca_turn C 2 (ca_turn C 1 (requested C rg rt))) \<or>
       broker_released C (rg_spec rg) (ca_turn C 1 (requested C rg rt)))"
proof -
  from execute_calls [OF assms(1,2)] obtain rg po where rg: "map_of (rt_registered rt) name = Some rg"
    and po: "classify_and_decide (requested C rg rt) C rg = Gives (Inr po)"
    and ex: "execute_decided C rg (effective_risk (rg_spec rg) (ca_provenance C)) po
      (ca_turn C 1 (requested C rg rt)) = (res, calls, rt')" by blast
  let ?rt = "ca_turn C 1 (requested C rg rt)"
  have "router_ok C (requested C rg rt)" using assms(4) by (simp add: router_ok_def emit_def)
  then have ok: "router_ok C (ca_turn C 2 ?rt)" using assms(5) by (simp add: lawful_turns_def)
  have "rt_policy_mode ?rt = ''enforce''" using assms(3,5) by (simp add: lawful_turns_def emit_def)
  then have asks: "asks_human ?rt po level = needs_approval po" for level by (simp add: asks_human_def)
  from execute_decided_calls [OF ex assms(2), THEN conjunct2] show ?thesis
  proof (elim disjE conjE)
    assume "mobile_approval C rg (risk_int (effective_risk (rg_spec rg) (ca_provenance C))) ?rt
      = (res, calls, rt')"
    from mobile_approval_calls [OF this assms(2)] obtain shown aid m r m' where
      m: "describe_call rg (ca_args C) = Gives (Some shown)" "rt_mobile (ca_turn C 2 ?rt) = Some m"
        "resume_call C rg aid shown m = (r, calls, m')" by blast
    from m(2) ok have "mobile_ok C m" by (simp add: router_ok_def)
    from resume_call_confirmed [OF m(3) assms(2) this assms(6) m(1,2)] rg po show ?thesis by blast
  next
    assume direct: "calls = [direct_call C (cs_name (rg_spec rg))]"
      and ap: "asks_human ?rt po (effective_risk (rg_spec rg) (ca_provenance C)) \<longrightarrow>
        (\<exists>rt1. check_approval C (rg_spec rg) (risk_int (effective_risk (rg_spec rg) (ca_provenance C))) ?rt
          = Inr rt1)"
    have "needs_approval po \<Longrightarrow> broker_released C (rg_spec rg) ?rt"
      using ap broker_take_approved_ok unfolding asks broker_released_def by (blast dest: check_approval_Inr)
    with direct rg po show ?thesis by blast
  qed
qed

section \<open>What an outcome claims\<close>

text \<open>
  When a call that is run at once claims to have had no effect. It does so for every exception
  of the handler but two: one in which the handler says itself that it cannot know, and a timeout. This
  includes an arbitrary error, about which nothing is known, although the handler was called.
\<close>

theorem direct_run_claims_no_effect_on_any_other_error:
  "had_no_effect (fst (run_handler C rg risk rt)) \<longleftrightarrow>
     \<not> (ca_race C = Cancel_first \<and> ca_cancel C \<noteq> None \<and> cs_cancellable (rg_spec rg)) \<and> ca_race C \<noteq> Time_first \<and>
     (case rg_handler rg EMPTY_IDENTITY (call_context C (cs_name (rg_spec rg))) (ca_args C) of
        Gives _ \<Rightarrow> False | Throws Ran_out_of_time \<Rightarrow> False | Throws (Ambiguous_execution _) \<Rightarrow> False
      | Throws _ \<Rightarrow> True)"
proof -
  have no_effect: "had_no_effect (fst (answer C name phase oc risk ev data reason detail human calls rt)) \<longleftrightarrow>
      oc \<in> set NO_EFFECT_OUTCOMES" for name phase oc risk ev data reason detail human calls rt
    by (simp add: answer_def had_no_effect_def)
  have "\<not> had_no_effect (fst (ambiguous C sp risk TIMEOUT reason human detail calls rt))"
    for sp reason human detail calls
    by (simp add: ambiguous_def no_effect NO_EFFECT_OUTCOMES_def)
  then show ?thesis
    by (simp add: run_handler_def Let_def no_effect NO_EFFECT_OUTCOMES_def
        split: call_end.splits call_error.splits)
qed

text \<open>
  A classifier is meant to be able to raise the class of a capability, never to lower it. What is put
  under its answer is the floor of the declared risk, not the class of the registry: an action that
  is very critical by birth is run without a question if its classifier calls it a normal write.
\<close>

theorem classifier_can_lower_the_class:
  "\<exists>rg c. rg_classify rg = Some (\<lambda>_ _. Gives (Some c)) \<and>
     base_class (cs_name (rg_spec rg)) (is_read_only (rg_spec rg)) = AC_VERY_CRITICAL \<and>
     classify_call rg ctx args = Gives c \<and> cl_class c = AC_NORMAL_WRITE \<and>
     MATRIX OC_TRUSTED_INTERACTIVE_APP (cl_class c) = EXECUTE_DIRECTLY"
proof -
  let ?c = "\<lparr>cl_class = AC_NORMAL_WRITE, cl_targets = [], cl_reason = []\<rparr>"
  let ?sp = "demo_codex\<lparr>cs_name := ''payment_send'', cs_risk := RISK_MUTATING\<rparr>"
  let ?rg = "\<lparr>rg_spec = ?sp, rg_handler = (\<lambda>_ _ _. Gives []), rg_describe = None,
    rg_classify = Some (\<lambda>_ _. Gives (Some ?c))\<rparr>"
  have "apply_floor AC_NORMAL_WRITE RISK_MUTATING = AC_NORMAL_WRITE" by code_simp
  moreover have "base_class ''payment_send'' b = AC_VERY_CRITICAL" for b
    by (simp add: base_class_def VERY_CRITICAL_BY_BIRTH_def)
  ultimately show ?thesis
    by (intro exI [of _ ?rg] exI [of _ ?c]) (simp add: classify_call_def demo_codex_def)
qed

section \<open>Concrete runs\<close>

definition demo_router :: router where
  "demo_router = \<lparr>rt_registered = [(''codex_task'', \<lparr>rg_spec = demo_codex,
       rg_handler = (\<lambda>_ _ _. Gives ''done''), rg_describe = None, rg_classify = None\<rparr>)],
     rt_approvals = None, rt_mobile = Some demo_confirmed, rt_principal = ''voice'', rt_preauth = None,
     rt_policy_mode = ''enforce'', rt_sequence = 0, rt_events = [], rt_outstanding = []\<rparr>"

definition demo_call :: call where
  "demo_call = \<lparr>ca_args = [(''task'', Jstr ''x'')],
     ca_trust = \<lparr>tc_origin = TL_USER_DIRECT, tc_user_authorized = True, tc_note = []\<rparr>,
     ca_provenance = [], ca_approval = ''a1'', ca_who = ''owner'', ca_origin = OC_ROOM_VOICE,
     ca_automation = [], ca_commanded = True, ca_cancel = None, ca_race = Work_first, ca_hex = ''01'',
     ca_request_hex = ''02'', ca_host = demo_host, ca_others = (\<lambda>i s. s), ca_turn = (\<lambda>i rt. rt)\<rparr>"

lemma demo_call_runs:
  "\<exists>res calls rt'. execute demo_call ''codex_task'' demo_router = Inr (res, calls, rt') \<and>
     cr_outcome res = SUCCESS \<and> map hc_args calls = [[(''task'', Jstr ''x'')]]"
proof -
  have "(case execute demo_call ''codex_task'' demo_router of Inl _ \<Rightarrow> None
      | Inr (res, calls, _) \<Rightarrow> Some (cr_outcome res, map hc_args calls))
      = Some (SUCCESS, [[(''task'', Jstr ''x'')]])"
    unfolding demo_router_def demo_call_def demo_host_def demo_codex_def demo_surroundings_def
      demo_confirmed_def demo_coordinator_def demo_outside_def demo_plane_def by code_simp
  then show ?thesis by (auto split: sum.splits prod.splits)
qed

lemma demo_call_setting:
  "rt_policy_mode demo_router = ''enforce''" "router_ok demo_call demo_router" "lawful_turns demo_call"
  "lawful (su_outside (ca_host demo_call)) (ca_others demo_call)"
proof -
  have host: "ca_host demo_call = demo_host" "su_outside demo_host = demo_surroundings"
    "su_token demo_host = ''g1''" by (simp_all add: demo_call_def demo_host_def)
  show "router_ok demo_call demo_router"
    using demo_confirmed_setting(1) demo_execution_setting(3,4) [folded demo_confirmed_setting(2)] demo_digests_own
    by (simp add: router_ok_def demo_router_def mobile_ok_def host)
  show "lawful (su_outside (ca_host demo_call)) (ca_others demo_call)"
    unfolding host using demo_execution_setting(1) by (simp add: demo_call_def)
qed (simp_all add: demo_router_def lawful_turns_def demo_call_def)

theorem nothing_runs_without_its_approval_witness:
  "\<exists>res h rt'. execute demo_call ''codex_task'' demo_router = Inr (res, [h], rt')"
proof -
  from demo_call_runs obtain res calls rt' where run: "execute demo_call ''codex_task'' demo_router = Inr (res, calls, rt')"
    and "calls \<noteq> []" by auto
  from nothing_runs_without_its_approval [OF this demo_call_setting] run show ?thesis by blast
qed

theorem handlers_run_only_with_authority_witness:
  "may_authorize (ca_trust demo_call) \<and> \<not> is_untrusted (tc_origin (ca_trust demo_call))"
proof -
  from demo_call_runs obtain res calls rt' where "execute demo_call ''codex_task'' demo_router = Inr (res, calls, rt')"
    and "calls \<noteq> []" by auto
  from handlers_run_only_with_authority [OF this] obtain rg where rg: "map_of (rt_registered demo_router) ''codex_task'' = Some rg"
    and or: "is_read_only (rg_spec rg) \<and> \<not> requires_approval (effective_risk (rg_spec rg) (ca_provenance demo_call)) \<or>
      may_authorize (ca_trust demo_call) \<and> \<not> is_untrusted (tc_origin (ca_trust demo_call))" by blast
  from rg have "rg_spec rg = demo_codex" by (auto simp: demo_router_def)
  moreover have "\<not> is_read_only demo_codex" by code_simp
  ultimately show ?thesis using or by simp
qed


end
