(* ===== verification/Proactive_Store.thy ===== *)
theory Proactive_Store
  imports Preauthorization
begin

text \<open>
  \<open>proactive/store.py\<close> on its four tables: background tasks, their runs, the inbox and the bound
  permissions, with the foreign keys of the schema and their cascades. The fence of the secret vault
  (\<open>secret_vault/firewall.py\<close>) in front of the two tables that take free text is modelled over the
  recogniser of \<open>memory/intent.py\<close>, a parameter. JSON columns hold the value they are read back as.
\<close>

section \<open>The fence\<close>

record recogniser =
  looks_like_secret :: "string \<Rightarrow> bool"
  credential_reason :: "string \<Rightarrow> string"

definition TRANSCRIPT_MARKER :: string where
  "TRANSCRIPT_MARKER = ''[Zugangsdaten '' @ [CHR 0xE2, CHR 0x80, CHR 0x94] @ '' nicht gespeichert]''"

definition is_credential :: "recogniser \<Rightarrow> string \<Rightarrow> bool" where
  "is_credential V t \<longleftrightarrow> t \<noteq> [] \<and> looks_like_secret V t"

definition refuse_if_credential :: "recogniser \<Rightarrow> string \<Rightarrow> unit result" where
  "refuse_if_credential V t =
     (if t = [] \<or> \<not> is_credential V t then Inr () else Inl (CredentialRefused (credential_reason V t)))"

definition redact_if_credential :: "recogniser \<Rightarrow> string \<Rightarrow> string" where
  "redact_if_credential V t = (if t = [] \<or> \<not> is_credential V t then t else TRANSCRIPT_MARKER)"

fun any_credential :: "recogniser \<Rightarrow> string list \<Rightarrow> string" where
  "any_credential V [] = []"
| "any_credential V (t # ts) = (if t \<noteq> [] \<and> is_credential V t then t else any_credential V ts)"

definition refuse_credentials :: "recogniser \<Rightarrow> string list \<Rightarrow> unit result" where
  "refuse_credentials V texts =
     (let found = any_credential V texts
      in if found \<noteq> [] then refuse_if_credential V found else Inr ())"

section \<open>Tables\<close>

definition ACTIVE :: string where "ACTIVE = ''active''"
definition PAUSED :: string where "PAUSED = ''paused''"
definition TASK_EXPIRED :: string where "TASK_EXPIRED = ''expired''"
definition COMPLETED :: string where "COMPLETED = ''completed''"

definition RUN_CLAIMED :: string where "RUN_CLAIMED = ''claimed''"
definition RUN_DONE :: string where "RUN_DONE = ''done''"
definition RUN_FAILED :: string where "RUN_FAILED = ''failed''"
definition RUN_NO_CHANGE :: string where "RUN_NO_CHANGE = ''no_change''"
definition RUN_APPROVAL_PENDING :: string where "RUN_APPROVAL_PENDING = ''approval_pending''"

record task =
  tk_id :: string
  tk_owner :: string
  tk_title :: string
  tk_created_at :: time
  tk_created_from :: string
  tk_schedule :: json_object
  tk_action :: json_object
  tk_state :: string
  tk_enabled :: bool
  tk_next_run :: "time option"
  tk_last_run :: "time option"
  tk_last_result :: "json_object option"
  tk_last_error :: string
  tk_failures :: nat
  tk_retry_after :: "time option"
  tk_conversation :: string

definition task_running :: "task \<Rightarrow> bool" where
  "task_running t \<longleftrightarrow> tk_enabled t \<and> tk_state t = ACTIVE"

text \<open>A row of \<open>tasks\<close> is a task and the time of its last write.\<close>

record task_row =
  tr_task :: task
  tr_updated_at :: time

definition tr_id :: "task_row \<Rightarrow> string" where
  "tr_id r = tk_id (tr_task r)"

record task_run =
  rn_id :: string
  rn_task :: string
  rn_occurrence :: time
  rn_claimed_at :: time
  rn_finished_at :: "time option"
  rn_state :: string
  rn_outcome :: "string option"
  rn_detail :: "string option"

record inbox_item =
  it_id :: string
  it_task :: "string option"
  it_run :: "string option"
  it_created_at :: time
  it_priority :: string
  it_summary :: string
  it_findings :: "string list"
  it_source :: string
  it_trust :: string
  it_fingerprint :: string
  it_read_at :: "time option"
  it_expires_at :: "time option"

record proactive_store =
  ps_tasks :: "task_row list"
  ps_runs :: "task_run list"
  ps_items :: "inbox_item list"
  ps_grants :: "preauthorization list"

section \<open>Tasks\<close>

definition has_task :: "string \<Rightarrow> proactive_store \<Rightarrow> bool" where
  "has_task tid s \<longleftrightarrow> tid \<in> tr_id ` set (ps_tasks s)"

text \<open>What \<open>ON CONFLICT DO UPDATE\<close> takes over: everything but the key, owner, origin and conversation.\<close>

definition overwrite_task :: "task \<Rightarrow> task \<Rightarrow> task" where
  "overwrite_task t old = t\<lparr>tk_owner := tk_owner old, tk_created_at := tk_created_at old,
     tk_created_from := tk_created_from old, tk_conversation := tk_conversation old\<rparr>"

definition stored_task :: "task \<Rightarrow> task" where
  "stored_task t = t\<lparr>tk_last_result := (if tk_last_result t = Some [] then None else tk_last_result t)\<rparr>"

definition upsert_task :: "time \<Rightarrow> task \<Rightarrow> proactive_store \<Rightarrow> proactive_store" where
  "upsert_task now t s = s\<lparr>ps_tasks :=
     (if has_task (tk_id t) s
      then update_where (\<lambda>r. tr_id r = tk_id t)
             (\<lambda>r. \<lparr>tr_task = overwrite_task (stored_task t) (tr_task r), tr_updated_at = now\<rparr>) (ps_tasks s)
      else ps_tasks s @ [\<lparr>tr_task = stored_task t, tr_updated_at = now\<rparr>])\<rparr>"

definition put_task :: "recogniser \<Rightarrow> python_text \<Rightarrow> time \<Rightarrow> task \<Rightarrow> proactive_store
    \<Rightarrow> unit result \<times> proactive_store" where
  "put_task V P now t s =
     (case refuse_credentials V [tk_title t, tk_created_from t,
             json_print '', '' '': '' (pt_float P) (Jdict (tk_action t))] of
        Inl e \<Rightarrow> (Inl e, s)
      | Inr _ \<Rightarrow> (Inr (), upsert_task now t s))"

definition get_task :: "string \<Rightarrow> proactive_store \<Rightarrow> task option" where
  "get_task tid s = map_option tr_task (by_key tr_id tid (ps_tasks s))"

text \<open>Rows that the \<open>ORDER BY\<close> does not tell apart come in the order of their insertion.\<close>

definition list_tasks :: "string \<Rightarrow> bool \<Rightarrow> proactive_store \<Rightarrow> task list" where
  "list_tasks owner only_active s =
     sort_key (\<lambda>t. case tk_next_run t of None \<Rightarrow> 9 * 10 ^ 18 | Some n \<Rightarrow> n)
       (sort_key tk_created_at
         (filter (\<lambda>t. (owner = [] \<or> tk_owner t = owner) \<and> (only_active \<longrightarrow> task_running t))
           (map tr_task (ps_tasks s))))"

definition task_due :: "time \<Rightarrow> task \<Rightarrow> bool" where
  "task_due now t \<longleftrightarrow> tk_enabled t \<and> tk_state t = ACTIVE \<and>
     (case tk_next_run t of None \<Rightarrow> False | Some n \<Rightarrow> n \<le> now) \<and>
     (case tk_retry_after t of None \<Rightarrow> True | Some r \<Rightarrow> r \<le> now)"

definition due_tasks :: "time \<Rightarrow> proactive_store \<Rightarrow> task list" where
  "due_tasks now s = sort_key (\<lambda>t. case tk_next_run t of None \<Rightarrow> 0 | Some n \<Rightarrow> n)
     (filter (task_due now) (map tr_task (ps_tasks s)))"

definition delete_task :: "string \<Rightarrow> proactive_store \<Rightarrow> bool \<times> proactive_store" where
  "delete_task tid s = (0 < rowcount (\<lambda>r. tr_id r = tid) (ps_tasks s),
     s\<lparr>ps_tasks := filter (\<lambda>r. tr_id r \<noteq> tid) (ps_tasks s),
       ps_runs := filter (\<lambda>r. rn_task r \<noteq> tid) (ps_runs s),
       ps_grants := filter (\<lambda>g. pa_automation g \<noteq> tid) (ps_grants s)\<rparr>)"

section \<open>Permissions\<close>

definition put_preauth :: "preauthorization \<Rightarrow> proactive_store \<Rightarrow> unit result \<times> proactive_store" where
  "put_preauth g s =
     (if \<not> has_task (pa_automation g) s then (Inl IntegrityError, s)
      else (Inr (), s\<lparr>ps_grants :=
        (if pa_automation g \<in> pa_automation ` set (ps_grants s)
         then update_where (\<lambda>r. pa_automation r = pa_automation g) (\<lambda>_. g) (ps_grants s)
         else ps_grants s @ [g])\<rparr>))"

definition get_preauth :: "string \<Rightarrow> proactive_store \<Rightarrow> preauthorization option" where
  "get_preauth aid s = by_key pa_automation aid (ps_grants s)"

definition list_preauth :: "proactive_store \<Rightarrow> preauthorization list" where
  "list_preauth s = sort_key pa_created_at (ps_grants s)"

definition revoke_preauth :: "time \<Rightarrow> string \<Rightarrow> string \<Rightarrow> proactive_store \<Rightarrow> bool \<times> proactive_store" where
  "revoke_preauth now aid reason s =
     (let hit = (\<lambda>g. pa_automation g = aid \<and> pa_revoked_at g = None)
      in (0 < rowcount hit (ps_grants s),
          s\<lparr>ps_grants := update_where hit (\<lambda>g. g\<lparr>pa_enabled := False, pa_revoked_at := Some now,
              pa_revoked_reason := take_points 200 reason\<rparr>) (ps_grants s)\<rparr>))"

section \<open>Runs\<close>

text \<open>
  \<open>INSERT INTO task_runs\<close>: refused by the primary key, by \<open>UNIQUE(task_id, occurrence)\<close> and by the
  foreign key; \<open>_claim_run\<close> answers \<open>False\<close> to all three.
\<close>

definition occasion_taken :: "string \<Rightarrow> time \<Rightarrow> proactive_store \<Rightarrow> bool" where
  "occasion_taken tid occ s \<longleftrightarrow> (\<exists>r\<in>set (ps_runs s). rn_task r = tid \<and> rn_occurrence r = occ)"

definition claim_run :: "time \<Rightarrow> string \<Rightarrow> time \<Rightarrow> string \<Rightarrow> proactive_store \<Rightarrow> bool \<times> proactive_store" where
  "claim_run now tid occ run_id s =
     (if run_id \<in> rn_id ` set (ps_runs s) \<or> occasion_taken tid occ s \<or> \<not> has_task tid s
      then (False, s)
      else (True, s\<lparr>ps_runs := ps_runs s @ [\<lparr>rn_id = run_id, rn_task = tid, rn_occurrence = occ,
              rn_claimed_at = now, rn_finished_at = None, rn_state = RUN_CLAIMED,
              rn_outcome = None, rn_detail = None\<rparr>]\<rparr>))"

definition finish_run :: "time \<Rightarrow> string \<Rightarrow> string \<Rightarrow> string \<Rightarrow> string \<Rightarrow> proactive_store
    \<Rightarrow> proactive_store" where
  "finish_run now run_id st outcome detail s = s\<lparr>ps_runs :=
     update_where (\<lambda>r. rn_id r = run_id) (\<lambda>r. r\<lparr>rn_state := st, rn_outcome := Some outcome,
       rn_detail := Some (take_points 500 detail), rn_finished_at := Some now\<rparr>) (ps_runs s)\<rparr>"

definition unfinished_runs :: "proactive_store \<Rightarrow> task_run list" where
  "unfinished_runs s = sort_key rn_claimed_at (filter (\<lambda>r. rn_finished_at r = None) (ps_runs s))"

definition runs_for :: "string \<Rightarrow> nat \<Rightarrow> proactive_store \<Rightarrow> task_run list" where
  "runs_for tid limit s =
     take limit (sort_key (\<lambda>r. - rn_occurrence r) (filter (\<lambda>r. rn_task r = tid) (ps_runs s)))"

section \<open>The inbox\<close>

definition same_finding :: "inbox_item \<Rightarrow> inbox_item \<Rightarrow> bool" where
  "same_finding a b \<longleftrightarrow> it_task a \<noteq> None \<and> it_task a = it_task b \<and> it_fingerprint a = it_fingerprint b"

definition add_item :: "recogniser \<Rightarrow> inbox_item \<Rightarrow> proactive_store \<Rightarrow> bool result \<times> proactive_store" where
  "add_item V it s =
     (case refuse_credentials V (it_summary it # it_findings it) of
        Inl e \<Rightarrow> (Inl e, s)
      | Inr _ \<Rightarrow>
          if it_id it \<in> it_id ` set (ps_items s) \<or> (\<exists>r\<in>set (ps_items s). same_finding it r)
          then (Inr False, s)
          else (Inr True, s\<lparr>ps_items := ps_items s @
                 [it\<lparr>it_summary := take_points 1200 (it_summary it), it_read_at := None\<rparr>]\<rparr>))"

definition item_unread :: "time \<Rightarrow> inbox_item \<Rightarrow> bool" where
  "item_unread now it \<longleftrightarrow> it_read_at it = None \<and>
     (case it_expires_at it of None \<Rightarrow> True | Some e \<Rightarrow> e > now)"

definition priority_rank :: "string \<Rightarrow> nat" where
  "priority_rank p = (if p = ''wichtig'' then 0 else if p = ''normal'' then 1 else 2)"

definition unread :: "time \<Rightarrow> nat \<Rightarrow> proactive_store \<Rightarrow> inbox_item list" where
  "unread now limit s = take limit (sort_key (\<lambda>it. priority_rank (it_priority it))
     (sort_key (\<lambda>it. - it_created_at it) (filter (item_unread now) (ps_items s))))"

definition get_item :: "string \<Rightarrow> proactive_store \<Rightarrow> inbox_item option" where
  "get_item nid s = by_key it_id nid (ps_items s)"

definition mark_read :: "time \<Rightarrow> string \<Rightarrow> proactive_store \<Rightarrow> bool \<times> proactive_store" where
  "mark_read now nid s =
     (let hit = (\<lambda>it. it_id it = nid \<and> it_read_at it = None)
      in (0 < rowcount hit (ps_items s),
          s\<lparr>ps_items := update_where hit (\<lambda>it. it\<lparr>it_read_at := Some now\<rparr>) (ps_items s)\<rparr>))"

definition unread_count :: "time \<Rightarrow> proactive_store \<Rightarrow> nat" where
  "unread_count now s = rowcount (item_unread now) (ps_items s)"

definition item_stale :: "time \<Rightarrow> time \<Rightarrow> inbox_item \<Rightarrow> bool" where
  "item_stale now limit it \<longleftrightarrow>
     (case it_read_at it of None \<Rightarrow> False | Some r \<Rightarrow> r < limit) \<or>
     (case it_expires_at it of None \<Rightarrow> False | Some e \<Rightarrow> e < now)"

definition prune :: "time \<Rightarrow> nat \<Rightarrow> time \<Rightarrow> proactive_store \<Rightarrow> nat \<times> proactive_store" where
  "prune now keep older_than s =
     (let limit = (if older_than = 0 then now - 30 * 86400 else older_than);
          fresh = filter (\<lambda>it. \<not> item_stale now limit it) (ps_items s);
          overflow = map it_id (drop keep (sort_key (\<lambda>it. - it_created_at it) fresh));
          kept = filter (\<lambda>it. it_id it \<notin> set overflow) fresh
      in (length (ps_items s) - length kept, s\<lparr>ps_items := kept\<rparr>))"

section \<open>Permissions of an automation\<close>

text \<open>
  \<open>AutomationPreauthorizations\<close>: the checks the router asks for. Between its reads of the store other
  tasks of the process run: \<open>others i\<close> is what they do to the store at the i-th await.
\<close>

definition automation_verify :: "(string \<Rightarrow> string) \<Rightarrow> python_text
    \<Rightarrow> (nat \<Rightarrow> proactive_store \<Rightarrow> proactive_store) \<Rightarrow> string \<Rightarrow> string \<Rightarrow> action_class
    \<Rightarrow> string list \<Rightarrow> json_object \<Rightarrow> proactive_store \<Rightarrow> string result \<times> proactive_store" where
  "automation_verify H P others aid capability cls targets args s =
     (case get_task aid s of
        None \<Rightarrow> (Inl (PreauthorizationError ''automation_unknown''), s)
      | Some t \<Rightarrow>
          if \<not> task_running t then (Inl (PreauthorizationError ''automation_disabled''), s)
          else let s1 = others 0 s
          in (case schedule_binding P (tk_schedule t) of
                Inl e \<Rightarrow> Inl e
              | Inr b \<Rightarrow> verify_preauth H P (get_preauth aid s1) aid capability cls targets args b, s1))"

definition mint_for_task :: "(string \<Rightarrow> string) \<Rightarrow> python_text
    \<Rightarrow> (nat \<Rightarrow> proactive_store \<Rightarrow> proactive_store) \<Rightarrow> time \<Rightarrow> task \<Rightarrow> string \<Rightarrow> action_class
    \<Rightarrow> string list \<Rightarrow> json_object \<Rightarrow> string \<Rightarrow> string \<Rightarrow> proactive_store
    \<Rightarrow> preauthorization result \<times> proactive_store" where
  "mint_for_task H P others now t capability cls targets args origin who s =
     (let revision = (case get_preauth (tk_id t) s of None \<Rightarrow> 1 | Some g \<Rightarrow> pa_revision g + 1);
          minted = (case schedule_binding P (tk_schedule t) of
             Inl e \<Rightarrow> Inl e
           | Inr b \<Rightarrow> mint H P now (tk_id t) capability cls targets args b origin who revision);
          s1 = others 0 s
      in case minted of
           Inl e \<Rightarrow> (Inl e, s)
         | Inr g \<Rightarrow> (case put_preauth g s1 of (Inl e, s2) \<Rightarrow> (Inl e, s2) | (Inr _, s2) \<Rightarrow> (Inr g, s2)))"

end
