(* ===== verification/Proactive_Register.thy ===== *)
theory Proactive_Register
  imports Proactive_Store
begin

text \<open>
  What the store of the background tasks promises over any sequence of its operations: an occasion
  is claimed once, no permission or run outlives its task, a revoked permission stays revoked, a
  finding is reported once. The claims refine an abstract register of occasions.
\<close>

section \<open>The operations as steps\<close>

datatype proactive_op =
    Put_task time task
  | Delete_task string
  | Put_grant preauthorization
  | Revoke_grant time string string
  | Claim time string time string
  | Finish time string string string string
  | Add_item inbox_item
  | Mark_read time string
  | Prune time nat time

fun apply_op :: "recogniser \<Rightarrow> python_text \<Rightarrow> proactive_op \<Rightarrow> proactive_store \<Rightarrow> proactive_store" where
  "apply_op V P (Put_task now t) s = snd (put_task V P now t s)"
| "apply_op V P (Delete_task tid) s = snd (delete_task tid s)"
| "apply_op V P (Put_grant g) s = snd (put_preauth g s)"
| "apply_op V P (Revoke_grant now aid reason) s = snd (revoke_preauth now aid reason s)"
| "apply_op V P (Claim now tid occ rid) s = snd (claim_run now tid occ rid s)"
| "apply_op V P (Finish now rid st out det) s = finish_run now rid st out det s"
| "apply_op V P (Add_item it) s = snd (add_item V it s)"
| "apply_op V P (Mark_read now nid) s = snd (mark_read now nid s)"
| "apply_op V P (Prune now keep old) s = snd (prune now keep old s)"

text \<open>One step of any operation that \<open>allowed\<close> lets through.\<close>

definition store_moves :: "recogniser \<Rightarrow> python_text \<Rightarrow> (proactive_op \<Rightarrow> bool)
    \<Rightarrow> proactive_store \<Rightarrow> proactive_store \<Rightarrow> bool" where
  "store_moves V P allowed s t \<longleftrightarrow> (\<exists>op1. allowed op1 \<and> t = apply_op V P op1 s)"

lemma apply_ops_reaches:
  "\<forall>op1\<in>set ops. allowed op1 \<Longrightarrow> reaches (store_moves V P allowed) s (fold (apply_op V P) ops s)"
proof (induction ops arbitrary: s)
  case (Cons op1 ops)
  then have "store_moves V P allowed s (apply_op V P op1 s)" by (auto simp: store_moves_def)
  with Cons show ?case by (auto intro: reaches_trans [OF _ reaches_one])
qed (auto intro: reaches.start)

section \<open>What each operation does to each table\<close>

named_theorems proactive_simps \<open>the tables after an operation\<close>

lemma by_key_filter_key:
  "by_key key k (filter (\<lambda>r. key r \<noteq> d) t) = (if k = d then None else by_key key k t)"
  by (induction t) (auto simp: by_key_Cons)

lemma keys_update_if: "(\<And>r. p r \<Longrightarrow> key (f r) = key r) \<Longrightarrow> map key (update_where p f t) = map key t"
  by (induction t) (auto simp: update_where_def)

lemma tr_id_upsert [proactive_simps]:
  "tr_id ` set (ps_tasks (upsert_task now t s)) = insert (tk_id t) (tr_id ` set (ps_tasks s))"
proof -
  let ?f = "\<lambda>r. \<lparr>tr_task = overwrite_task (stored_task t) (tr_task r), tr_updated_at = now\<rparr>"
  have "map tr_id (update_where (\<lambda>r. tr_id r = tk_id t) ?f (ps_tasks s)) = map tr_id (ps_tasks s)"
    by (rule keys_update_if) (simp add: tr_id_def overwrite_task_def stored_task_def)
  then have "tr_id ` set (update_where (\<lambda>r. tr_id r = tk_id t) ?f (ps_tasks s)) = tr_id ` set (ps_tasks s)"
    by (metis list.set_map)
  then show ?thesis
    by (auto simp: upsert_task_def has_task_def tr_id_def stored_task_def)
qed

lemma upsert_frame [proactive_simps]:
  "ps_runs (upsert_task now t s) = ps_runs s" "ps_items (upsert_task now t s) = ps_items s"
  "ps_grants (upsert_task now t s) = ps_grants s"
  by (simp_all add: upsert_task_def)

lemma put_task_cases: "snd (put_task V P now t s) = s \<or> snd (put_task V P now t s) = upsert_task now t s"
  by (auto simp: put_task_def split: sum.splits)

lemma grants_put [proactive_simps]:
  "get_preauth aid (snd (put_preauth g s)) =
     (if aid = pa_automation g \<and> has_task aid s then Some g else get_preauth aid s)"
proof (cases "pa_automation g \<in> pa_automation ` set (ps_grants s)")
  case True
  then have "by_key pa_automation (pa_automation g) (ps_grants s) \<noteq> None" by (simp add: by_key_None_iff)
  with True show ?thesis
    by (cases "by_key pa_automation aid (ps_grants s)")
      (auto simp: put_preauth_def get_preauth_def by_key_update_if dest: by_key_SomeD)
next
  case False
  then have "by_key pa_automation (pa_automation g) (ps_grants s) = None" by (simp add: by_key_None_iff)
  with False show ?thesis
    by (auto simp: put_preauth_def get_preauth_def by_key_append by_key_Cons split: option.splits)
qed

lemma grants_revoke [proactive_simps]:
  "get_preauth aid (snd (revoke_preauth now d reason s)) =
     map_option (\<lambda>g. if pa_automation g = d \<and> pa_revoked_at g = None
       then g\<lparr>pa_enabled := False, pa_revoked_at := Some now,
              pa_revoked_reason := take_points 200 reason\<rparr> else g) (get_preauth aid s)"
  by (simp add: revoke_preauth_def get_preauth_def Let_def by_key_update)

lemma grants_delete [proactive_simps]:
  "get_preauth aid (snd (delete_task d s)) = (if aid = d then None else get_preauth aid s)"
  by (simp add: delete_task_def get_preauth_def by_key_filter_key)

lemma grants_frame [proactive_simps]:
  "ps_grants (snd (put_task V P now t s)) = ps_grants s"
  "ps_grants (snd (claim_run now tid occ rid s)) = ps_grants s"
  "ps_grants (finish_run now rid st out det s) = ps_grants s"
  "ps_grants (snd (add_item V it s)) = ps_grants s"
  "ps_grants (snd (mark_read now nid s)) = ps_grants s"
  "ps_grants (snd (prune now keep old s)) = ps_grants s"
  by (auto simp: put_task_def claim_run_def finish_run_def add_item_def mark_read_def prune_def
      Let_def proactive_simps split: sum.splits)

lemma tasks_frame [proactive_simps]:
  "ps_tasks (snd (put_preauth g s)) = ps_tasks s"
  "ps_tasks (snd (revoke_preauth now aid reason s)) = ps_tasks s"
  "ps_tasks (snd (claim_run now tid occ rid s)) = ps_tasks s"
  "ps_tasks (finish_run now rid st out det s) = ps_tasks s"
  "ps_tasks (snd (add_item V it s)) = ps_tasks s"
  "ps_tasks (snd (mark_read now nid s)) = ps_tasks s"
  "ps_tasks (snd (prune now keep old s)) = ps_tasks s"
  by (auto simp: put_preauth_def revoke_preauth_def claim_run_def finish_run_def add_item_def
      mark_read_def prune_def Let_def split: sum.splits)

lemma runs_frame [proactive_simps]:
  "ps_runs (snd (put_task V P now t s)) = ps_runs s"
  "ps_runs (snd (put_preauth g s)) = ps_runs s"
  "ps_runs (snd (revoke_preauth now aid reason s)) = ps_runs s"
  "ps_runs (snd (add_item V it s)) = ps_runs s"
  "ps_runs (snd (mark_read now nid s)) = ps_runs s"
  "ps_runs (snd (prune now keep old s)) = ps_runs s"
  by (auto simp: put_task_def put_preauth_def revoke_preauth_def add_item_def mark_read_def prune_def
      Let_def proactive_simps split: sum.splits)

lemma items_frame [proactive_simps]:
  "ps_items (snd (put_task V P now t s)) = ps_items s"
  "ps_items (snd (delete_task tid s)) = ps_items s"
  "ps_items (snd (put_preauth g s)) = ps_items s"
  "ps_items (snd (revoke_preauth now aid reason s)) = ps_items s"
  "ps_items (snd (claim_run now tid occ rid s)) = ps_items s"
  "ps_items (finish_run now rid st out det s) = ps_items s"
  by (auto simp: put_task_def put_preauth_def delete_task_def revoke_preauth_def claim_run_def
      finish_run_def Let_def proactive_simps split: sum.splits)

text \<open>What identifies a run never changes; a run goes only with its task.\<close>

definition run_key :: "task_run \<Rightarrow> string \<times> string \<times> time" where
  "run_key r = (rn_id r, rn_task r, rn_occurrence r)"

lemma run_keys_finish [proactive_simps]:
  "map run_key (ps_runs (finish_run now rid st out det s)) = map run_key (ps_runs s)"
  by (simp add: finish_run_def keys_update run_key_def)

lemma run_keys_delete [proactive_simps]:
  "map run_key (ps_runs (snd (delete_task d s))) = filter (\<lambda>k. fst (snd k) \<noteq> d) (map run_key (ps_runs s))"
  by (simp add: delete_task_def filter_map comp_def run_key_def)

lemma run_keys_claim [proactive_simps]:
  "map run_key (ps_runs (snd (claim_run now tid occ rid s))) =
     map run_key (ps_runs s) @ (if fst (claim_run now tid occ rid s) then [(rid, tid, occ)] else [])"
  by (simp add: claim_run_def run_key_def)

lemma occasion_taken_keys:
  "occasion_taken tid occ s \<longleftrightarrow> (\<exists>rid. (rid, tid, occ) \<in> set (map run_key (ps_runs s)))"
  by (auto simp: occasion_taken_def run_key_def image_iff)

section \<open>An occasion is claimed once\<close>

definition keeps_task :: "string \<Rightarrow> proactive_op \<Rightarrow> bool" where
  "keeps_task tid op1 \<longleftrightarrow> op1 \<noteq> Delete_task tid"

lemma taken_stays:
  assumes "store_moves V P (keeps_task tid) s t" and "occasion_taken tid occ s"
  shows "occasion_taken tid occ t"
proof -
  from assms(1) obtain op1 where op1: "keeps_task tid op1" "t = apply_op V P op1 s"
    by (auto simp: store_moves_def)
  with assms(2) show ?thesis unfolding occasion_taken_keys
    by (cases op1) (auto simp: proactive_simps keeps_task_def simp del: set_map list.set_map)
qed

interpretation claimed: monotone_system "store_moves V P (keeps_task tid)" "\<lambda>_. True"
  "\<lambda>s t. \<forall>occ. occasion_taken tid occ s \<longrightarrow> occasion_taken tid occ t"
  by unfold_locales (auto intro: taken_stays)

lemma claim_takes: "claim_run now tid occ rid s = (True, s1) \<Longrightarrow> occasion_taken tid occ s1"
  by (auto simp: claim_run_def occasion_taken_def split: if_splits)

text \<open>
  Once an occasion of a task is claimed, no later claim of it is granted, under whatever run
  identifier, by whichever process and after whatever restart, as long as the task is not deleted.
\<close>

theorem occasion_is_claimed_once:
  assumes "claim_run now tid occ rid s = (True, s1)"
    and "reaches (store_moves V P (keeps_task tid)) s1 s2"
  shows "\<not> fst (claim_run now' tid occ rid' s2)"
proof -
  have "occasion_taken tid occ s2"
    using claimed.reaches_mono [OF assms(2)] claim_takes [OF assms(1)] by blast
  then show ?thesis by (simp add: claim_run_def)
qed

definition empty_proactive :: proactive_store where
  "empty_proactive = \<lparr>ps_tasks = [], ps_runs = [], ps_items = [], ps_grants = []\<rparr>"

definition demo_task :: task where
  "demo_task = \<lparr>tk_id = ''task-1'', tk_owner = ''owner'', tk_title = ''Aussenlicht'', tk_created_at = 1000,
     tk_created_from = ''jeden Abend'', tk_schedule = demo_plan, tk_action = [], tk_state = ACTIVE,
     tk_enabled = True, tk_next_run = Some 2000, tk_last_run = None, tk_last_result = None,
     tk_last_error = [], tk_failures = 0, tk_retry_after = None, tk_conversation = []\<rparr>"

definition no_secrets :: recogniser where
  "no_secrets = \<lparr>looks_like_secret = (\<lambda>_. False), credential_reason = (\<lambda>_. [])\<rparr>"

definition demo_proactive :: proactive_store where
  "demo_proactive = snd (put_task no_secrets demo_text 1000 demo_task empty_proactive)"

definition demo_claimed :: proactive_store where
  "demo_claimed = snd (claim_run 2001 ''task-1'' 2000 ''br-1'' demo_proactive)"

lemma demo_claim_granted: "claim_run 2001 ''task-1'' 2000 ''br-1'' demo_proactive = (True, demo_claimed)"
proof -
  have "fst (claim_run 2001 ''task-1'' 2000 ''br-1'' demo_proactive)" by code_simp
  then show ?thesis unfolding demo_claimed_def by (metis (full_types) prod.collapse)
qed

theorem occasion_is_claimed_once_witness:
  "\<not> fst (claim_run 5000 ''task-1'' 2000 ''br-2''
     (fold (apply_op no_secrets demo_text) [Finish 2002 ''br-1'' RUN_FAILED ''timeout'' [],
        Put_task 2003 (demo_task\<lparr>tk_retry_after := Some 2303\<rparr>)] demo_claimed))"
  by (rule occasion_is_claimed_once [OF demo_claim_granted, where V = no_secrets and P = demo_text])
    (rule apply_ops_reaches, simp add: keeps_task_def)

section \<open>Nothing outlives its task\<close>

definition proactive_inv :: "proactive_store \<Rightarrow> bool" where
  "proactive_inv s \<longleftrightarrow>
     distinct (map pa_automation (ps_grants s)) \<and> distinct (map rn_id (ps_runs s)) \<and>
     distinct (map (\<lambda>r. (rn_task r, rn_occurrence r)) (ps_runs s)) \<and>
     distinct (map it_id (ps_items s)) \<and> sorted_wrt (\<lambda>a b. \<not> same_finding a b) (ps_items s) \<and>
     pa_automation ` set (ps_grants s) \<subseteq> tr_id ` set (ps_tasks s) \<and>
     rn_task ` set (ps_runs s) \<subseteq> tr_id ` set (ps_tasks s)"

lemma grant_keys [proactive_simps]:
  "map pa_automation (ps_grants (snd (revoke_preauth now aid reason s))) = map pa_automation (ps_grants s)"
  "map pa_automation (ps_grants (snd (put_preauth g s))) = map pa_automation (ps_grants s) @
     (if has_task (pa_automation g) s \<and> pa_automation g \<notin> pa_automation ` set (ps_grants s)
      then [pa_automation g] else [])"
  by (auto simp: revoke_preauth_def put_preauth_def Let_def keys_update keys_update_if)

lemma run_projections:
  "map rn_id runs = map fst (map run_key runs)"
  "map (\<lambda>r. (rn_task r, rn_occurrence r)) runs = map snd (map run_key runs)"
  "rn_task ` set runs = (fst \<circ> snd) ` set (map run_key runs)"
  by (auto simp: run_key_def image_iff)

lemma inv_items_add:
  assumes "distinct (map it_id (ps_items s))" "sorted_wrt (\<lambda>a b. \<not> same_finding a b) (ps_items s)"
  shows "distinct (map it_id (ps_items (snd (add_item V it s)))) \<and>
     sorted_wrt (\<lambda>a b. \<not> same_finding a b) (ps_items (snd (add_item V it s)))"
  using assms by (auto simp: add_item_def sorted_wrt_append same_finding_def split: sum.splits)

lemma inv_items_mark:
  assumes "distinct (map it_id (ps_items s))" "sorted_wrt (\<lambda>a b. \<not> same_finding a b) (ps_items s)"
  shows "distinct (map it_id (ps_items (snd (mark_read now nid s)))) \<and>
     sorted_wrt (\<lambda>a b. \<not> same_finding a b) (ps_items (snd (mark_read now nid s)))"
proof -
  let ?f = "\<lambda>it. if it_id it = nid \<and> it_read_at it = None then it\<lparr>it_read_at := Some now\<rparr> else it"
  have marked: "ps_items (snd (mark_read now nid s)) = map ?f (ps_items s)"
    by (simp add: mark_read_def Let_def update_where_def)
  have "same_finding (?f a) (?f b) = same_finding a b" for a b by (simp add: same_finding_def)
  then have "sorted_wrt (\<lambda>a b. \<not> same_finding a b) (map ?f (ps_items s))"
    using assms(2) unfolding sorted_wrt_map by presburger
  moreover have "map it_id (map ?f (ps_items s)) = map it_id (ps_items s)" by simp
  ultimately show ?thesis using assms(1) unfolding marked by metis
qed

lemma proactive_step_inv:
  assumes "proactive_inv s"
  shows "proactive_inv (apply_op V P op1 s)"
proof (cases op1)
  case (Put_task now t)
  then show ?thesis using assms put_task_cases [of V P now t s]
    by (auto simp: proactive_inv_def proactive_simps)
next
  case (Delete_task tid)
  then show ?thesis using assms
    by (auto simp: proactive_inv_def delete_task_def distinct_map_filter)
next
  case (Put_grant g)
  then show ?thesis using assms
    by (auto simp: proactive_inv_def proactive_simps has_task_def simp flip: set_map)
next
  case (Revoke_grant now aid reason)
  then show ?thesis using assms by (simp add: proactive_inv_def proactive_simps flip: set_map)
next
  case (Claim now tid occ rid)
  then show ?thesis using assms
    by (auto simp: proactive_inv_def claim_run_def has_task_def occasion_taken_def)
next
  case (Finish now rid st out det)
  then show ?thesis using assms unfolding proactive_inv_def run_projections
    by (simp add: proactive_simps del: map_map list.map_comp)
next
  case (Add_item it)
  then show ?thesis using assms inv_items_add [of s V it] by (simp add: proactive_inv_def proactive_simps)
next
  case (Mark_read now nid)
  then show ?thesis using assms inv_items_mark [of s now nid]
    by (simp add: proactive_inv_def proactive_simps)
next
  case (Prune now keep old)
  then show ?thesis using assms
    by (simp add: proactive_inv_def proactive_simps)
      (simp add: prune_def Let_def distinct_map_filter sorted_wrt_filter)
qed

interpretation proactive: invariant_system "store_moves V P allowed" proactive_inv
  by unfold_locales (auto simp: store_moves_def intro: proactive_step_inv)

text \<open>
  C34: in every state the store can get into, each run and each permission belongs to a task that
  exists, an automation has at most one permission, an occasion at most one run, and no finding of a
  task is in the inbox twice.
\<close>

theorem nothing_outlives_its_task:
  assumes "reaches (store_moves V P (\<lambda>_. True)) empty_proactive s"
  shows "(\<forall>g\<in>set (ps_grants s). get_task (pa_automation g) s \<noteq> None) \<and>
     (\<forall>r\<in>set (ps_runs s). get_task (rn_task r) s \<noteq> None) \<and>
     distinct (map pa_automation (ps_grants s)) \<and>
     distinct (map (\<lambda>r. (rn_task r, rn_occurrence r)) (ps_runs s)) \<and>
     sorted_wrt (\<lambda>a b. \<not> same_finding a b) (ps_items s)"
proof -
  have "proactive_inv empty_proactive" by (simp add: proactive_inv_def empty_proactive_def)
  from proactive.reaches_keeps [OF assms this]
  show ?thesis by (auto simp: proactive_inv_def get_task_def by_key_None_iff)
qed

theorem nothing_outlives_its_task_witness:
  "get_task ''task-1'' demo_claimed \<noteq> None \<and> distinct (map pa_automation (ps_grants demo_claimed))"
proof -
  have "\<exists>r\<in>set (ps_runs demo_claimed). rn_task r = ''task-1''" by code_simp
  have "demo_claimed = fold (apply_op no_secrets demo_text)
      [Put_task 1000 demo_task, Claim 2001 ''task-1'' 2000 ''br-1''] empty_proactive"
    by (simp add: demo_claimed_def demo_proactive_def)
  moreover have "reaches (store_moves no_secrets demo_text (\<lambda>_. True)) empty_proactive
      (fold (apply_op no_secrets demo_text)
      [Put_task 1000 demo_task, Claim 2001 ''task-1'' 2000 ''br-1''] empty_proactive)"
    by (rule apply_ops_reaches) simp
  ultimately have "reaches (store_moves no_secrets demo_text (\<lambda>_. True)) empty_proactive demo_claimed"
    by (simp only:)
  note all = nothing_outlives_its_task [OF this]
  with \<open>\<exists>r\<in>set (ps_runs demo_claimed). rn_task r = ''task-1''\<close> show ?thesis by metis
qed

section \<open>A withdrawn permission stays withdrawn\<close>

definition mints_no_grant :: "string \<Rightarrow> proactive_op \<Rightarrow> bool" where
  "mints_no_grant aid op1 \<longleftrightarrow> (case op1 of Put_grant g \<Rightarrow> pa_automation g \<noteq> aid | _ \<Rightarrow> True)"

definition no_live_grant :: "string \<Rightarrow> proactive_store \<Rightarrow> bool" where
  "no_live_grant aid s \<longleftrightarrow> (case get_preauth aid s of None \<Rightarrow> True | Some g \<Rightarrow> \<not> pa_active g)"

lemma no_live_grant_frame:
  "ps_grants t = ps_grants s \<Longrightarrow> no_live_grant aid t = no_live_grant aid s"
  by (simp add: no_live_grant_def get_preauth_def)

lemma no_live_grant_step:
  assumes "no_live_grant aid s" and "store_moves V P (mints_no_grant aid) s t"
  shows "no_live_grant aid t"
proof -
  from assms(2) obtain op1 where op1: "mints_no_grant aid op1" "t = apply_op V P op1 s"
    by (auto simp: store_moves_def)
  show ?thesis
  proof (cases op1)
    case (Put_grant g)
    then show ?thesis using op1 assms(1)
      by (simp add: mints_no_grant_def no_live_grant_def proactive_simps)
  next
    case (Revoke_grant now d reason)
    then show ?thesis using op1 assms(1)
      by (auto simp: no_live_grant_def proactive_simps pa_active_def split: option.splits)
  next
    case (Delete_task d)
    then show ?thesis using op1 assms(1) by (simp add: no_live_grant_def proactive_simps)
  qed (use op1 assms(1) in \<open>simp_all add: grants_frame [THEN no_live_grant_frame]\<close>)
qed

interpretation withdrawn: invariant_system "store_moves V P (mints_no_grant aid)" "no_live_grant aid"
  by unfold_locales (rule no_live_grant_step)

lemma withdrawn_at_once:
  "no_live_grant aid (snd (revoke_preauth now aid reason s))"
  "no_live_grant aid (snd (delete_task aid s))"
proof -
  have "get_preauth aid s = Some g \<Longrightarrow> pa_automation g = aid" for g
    by (auto simp: get_preauth_def dest: by_key_SomeD)
  then show "no_live_grant aid (snd (revoke_preauth now aid reason s))"
    by (cases "get_preauth aid s") (auto simp: no_live_grant_def proactive_simps pa_active_def)
  show "no_live_grant aid (snd (delete_task aid s))"
    by (simp add: no_live_grant_def proactive_simps)
qed

text \<open>
  C35: once a permission is revoked or its automation deleted, the check the router asks for accepts
  it for no effect whatsoever, whatever else happens to the store before or during the check, until
  a new permission is minted for that automation; a task that comes back under the same identifier
  does not bring it back.
\<close>

theorem withdrawn_permission_never_returns:
  assumes "s1 = snd (revoke_preauth now aid reason s) \<or> s1 = snd (delete_task aid s)"
    and "reaches (store_moves V P (mints_no_grant aid)) s1 s2"
    and "reaches (store_moves V P (mints_no_grant aid)) s2 (others 0 s2)"
  shows "\<nexists>pid. fst (automation_verify H P others aid capability cls targets args s2) = Inr pid"
proof -
  have "no_live_grant aid s1" using assms(1) withdrawn_at_once by metis
  then have "no_live_grant aid (others 0 s2)"
    using withdrawn.reaches_keeps [OF reaches_trans [OF assms(3,2)]] by blast
  then show ?thesis
    by (auto simp: automation_verify_def verify_preauth_def no_live_grant_def Let_def
        split: option.splits sum.splits if_splits)
qed

definition demo_granted :: proactive_store where
  "demo_granted = snd (put_preauth demo_grant demo_proactive)"

theorem withdrawn_permission_never_returns_witness:
  "\<nexists>pid. fst (automation_verify (\<lambda>_. ''h'') demo_text (\<lambda>_ s. s) ''task-1'' ''ha_turn_on'' AC_HA_NORMAL
      [''light.porch'', ''light.door''] demo_arguments
      (fold (apply_op no_secrets demo_text) [Put_task 3000 demo_task]
         (snd (delete_task ''task-1'' demo_granted)))) = Inr pid"
  by (rule withdrawn_permission_never_returns [where V = no_secrets and s = demo_granted])
    (rule disjI2, rule refl, rule apply_ops_reaches, simp add: mints_no_grant_def, rule reaches.start)

section \<open>An abstract register of occasions\<close>

text \<open>
  What the scheduler needs of the store is a register: which tasks there are and which of their
  occasions, counted in whole seconds as \<open>run_id_for\<close> of \<open>runner.py\<close> does, are taken.
\<close>

definition whole_seconds :: "time \<Rightarrow> int" where
  "whole_seconds r = (if r < 0 then - \<lfloor>- r\<rfloor> else \<lfloor>r\<rfloor>)"

definition occasion_id :: "(string \<Rightarrow> string) \<Rightarrow> string \<Rightarrow> int \<Rightarrow> string" where
  "occasion_id H tid n = ''br-'' @ take 20 (sha256_hex H (tid @ ''|'' @ int_text n))"

definition run_id_for :: "(string \<Rightarrow> string) \<Rightarrow> string \<Rightarrow> time \<Rightarrow> string" where
  "run_id_for H tid occ = occasion_id H tid (whole_seconds occ)"

record register =
  rg_tasks :: "string set"
  rg_taken :: "(string \<times> int) set"

definition register_claim :: "string \<times> int \<Rightarrow> register \<Rightarrow> bool \<times> register" where
  "register_claim k R =
     (if fst k \<in> rg_tasks R \<and> k \<notin> rg_taken R then (True, R\<lparr>rg_taken := insert k (rg_taken R)\<rparr>)
      else (False, R))"

fun register_op :: "recogniser \<Rightarrow> python_text \<Rightarrow> proactive_op \<Rightarrow> register \<Rightarrow> register" where
  "register_op V P (Put_task now t) R =
     (case fst (put_task V P now t empty_proactive) of
        Inl _ \<Rightarrow> R | Inr _ \<Rightarrow> R\<lparr>rg_tasks := insert (tk_id t) (rg_tasks R)\<rparr>)"
| "register_op V P (Delete_task tid) R =
     R\<lparr>rg_tasks := rg_tasks R - {tid}, rg_taken := {k \<in> rg_taken R. fst k \<noteq> tid}\<rparr>"
| "register_op V P (Claim now tid occ rid) R = snd (register_claim (tid, whole_seconds occ) R)"
| "register_op V P _ R = R"

definition register_of :: "proactive_store \<Rightarrow> register" where
  "register_of s = \<lparr>rg_tasks = tr_id ` set (ps_tasks s),
     rg_taken = (\<lambda>(rid, tid, occ). (tid, whole_seconds occ)) ` set (map run_key (ps_runs s))\<rparr>"

text \<open>The scheduler's way to use the store: run identifiers are derived, from occasions in \<open>K\<close>.\<close>

definition derived_ids :: "(string \<Rightarrow> string) \<Rightarrow> (string \<times> int) set \<Rightarrow> proactive_store \<Rightarrow> bool" where
  "derived_ids H K s \<longleftrightarrow> (\<forall>(rid, tid, occ)\<in>set (map run_key (ps_runs s)).
     rid = run_id_for H tid occ \<and> (tid, whole_seconds occ) \<in> K)"

definition uses_derived_ids :: "(string \<Rightarrow> string) \<Rightarrow> (string \<times> int) set \<Rightarrow> proactive_op \<Rightarrow> bool" where
  "uses_derived_ids H K op1 \<longleftrightarrow> (case op1 of
     Claim now tid occ rid \<Rightarrow> rid = run_id_for H tid occ \<and> (tid, whole_seconds occ) \<in> K | _ \<Rightarrow> True)"

lemma register_of_frame:
  "ps_tasks t = ps_tasks s \<Longrightarrow> map run_key (ps_runs t) = map run_key (ps_runs s) \<Longrightarrow>
   register_of t = register_of s"
  by (simp add: register_of_def)

lemma claim_is_register_claim:
  assumes "derived_ids H K s" "inj_on (\<lambda>(tid, n). occasion_id H tid n) K"
    and "(tid, whole_seconds occ) \<in> K"
  shows "fst (claim_run now tid occ (run_id_for H tid occ) s)
     = fst (register_claim (tid, whole_seconds occ) (register_of s))"
proof -
  have "run_id_for H tid occ \<in> fst ` set (map run_key (ps_runs s)) \<longleftrightarrow>
      (tid, whole_seconds occ) \<in> rg_taken (register_of s)" (is "?l \<longleftrightarrow> ?r")
  proof
    assume ?l
    then obtain t2 o2 where k: "(run_id_for H tid occ, t2, o2) \<in> set (map run_key (ps_runs s))" by force
    with assms(1) have "run_id_for H tid occ = run_id_for H t2 o2" "(t2, whole_seconds o2) \<in> K"
      by (auto simp: derived_ids_def simp del: set_map list.set_map)
    then have "(tid, whole_seconds occ) = (t2, whole_seconds o2)"
      using inj_onD [OF assms(2) _ assms(3)] by (fastforce simp: run_id_for_def)
    with k show ?r unfolding register_of_def by force
  next
    assume ?r
    then obtain rid o2 where k: "(rid, tid, o2) \<in> set (map run_key (ps_runs s))"
      "whole_seconds o2 = whole_seconds occ" by (auto simp: register_of_def simp del: set_map list.set_map)
    with assms(1) have "rid = run_id_for H tid occ"
      by (auto simp: derived_ids_def run_id_for_def simp del: set_map list.set_map)
    with k(1) show ?l by (metis fst_conv image_eqI)
  qed
  moreover have "rn_id ` set (ps_runs s) = fst ` set (map run_key (ps_runs s))"
    by (auto simp: run_key_def image_iff)
  moreover have "occasion_taken tid occ s \<Longrightarrow> ?r"
    by (auto simp: occasion_taken_keys register_of_def simp del: set_map list.set_map intro: rev_image_eqI)
  moreover have "tid \<in> rg_tasks (register_of s) \<longleftrightarrow> has_task tid s"
    by (simp add: register_of_def has_task_def)
  ultimately show ?thesis by (auto simp: claim_run_def register_claim_def)
qed

lemma derived_ids_frame:
  "map run_key (ps_runs t) = map run_key (ps_runs s) \<Longrightarrow> derived_ids H K t = derived_ids H K s"
  by (simp only: derived_ids_def)

lemma register_of_put:
  "register_of (snd (put_task V P now t s)) = register_op V P (Put_task now t) (register_of s)"
  by (simp add: put_task_def register_of_def tr_id_upsert upsert_frame split: sum.split)

lemma register_of_delete:
  "register_of (snd (delete_task tid s)) = register_op V P (Delete_task tid) (register_of s)"
  by (auto simp: register_of_def run_keys_delete [unfolded list.set_map] delete_task_def run_key_def
      image_iff)

lemma register_of_claim:
  assumes "derived_ids H K s" "inj_on (\<lambda>(tid, n). occasion_id H tid n) K"
    and "(tid, whole_seconds occ) \<in> K" and "rid = run_id_for H tid occ"
  shows "register_of (snd (claim_run now tid occ rid s))
     = snd (register_claim (tid, whole_seconds occ) (register_of s))"
proof -
  note granted = claim_is_register_claim [OF assms(1-3), of now, folded assms(4)]
  have "register_of (snd (claim_run now tid occ rid s)) =
      (if fst (claim_run now tid occ rid s)
       then (register_of s)\<lparr>rg_taken := insert (tid, whole_seconds occ) (rg_taken (register_of s))\<rparr>
       else register_of s)"
    by (simp add: register_of_def run_keys_claim tasks_frame del: map_append set_map list.set_map)
  then show ?thesis unfolding granted by (simp add: register_claim_def)
qed

lemma untouched:
  "register_of (snd (put_preauth g s)) = register_of s"
  "register_of (snd (revoke_preauth now aid reason s)) = register_of s"
  "register_of (finish_run now rid st out det s) = register_of s"
  "register_of (snd (add_item V it s)) = register_of s"
  "register_of (snd (mark_read now nid s)) = register_of s"
  "register_of (snd (prune now keep old s)) = register_of s"
  "derived_ids H K (snd (put_task V P now t s)) = derived_ids H K s"
  "derived_ids H K (snd (put_preauth g s)) = derived_ids H K s"
  "derived_ids H K (snd (revoke_preauth now aid reason s)) = derived_ids H K s"
  "derived_ids H K (finish_run now rid st out det s) = derived_ids H K s"
  "derived_ids H K (snd (add_item V it s)) = derived_ids H K s"
  "derived_ids H K (snd (mark_read now nid s)) = derived_ids H K s"
  "derived_ids H K (snd (prune now keep old s)) = derived_ids H K s"
  by (rule register_of_frame derived_ids_frame; simp only: tasks_frame runs_frame run_keys_finish)+

lemma register_step:
  assumes "derived_ids H K s" "inj_on (\<lambda>(tid, n). occasion_id H tid n) K" "uses_derived_ids H K op1"
  shows "register_of (apply_op V P op1 s) = register_op V P op1 (register_of s) \<and>
     derived_ids H K (apply_op V P op1 s)"
proof (cases op1)
  case (Put_task now t)
  with assms(1) show ?thesis
    by (simp add: register_of_put untouched del: register_op.simps(1))
next
  case (Delete_task tid)
  have "derived_ids H K (snd (delete_task tid s))"
    using assms(1) unfolding derived_ids_def run_keys_delete by (simp del: set_map list.set_map)
  with Delete_task show ?thesis using register_of_delete [of tid s V P] by simp
next
  case (Claim now tid occ rid)
  then have rid: "rid = run_id_for H tid occ" "(tid, whole_seconds occ) \<in> K"
    using assms(3) by (simp_all add: uses_derived_ids_def)
  then have "derived_ids H K (snd (claim_run now tid occ rid s))"
    using assms(1) unfolding derived_ids_def run_keys_claim by (auto simp del: set_map list.set_map)
  with Claim show ?thesis using register_of_claim [OF assms(1,2) rid(2,1), of now] by simp
next
  case (Put_grant g)
  with assms(1) show ?thesis by (simp add: untouched)
next
  case (Revoke_grant now aid reason)
  with assms(1) show ?thesis by (simp add: untouched)
next
  case (Finish now rid st out det)
  with assms(1) show ?thesis by (simp add: untouched)
next
  case (Add_item it)
  with assms(1) show ?thesis by (simp add: untouched)
next
  case (Mark_read now nid)
  with assms(1) show ?thesis by (simp add: untouched)
next
  case (Prune now keep old)
  with assms(1) show ?thesis by (simp add: untouched)
qed

text \<open>
  C36: used the way the scheduler uses it, with run identifiers derived from the occasions, the store
  implements the register exactly: after any operations its tables stand for the register those
  operations lead to, and a claim is granted if and only if the register grants it, which is once
  for every second of every task there is. The hash must only tell the occasions in question apart.
\<close>

theorem store_refines_register:
  assumes "inj_on (\<lambda>(tid, n). occasion_id H tid n) K" and "\<forall>op1\<in>set ops. uses_derived_ids H K op1"
    and "(tid, whole_seconds occ) \<in> K"
  shows "let s = fold (apply_op V P) ops empty_proactive;
       R = fold (register_op V P) ops \<lparr>rg_tasks = {}, rg_taken = {}\<rparr>
     in register_of s = R \<and>
       fst (claim_run now tid occ (run_id_for H tid occ) s)
         = fst (register_claim (tid, whole_seconds occ) R)"
proof -
  let ?s = "fold (apply_op V P) ops empty_proactive"
  let ?R = "fold (register_op V P) ops \<lparr>rg_tasks = {}, rg_taken = {}\<rparr>"
  have "register_of (fold (apply_op V P) ops s0) = fold (register_op V P) ops (register_of s0) \<and>
      derived_ids H K (fold (apply_op V P) ops s0)" if "derived_ids H K s0" for s0
    using assms(2) that
  proof (induction ops arbitrary: s0)
    case (Cons op1 ops)
    then show ?case using register_step [OF Cons.prems(2) assms(1), of op1 V P] by simp
  qed simp
  moreover have "derived_ids H K empty_proactive" "register_of empty_proactive = \<lparr>rg_tasks = {}, rg_taken = {}\<rparr>"
    by (simp_all add: derived_ids_def register_of_def empty_proactive_def)
  ultimately have "register_of ?s = ?R" "derived_ids H K ?s" by metis+
  then show ?thesis using claim_is_register_claim [OF _ assms(1,3), of ?s now]
    unfolding Let_def by metis
qed

theorem store_refines_register_witness:
  "\<not> fst (claim_run 2500 ''task-1'' 2000 (run_id_for (\<lambda>x. x) ''task-1'' 2000)
     (fold (apply_op no_secrets demo_text) [Put_task 1000 demo_task,
        Claim 2001 ''task-1'' 2000 (run_id_for (\<lambda>x. x) ''task-1'' 2000)] empty_proactive))"
proof -
  let ?K = "{(''task-1'', whole_seconds 2000)}"
  have "fst (claim_run 2500 ''task-1'' 2000 (run_id_for (\<lambda>x. x) ''task-1'' 2000)
     (fold (apply_op no_secrets demo_text) [Put_task 1000 demo_task,
        Claim 2001 ''task-1'' 2000 (run_id_for (\<lambda>x. x) ''task-1'' 2000)] empty_proactive))
   = fst (register_claim (''task-1'', whole_seconds 2000)
     (fold (register_op no_secrets demo_text) [Put_task 1000 demo_task,
        Claim 2001 ''task-1'' 2000 (run_id_for (\<lambda>x. x) ''task-1'' 2000)] \<lparr>rg_tasks = {}, rg_taken = {}\<rparr>))"
    using store_refines_register [of "\<lambda>x. x" ?K "[Put_task 1000 demo_task,
        Claim 2001 ''task-1'' 2000 (run_id_for (\<lambda>x. x) ''task-1'' 2000)]" "''task-1''" 2000
        no_secrets demo_text 2500]
    by (simp add: uses_derived_ids_def Let_def)
  then show ?thesis
    by (auto simp: register_claim_def put_task_def split: sum.splits)
qed

end
