(* ===== verification/Proactive_Schedule.thy ===== *)
theory Proactive_Schedule
  imports Preauthorization
begin

text \<open>
  \<open>proactive/schedule.py\<close>: when a task is due, in wall-clock time. The data of the time zones is not
  part of the program: a zone is a parameter that reads a point in time as a civil minute (counted
  from 1970-01-01 00:00 of the wall clock) and places a civil minute in time, the first of the two
  where the clock runs twice (\<open>fold=0\<close>). \<open>ZoneInfo\<close> finds it by name or raises.
\<close>

section \<open>Schedules\<close>

record zone =
  zn_local :: "time \<Rightarrow> int"
  zn_stamp :: "int \<Rightarrow> time"

definition DEFAULT_TZ :: string where "DEFAULT_TZ = ''Europe/Berlin''"
definition MIN_INTERVAL_SECONDS :: int where "MIN_INTERVAL_SECONDS = 300"
definition DEFAULT_GRACE_SECONDS :: int where "DEFAULT_GRACE_SECONDS = 3 * 3600"

datatype kind = ONE_SHOT | DAILY | WEEKLY | INTERVAL

fun kind_value :: "kind \<Rightarrow> string" where
  "kind_value ONE_SHOT = ''one_shot''"
| "kind_value DAILY = ''daily''"
| "kind_value WEEKLY = ''weekly''"
| "kind_value INTERVAL = ''interval''"

definition kind_of :: "string \<Rightarrow> kind option" where
  "kind_of s = List.find (\<lambda>k. kind_value k = s) [ONE_SHOT, DAILY, WEEKLY, INTERVAL]"

record schedule =
  sd_kind :: kind
  sd_hour :: int
  sd_minute :: int
  sd_weekdays :: "int list"
  sd_at :: time
  sd_every :: int
  sd_timezone :: string
  sd_grace :: int

definition check_schedule :: "(string \<Rightarrow> zone option) \<Rightarrow> schedule \<Rightarrow> unit result" where
  "check_schedule zones s =
     (if sd_kind s \<in> {DAILY, WEEKLY} \<and>
         \<not> (0 \<le> sd_hour s \<and> sd_hour s \<le> 23 \<and> 0 \<le> sd_minute s \<and> sd_minute s \<le> 59)
      then Inl (ScheduleError ''ungueltige Uhrzeit'')
      else if sd_kind s = WEEKLY \<and> sd_weekdays s = []
      then Inl (ScheduleError ''woechentlich ohne Wochentag'')
      else if \<exists>d\<in>set (sd_weekdays s). \<not> (0 \<le> d \<and> d \<le> 6)
      then Inl (ScheduleError ''Wochentag ausserhalb 0..6'')
      else if sd_kind s = INTERVAL \<and> sd_every s < MIN_INTERVAL_SECONDS
      then Inl (ScheduleError ''Abstand unter der Untergrenze'')
      else if sd_kind s = ONE_SHOT \<and> sd_at s \<le> 0
      then Inl (ScheduleError ''einmalig ohne Zeitpunkt'')
      else case zones (sd_timezone s) of
             None \<Rightarrow> Inl (ScheduleError ''unbekannte Zeitzone'') | Some _ \<Rightarrow> Inr ())"

definition recurring :: "schedule \<Rightarrow> bool" where
  "recurring s \<longleftrightarrow> sd_kind s \<noteq> ONE_SHOT"

section \<open>The next occasion\<close>

fun first_some :: "('a \<Rightarrow> 'b option) \<Rightarrow> 'a list \<Rightarrow> 'b option" where
  "first_some f [] = None"
| "first_some f (x # xs) = (case f x of None \<Rightarrow> first_some f xs | Some y \<Rightarrow> Some y)"

text \<open>
  \<open>_wall_clock\<close>: the time of the wall clock on a day. Where the clock skips it, reading the placed
  time back gives another one, and the first minute after it that exists is taken.
\<close>

definition same_clock :: "int \<Rightarrow> int \<Rightarrow> bool" where
  "same_clock m n \<longleftrightarrow> m mod 1440 = n mod 1440"

definition wall_clock :: "zone \<Rightarrow> schedule \<Rightarrow> int \<Rightarrow> time option" where
  "wall_clock z s day =
     (let naive = day * 1440 + sd_hour s * 60 + sd_minute s;
          stamp = zn_stamp z naive
      in if same_clock (zn_local z stamp) naive then Some stamp
         else first_some (\<lambda>extra.
                let candidate = zn_stamp z (naive + extra)
                in if same_clock (zn_local z candidate) (naive + extra) then Some candidate else None)
              [1..179])"

text \<open>The weekday of a day counted from 1970-01-01, a Thursday; Monday is 0.\<close>

definition weekday :: "int \<Rightarrow> int" where
  "weekday day = (day + 3) mod 7"

definition next_after :: "zone \<Rightarrow> schedule \<Rightarrow> time \<Rightarrow> time option" where
  "next_after z s after = (case sd_kind s of
       ONE_SHOT \<Rightarrow> if sd_at s > after then Some (sd_at s) else None
     | INTERVAL \<Rightarrow> Some (after + of_int (sd_every s))
     | k \<Rightarrow> first_some (\<lambda>offset.
         let day = zn_local z after div 1440 + offset
         in if k = WEEKLY \<and> weekday day \<notin> set (sd_weekdays s) then None
            else case wall_clock z s day of None \<Rightarrow> None
                 | Some moment \<Rightarrow> if moment > after then Some moment else None) [0..399])"

section \<open>After an outage\<close>

text \<open>The loop of \<open>catch_up\<close>, which the counter of skipped occasions stops at 1001.\<close>

function catch_up_loop :: "zone \<Rightarrow> schedule \<Rightarrow> time \<Rightarrow> time option \<Rightarrow> time option \<Rightarrow> nat
    \<Rightarrow> time option \<times> nat" where
  "catch_up_loop z s now moment last_due skipped = (case moment of
       None \<Rightarrow> (last_due, skipped)
     | Some m \<Rightarrow>
         if m > now then (last_due, skipped)
         else if skipped + 1 > 1000 then (Some m, skipped + 1)
         else catch_up_loop z s now (next_after z s m) (Some m) (skipped + 1))"
  by pat_completeness auto

termination
  by (relation "measure (\<lambda>(z, s, now, moment, last_due, skipped). 1001 - skipped)") auto

declare catch_up_loop.simps [simp del]

definition catch_up :: "zone \<Rightarrow> schedule \<Rightarrow> time \<Rightarrow> time \<Rightarrow> time option \<times> nat" where
  "catch_up z s missed_since now =
     (if missed_since \<le> 0 \<or> missed_since > now then (None, 0)
      else case catch_up_loop z s now (Some missed_since) None 0 of
             (None, _) \<Rightarrow> (None, 0)
           | (Some last_due, skipped) \<Rightarrow>
               if now - last_due \<le> of_int (sd_grace s) then (Some last_due, skipped - 1)
               else (None, skipped))"

section \<open>As JSON and back\<close>

text \<open>\<open>f"{n:02d}"\<close> of a number that is not negative.\<close>

definition two_digits :: "int \<Rightarrow> string" where
  "two_digits n = (if n < 10 then ''0'' @ int_text n else int_text n)"

definition schedule_as_dict :: "schedule \<Rightarrow> json_object" where
  "schedule_as_dict s =
     [(''art'', Jstr (kind_value (sd_kind s))), (''zeitzone'', Jstr (sd_timezone s))] @
     (if sd_kind s \<in> {DAILY, WEEKLY}
      then [(''uhrzeit'', Jstr (two_digits (sd_hour s) @ '':'' @ two_digits (sd_minute s)))] else []) @
     (if sd_kind s = WEEKLY then [(''wochentage'', Jlist (map Jint (sd_weekdays s)))] else []) @
     (if sd_kind s = ONE_SHOT then [(''zeitpunkt'', Jreal (sd_at s))] else []) @
     (if sd_kind s = INTERVAL then [(''abstand_s'', Jint (sd_every s))] else [])"

fun py_float :: "python_text \<Rightarrow> json_value \<Rightarrow> real result" where
  "py_float P (Jint i) = Inr (of_int i)"
| "py_float P (Jbool b) = Inr (if b then 1 else 0)"
| "py_float P (Jreal r) = Inr r"
| "py_float P (Jstr t) = (case pt_read_float P t of None \<Rightarrow> Inl (ValueError ''could not convert string to float'')
     | Some r \<Rightarrow> Inr r)"
| "py_float P _ = Inl TypeError"

text \<open>A weekday that is not a number raises in the comparisons of the constructor; it is read as one here.\<close>

fun weekday_values :: "json_value list \<Rightarrow> int list result" where
  "weekday_values [] = Inr []"
| "weekday_values (v # vs) = (case v of Jint i \<Rightarrow>
      (case weekday_values vs of Inl e \<Rightarrow> Inl e | Inr ds \<Rightarrow> Inr (i # ds)) | _ \<Rightarrow> Inl TypeError)"

definition int_or_zero :: "string \<Rightarrow> int result" where
  "int_or_zero t = (if t = [] then Inr 0 else int_of_text t)"

definition schedule_from_dict :: "python_text \<Rightarrow> (string \<Rightarrow> zone option) \<Rightarrow> json_object
    \<Rightarrow> schedule result" where
  "schedule_from_dict P zones data =
     (case kind_of (py_str P (get_or (get_or (Jstr []) ''kind'' data) ''art'' data)) of
        None \<Rightarrow> Inl (ValueError ''not a valid Kind'')
      | Some k \<Rightarrow>
      (let clock = py_str P (get_or (Jstr ''00:00'') ''uhrzeit'' data);
           days = get_or (Jlist []) ''wochentage'' data;
           moment = get_or (Jreal 0) ''zeitpunkt'' data;
           distance = get_or (Jint MIN_INTERVAL_SECONDS) ''abstand_s'' data
       in case int_or_zero (takeWhile (\<lambda>c. c \<noteq> CHR '':'') clock) of Inl e \<Rightarrow> Inl e | Inr h \<Rightarrow>
         (case int_or_zero (tl (dropWhile (\<lambda>c. c \<noteq> CHR '':'') clock)) of Inl e \<Rightarrow> Inl e | Inr m \<Rightarrow>
         (case (if json_truthy days then py_iter days else Inr []) of Inl e \<Rightarrow> Inl e | Inr vs \<Rightarrow>
         (case weekday_values vs of Inl e \<Rightarrow> Inl e | Inr ds \<Rightarrow>
         (case (if json_truthy moment then py_float P moment else Inr 0) of Inl e \<Rightarrow> Inl e | Inr t \<Rightarrow>
         (case (if json_truthy distance then py_int distance else Inr MIN_INTERVAL_SECONDS) of
            Inl e \<Rightarrow> Inl e
          | Inr n \<Rightarrow>
            let s = \<lparr>sd_kind = k, sd_hour = h, sd_minute = m, sd_weekdays = ds, sd_at = t, sd_every = n,
                     sd_timezone = py_str P (get_or (Jstr DEFAULT_TZ) ''zeitzone'' data),
                     sd_grace = DEFAULT_GRACE_SECONDS\<rparr>
            in case check_schedule zones s of Inl e \<Rightarrow> Inl e | Inr _ \<Rightarrow> Inr s)))))))"

definition make_schedule :: "(string \<Rightarrow> zone option) \<Rightarrow> schedule \<Rightarrow> schedule result" where
  "make_schedule zones s = (case check_schedule zones s of Inl e \<Rightarrow> Inl e | Inr _ \<Rightarrow> Inr s)"

definition default_schedule :: "kind \<Rightarrow> schedule" where
  "default_schedule k = \<lparr>sd_kind = k, sd_hour = 0, sd_minute = 0, sd_weekdays = [], sd_at = 0,
     sd_every = MIN_INTERVAL_SECONDS, sd_timezone = DEFAULT_TZ, sd_grace = DEFAULT_GRACE_SECONDS\<rparr>"

definition in_seconds :: "(string \<Rightarrow> zone option) \<Rightarrow> time \<Rightarrow> time \<Rightarrow> schedule result" where
  "in_seconds zones seconds now =
     make_schedule zones ((default_schedule ONE_SHOT)\<lparr>sd_at := now + max 1 seconds\<rparr>)"

definition daily :: "(string \<Rightarrow> zone option) \<Rightarrow> int \<Rightarrow> int \<Rightarrow> string \<Rightarrow> schedule result" where
  "daily zones hour minute tz = make_schedule zones
     ((default_schedule DAILY)\<lparr>sd_hour := hour, sd_minute := minute, sd_timezone := tz\<rparr>)"

definition weekly :: "(string \<Rightarrow> zone option) \<Rightarrow> int list \<Rightarrow> int \<Rightarrow> int \<Rightarrow> string \<Rightarrow> schedule result" where
  "weekly zones weekdays hour minute tz = make_schedule zones
     ((default_schedule WEEKLY)\<lparr>sd_hour := hour, sd_minute := minute, sd_timezone := tz,
        sd_weekdays := sort (remdups weekdays)\<rparr>)"

definition every :: "(string \<Rightarrow> zone option) \<Rightarrow> int \<Rightarrow> schedule result" where
  "every zones seconds = make_schedule zones ((default_schedule INTERVAL)\<lparr>sd_every := seconds\<rparr>)"

definition clamp_interval :: "int \<Rightarrow> int \<times> bool" where
  "clamp_interval wanted =
     (if wanted \<ge> MIN_INTERVAL_SECONDS then (wanted, False) else (MIN_INTERVAL_SECONDS, True))"

section \<open>What the calculation promises\<close>

lemma first_some_Some: "first_some f xs = Some y \<Longrightarrow> \<exists>x\<in>set xs. f x = Some y"
  by (induction xs) (auto split: option.splits)

lemma first_some_hit: "x \<in> set xs \<Longrightarrow> f x \<noteq> None \<Longrightarrow> \<exists>y. first_some f xs = Some y"
  by (induction xs) (auto split: option.splits)

lemma check_schedule_Inr:
  assumes "check_schedule zones s = Inr ()"
  shows "sd_kind s \<in> {DAILY, WEEKLY} \<Longrightarrow> 0 \<le> sd_hour s \<and> sd_hour s \<le> 23 \<and> 0 \<le> sd_minute s \<and> sd_minute s \<le> 59"
    and "sd_kind s = WEEKLY \<Longrightarrow> sd_weekdays s \<noteq> []"
    and "\<forall>d\<in>set (sd_weekdays s). 0 \<le> d \<and> d \<le> 6"
    and "sd_kind s = INTERVAL \<Longrightarrow> MIN_INTERVAL_SECONDS \<le> sd_every s"
    and "sd_kind s = ONE_SHOT \<Longrightarrow> 0 < sd_at s"
    and "\<exists>z. zones (sd_timezone s) = Some z"
  using assms unfolding check_schedule_def by (auto split: if_splits option.splits)

lemma next_after_later:
  assumes "next_after z s after = Some t" and "sd_kind s = INTERVAL \<Longrightarrow> 0 < sd_every s"
  shows "after < t"
proof (cases "sd_kind s")
  case INTERVAL
  with assms show ?thesis by (simp add: next_after_def)
qed (use assms in \<open>auto simp: next_after_def Let_def dest!: first_some_Some split: if_splits option.splits\<close>)

text \<open>
  The next occasion of a schedule is always strictly later than the point in time asked about,
  and never more than the sanctioned distance away for a plain interval: a task that has just run
  is never due at the same occasion again.
\<close>

theorem next_occasion_is_strictly_later:
  assumes "check_schedule zones s = Inr ()" and "next_after z s after = Some t"
  shows "after < t \<and> (sd_kind s = INTERVAL \<longrightarrow> 300 \<le> t - after) \<and>
     (sd_kind s = ONE_SHOT \<longrightarrow> t = sd_at s)"
proof -
  have every: "sd_kind s = INTERVAL \<Longrightarrow> 300 \<le> sd_every s"
    using check_schedule_Inr(4) [OF assms(1)] by (simp add: MIN_INTERVAL_SECONDS_def)
  then have "after < t" by (intro next_after_later [OF assms(2)]) simp
  moreover have "sd_kind s = INTERVAL \<Longrightarrow> 300 \<le> t - after" "sd_kind s = ONE_SHOT \<Longrightarrow> t = sd_at s"
    using assms(2) every by (auto simp: next_after_def split: if_splits)
  ultimately show ?thesis by blast
qed

definition utc :: zone where
  "utc = \<lparr>zn_local = (\<lambda>t. \<lfloor>t / 60\<rfloor>), zn_stamp = (\<lambda>m. 60 * of_int m)\<rparr>"

definition demo_schedule :: schedule where
  "demo_schedule = \<lparr>sd_kind = INTERVAL, sd_hour = 0, sd_minute = 0, sd_weekdays = [], sd_at = 0,
     sd_every = 900, sd_timezone = ''UTC'', sd_grace = DEFAULT_GRACE_SECONDS\<rparr>"

lemma demo_schedule_ok: "check_schedule (\<lambda>_. Some utc) demo_schedule = Inr ()"
  by (simp add: check_schedule_def demo_schedule_def MIN_INTERVAL_SECONDS_def)

theorem next_occasion_is_strictly_later_witness:
  "(1000::time) < 1900"
  using next_occasion_is_strictly_later [OF demo_schedule_ok, of utc 1000 1900]
  by (simp add: next_after_def demo_schedule_def)

subsection \<open>A recurring schedule always has a next occasion\<close>

text \<open>
  What the code relies on from the zone data: a civil minute two days after a point in time is later
  than it, and where the clock skips a minute, one of the next 179 exists.
\<close>

definition lawful_zone :: "zone \<Rightarrow> bool" where
  "lawful_zone z \<longleftrightarrow>
     (\<forall>t m. zn_local z t div 1440 + 2 \<le> m div 1440 \<longrightarrow> t < zn_stamp z m) \<and>
     (\<forall>m. \<exists>extra\<in>set [0..179]. same_clock (zn_local z (zn_stamp z (m + extra))) (m + extra))"

lemma wall_clock_exists:
  assumes "lawful_zone z" and "0 \<le> sd_hour s" "sd_hour s \<le> 23" "0 \<le> sd_minute s" "sd_minute s \<le> 59"
  obtains extra where "0 \<le> extra"
    "wall_clock z s day = Some (zn_stamp z (day * 1440 + sd_hour s * 60 + sd_minute s + extra))"
proof -
  let ?n = "day * 1440 + sd_hour s * 60 + sd_minute s"
  let ?f = "\<lambda>extra. if same_clock (zn_local z (zn_stamp z (?n + extra))) (?n + extra)
      then Some (zn_stamp z (?n + extra)) else None"
  show ?thesis
  proof (cases "same_clock (zn_local z (zn_stamp z ?n)) ?n")
    case True
    then have "wall_clock z s day = Some (zn_stamp z (?n + 0))" by (simp add: wall_clock_def)
    then show ?thesis by (intro that [of 0]) simp_all
  next
    case False
    obtain e where e: "e \<in> set [0..179]" "same_clock (zn_local z (zn_stamp z (?n + e))) (?n + e)"
      using assms(1) unfolding lawful_zone_def by blast
    with False have "e \<noteq> 0" by auto
    with e have "e \<in> set [1..179]" "?f e \<noteq> None" by auto
    then obtain t where t: "first_some ?f [1..179] = Some t" using first_some_hit [of e _ ?f] by blast
    with first_some_Some [OF t] obtain x where "x \<in> set [1..179]" "t = zn_stamp z (?n + x)"
      by (auto split: if_splits)
    with t False show ?thesis by (intro that [of x]) (auto simp: wall_clock_def Let_def)
  qed
qed

lemma weekday_hits: "0 \<le> d \<Longrightarrow> d \<le> 6 \<Longrightarrow> \<exists>k\<in>{2..8}. weekday (day + k) = d"
proof -
  assume d: "0 \<le> d" "d \<le> 6"
  define k where "k = 2 + (d - (day + 5)) mod 7"
  have "2 \<le> k" "k \<le> 8"
    using pos_mod_sign [of 7 "d - (day + 5)"] pos_mod_bound [of 7 "d - (day + 5)"] by (auto simp: k_def)
  moreover have "weekday (day + k) = d mod 7"
  proof -
    have "(day + k + 3) mod 7 = (day + 5 + (d - (day + 5)) mod 7) mod 7"
      by (simp add: k_def ac_simps)
    also have "\<dots> = (day + 5 + (d - (day + 5))) mod 7" by (rule mod_add_right_eq)
    finally show ?thesis by (simp add: weekday_def)
  qed
  ultimately show ?thesis using d by (intro bexI [of _ k]) auto
qed

text \<open>
  A recurring schedule never runs out, in every time zone whose days follow each other and whose
  clock changes skip less than three hours.
\<close>

lemma goes_on:
  assumes "check_schedule zones s = Inr ()" and "recurring s" and "lawful_zone z"
  shows "\<exists>t. next_after z s after = Some t \<and> after < t"
proof -
  have "\<exists>t. next_after z s after = Some t"
  proof (cases "sd_kind s = INTERVAL")
    case True
    then show ?thesis by (simp add: next_after_def)
  next
    case False
    with assms(2) have k: "sd_kind s = DAILY \<or> sd_kind s = WEEKLY"
      unfolding recurring_def by (cases "sd_kind s") auto
    then have clock: "0 \<le> sd_hour s" "sd_hour s \<le> 23" "0 \<le> sd_minute s" "sd_minute s \<le> 59"
      using check_schedule_Inr(1) [OF assms(1)] by auto
    let ?day = "zn_local z after div 1440"
    let ?f = "\<lambda>offset. if sd_kind s = WEEKLY \<and> weekday (?day + offset) \<notin> set (sd_weekdays s) then None
            else case wall_clock z s (?day + offset) of None \<Rightarrow> None
                 | Some moment \<Rightarrow> if moment > after then Some moment else None"
    obtain o1 where o1: "o1 \<in> {2..8}" "sd_kind s = WEEKLY \<longrightarrow> weekday (?day + o1) \<in> set (sd_weekdays s)"
    proof (cases "sd_kind s = WEEKLY")
      case True
      then obtain d where "d \<in> set (sd_weekdays s)"
        using check_schedule_Inr(2) [OF assms(1)] by (cases "sd_weekdays s") auto
      with check_schedule_Inr(3) [OF assms(1)] weekday_hits [of d ?day] that show ?thesis by blast
    qed (use that [of 2] in auto)
    obtain e where e: "0 \<le> e" "wall_clock z s (?day + o1)
        = Some (zn_stamp z ((?day + o1) * 1440 + sd_hour s * 60 + sd_minute s + e))" (is "_ = Some (zn_stamp z ?m)")
      using wall_clock_exists [OF assms(3) clock] by metis
    have "?day + 2 \<le> ?m div 1440"
    proof -
      have "(?day + 2) * 1440 \<le> ?m" using o1(1) e(1) clock by auto
      then have "(?day + 2) * 1440 div 1440 \<le> ?m div 1440" by (rule zdiv_mono1) simp
      then show ?thesis by simp
    qed
    then have "after < zn_stamp z ?m" using assms(3) unfolding lawful_zone_def by blast
    then have "?f o1 \<noteq> None" using e(2) o1(2) by auto
    moreover have "o1 \<in> set [0..399]" using o1(1) by auto
    ultimately have "\<exists>t. first_some ?f [0..399] = Some t" using first_some_hit [of o1 _ ?f] by blast
    moreover have "next_after z s after = first_some ?f [0..399]"
      using k by (auto simp: next_after_def Let_def)
    ultimately show ?thesis by (simp only:)
  qed
  moreover have "sd_kind s = INTERVAL \<Longrightarrow> 0 < sd_every s"
    using check_schedule_Inr(4) [OF assms(1)] by (simp add: MIN_INTERVAL_SECONDS_def)
  ultimately show ?thesis using next_after_later by blast
qed

lemma utc_lawful: "lawful_zone utc"
proof -
  have "t < 60 * of_int m" if "\<lfloor>t / 60\<rfloor> div 1440 + 2 \<le> m div 1440" for t :: real and m
  proof -
    have "a < (a div 1440 + 1) * 1440" "(b div 1440 - 1) * 1440 \<le> b - 1440" for a b :: int
      by presburger+
    note below = this(1) [of "\<lfloor>t / 60\<rfloor>"] and above = this(2) [of m]
    note below
    also have "(\<lfloor>t / 60\<rfloor> div 1440 + 1) * 1440 \<le> (m div 1440 - 1) * 1440" using that by simp
    also note above
    finally have "\<lfloor>t / 60\<rfloor> + 1 \<le> m" by simp
    moreover have "t / 60 < of_int \<lfloor>t / 60\<rfloor> + 1" by linarith
    ultimately have "t / 60 < of_int m" by linarith
    then show ?thesis by simp
  qed
  moreover have "\<exists>extra\<in>set [0..179]. same_clock \<lfloor>(60 * real_of_int (m + extra)) / 60\<rfloor> (m + extra)" for m
    by (intro bexI [of _ 0]) (simp_all add: same_clock_def)
  ultimately show ?thesis unfolding lawful_zone_def utc_def by auto
qed

definition demo_weekly :: schedule where
  "demo_weekly = \<lparr>sd_kind = WEEKLY, sd_hour = 20, sd_minute = 5, sd_weekdays = [2, 6], sd_at = 0,
     sd_every = 300, sd_timezone = ''UTC'', sd_grace = DEFAULT_GRACE_SECONDS\<rparr>"

lemma demo_weekly_ok: "check_schedule (\<lambda>_. Some utc) demo_weekly = Inr ()"
  by (simp add: check_schedule_def demo_weekly_def)

subsection \<open>After an outage at most one run\<close>

lemma catch_up_loop_bounds:
  assumes "catch_up_loop z s now moment last_due skipped = (d, n)"
    and "sd_kind s = INTERVAL \<Longrightarrow> 0 < sd_every s" and "skipped \<le> 1000"
    and "\<And>m. moment = Some m \<Longrightarrow> lo \<le> m" and "\<And>l. last_due = Some l \<Longrightarrow> lo \<le> l \<and> l \<le> now"
  shows "n \<le> 1001 \<and> (\<forall>t. d = Some t \<longrightarrow> lo \<le> t \<and> t \<le> now)"
  using assms
proof (induction z s now moment last_due skipped rule: catch_up_loop.induct)
  case (1 z s now moment last_due skipped)
  show ?case
  proof (cases moment)
    case None
    with "1.prems" show ?thesis by (auto simp: catch_up_loop.simps [of z s now None])
  next
    case (Some m)
    consider "m > now" | "m \<le> now" "skipped + 1 > 1000" | "m \<le> now" "skipped + 1 \<le> 1000" by linarith
    then show ?thesis
    proof cases
      case 3
      have "catch_up_loop z s now (next_after z s m) (Some m) (skipped + 1) = (d, n)"
        using "1.prems"(1) 3 Some by (simp add: catch_up_loop.simps [of z s now "Some m"])
      moreover have "lo \<le> m" using "1.prems"(4) Some by blast
      moreover have "m < t" if "next_after z s m = Some t" for t
        using next_after_later [OF that "1.prems"(2)] .
      ultimately show ?thesis using "1.IH" [OF Some] 3 "1.prems"(2) by fastforce
    qed (use "1.prems" Some in \<open>auto simp: catch_up_loop.simps [of z s now "Some m"]\<close>)
  qed
qed

text \<open>
  C37: however long the program was off, catching up ends after at most 1001 occasions and leads to at
  most one run, at an occasion between the first missed one and now that still means something: it
  is no further back than the grace period.
\<close>

theorem outage_leads_to_at_most_one_run:
  assumes "check_schedule zones s = Inr ()" and "catch_up z s missed_since now = (d, n)"
  shows "n \<le> 1001 \<and>
     (\<forall>t. d = Some t \<longrightarrow> missed_since \<le> t \<and> t \<le> now \<and> now - t \<le> of_int (sd_grace s))"
proof (cases "missed_since \<le> 0 \<or> missed_since > now")
  case True
  with assms(2) show ?thesis by (auto simp: catch_up_def)
next
  case False
  obtain l k where l: "catch_up_loop z s now (Some missed_since) None 0 = (l, k)" by fastforce
  have "sd_kind s = INTERVAL \<Longrightarrow> 0 < sd_every s"
    using check_schedule_Inr(4) [OF assms(1)] by (simp add: MIN_INTERVAL_SECONDS_def)
  from catch_up_loop_bounds [OF l this, of missed_since]
  have "k \<le> 1001 \<and> (\<forall>t. l = Some t \<longrightarrow> missed_since \<le> t \<and> t \<le> now)" by simp
  with assms(2) False l show ?thesis by (auto simp: catch_up_def split: option.splits if_splits)
qed

theorem outage_leads_to_at_most_one_run_witness:
  "snd (catch_up utc demo_schedule 1000 3000) \<le> 1001"
  using outage_leads_to_at_most_one_run [OF demo_schedule_ok, of utc 1000 3000
      "fst (catch_up utc demo_schedule 1000 3000)" "snd (catch_up utc demo_schedule 1000 3000)"]
  by simp

subsection \<open>Stored and read back\<close>

lemma two_digits_read:
  assumes "0 \<le> n" "n \<le> 59"
  shows "int_or_zero (two_digits n) = Inr n" and "CHR '':'' \<notin> set (two_digits n)"
proof -
  have "\<forall>n\<in>set [0..59]. int_or_zero (two_digits n) = Inr n \<and> CHR '':'' \<notin> set (two_digits n)"
    by code_simp
  moreover have "n \<in> set [0..59]" using assms by simp
  ultimately show "int_or_zero (two_digits n) = Inr n" "CHR '':'' \<notin> set (two_digits n)" by blast+
qed

lemma clock_parts:
  "CHR '':'' \<notin> set a \<Longrightarrow> takeWhile (\<lambda>c. c \<noteq> CHR '':'') (a @ '':'' @ b) = a \<and>
     tl (dropWhile (\<lambda>c. c \<noteq> CHR '':'') (a @ '':'' @ b)) = b"
  by (induction a) auto

lemma weekday_values_Jint: "weekday_values (map Jint ds) = Inr ds"
  by (induction ds) simp_all

lemma kind_of_value: "kind_of (kind_value k) = Some k"
  by (cases k) (simp_all add: kind_of_def)

text \<open>What comes back: the fields its kind does not use are lost.\<close>

definition reread :: "schedule \<Rightarrow> schedule" where
  "reread s = (let clock = sd_kind s \<in> {DAILY, WEEKLY} in
     \<lparr>sd_kind = sd_kind s, sd_hour = (if clock then sd_hour s else 0),
      sd_minute = (if clock then sd_minute s else 0),
      sd_weekdays = (if sd_kind s = WEEKLY then sd_weekdays s else []),
      sd_at = (if sd_kind s = ONE_SHOT then sd_at s else 0),
      sd_every = (if sd_kind s = INTERVAL then sd_every s else MIN_INTERVAL_SECONDS),
      sd_timezone = sd_timezone s, sd_grace = DEFAULT_GRACE_SECONDS\<rparr>)"

lemma reread_ok: "check_schedule zones s = Inr () \<Longrightarrow> check_schedule zones (reread s) = Inr ()"
  by (cases "sd_kind s") (auto simp: check_schedule_def reread_def split: if_splits option.splits)

lemma stored_clock:
  assumes "0 \<le> sd_hour s" "sd_hour s \<le> 59" "0 \<le> sd_minute s" "sd_minute s \<le> 59"
  shows "int_or_zero (takeWhile (\<lambda>c. c \<noteq> CHR '':'') (two_digits (sd_hour s) @ '':'' @ two_digits (sd_minute s)))
      = Inr (sd_hour s)"
    and "int_or_zero (tl (dropWhile (\<lambda>c. c \<noteq> CHR '':'') (two_digits (sd_hour s) @ '':'' @ two_digits (sd_minute s))))
      = Inr (sd_minute s)"
  using two_digits_read [OF assms(1,2)] two_digits_read [OF assms(3,4)] clock_parts by simp_all

lemma midnight:
  "int_or_zero (takeWhile (\<lambda>c. c \<noteq> CHR '':'') ''00:00'') = Inr 0"
  "int_or_zero (tl (dropWhile (\<lambda>c. c \<noteq> CHR '':'') ''00:00'')) = Inr 0"
  by code_simp+

lemma reread_from_dict:
  assumes "check_schedule zones s = Inr ()"
  shows "schedule_from_dict P zones (schedule_as_dict s) = Inr (reread s)"
proof -
  note ok = check_schedule_Inr [OF assms] and again = reread_ok [OF assms]
  have kind: "kind_of (kind_value (sd_kind s)) = Some (sd_kind s)" by (rule kind_of_value)
  show ?thesis
  proof (cases "sd_kind s")
    case ONE_SHOT
    with ok(5) again kind show ?thesis
      by (simp add: schedule_from_dict_def schedule_as_dict_def get_or_def midnight reread_def Let_def
          MIN_INTERVAL_SECONDS_def del: takeWhile.simps dropWhile.simps)
  next
    case INTERVAL
    with ok(4) again kind show ?thesis
      by (simp add: schedule_from_dict_def schedule_as_dict_def get_or_def midnight reread_def Let_def
          MIN_INTERVAL_SECONDS_def del: takeWhile.simps dropWhile.simps)
  next
    case DAILY
    with ok(1) have "0 \<le> sd_hour s" "sd_hour s \<le> 59" "0 \<le> sd_minute s" "sd_minute s \<le> 59" by auto
    from DAILY again kind stored_clock [OF this] show ?thesis
      by (simp add: schedule_from_dict_def schedule_as_dict_def get_or_def reread_def Let_def
          MIN_INTERVAL_SECONDS_def)
  next
    case WEEKLY
    with ok(1) have "0 \<le> sd_hour s" "sd_hour s \<le> 59" "0 \<le> sd_minute s" "sd_minute s \<le> 59" by auto
    from WEEKLY ok(2) again kind stored_clock [OF this] show ?thesis
      by (simp add: schedule_from_dict_def schedule_as_dict_def get_or_def reread_def Let_def
          MIN_INTERVAL_SECONDS_def weekday_values_Jint)
  qed
qed

text \<open>
  A schedule that is stored with its task and read back rings at exactly the same times, in every
  zone, and is stored the same way again.
\<close>

theorem stored_schedule_rings_the_same:
  assumes "check_schedule zones s = Inr ()"
  shows "\<exists>s'. schedule_from_dict P zones (schedule_as_dict s) = Inr s' \<and>
     (\<forall>z after. next_after z s' after = next_after z s after) \<and>
     schedule_as_dict s' = schedule_as_dict s"
proof (intro exI conjI allI)
  show "schedule_from_dict P zones (schedule_as_dict s) = Inr (reread s)"
    by (rule reread_from_dict [OF assms])
  show "next_after z (reread s) after = next_after z s after" for z after
  proof -
    have clock: "sd_kind s \<in> {DAILY, WEEKLY} \<Longrightarrow> wall_clock z (reread s) = wall_clock z s"
      by (rule ext) (simp add: wall_clock_def reread_def)
    have fields: "sd_kind (reread s) = sd_kind s" "sd_kind s = WEEKLY \<Longrightarrow> sd_weekdays (reread s) = sd_weekdays s"
      "sd_kind s = ONE_SHOT \<Longrightarrow> sd_at (reread s) = sd_at s"
      "sd_kind s = INTERVAL \<Longrightarrow> sd_every (reread s) = sd_every s"
      by (simp_all add: reread_def Let_def)
    show ?thesis by (cases "sd_kind s") (simp_all add: next_after_def clock fields Let_def cong: if_cong)
  qed
  show "schedule_as_dict (reread s) = schedule_as_dict s"
    by (cases "sd_kind s") (simp_all add: schedule_as_dict_def reread_def)
qed

theorem stored_schedule_rings_the_same_witness:
  "\<exists>s'. schedule_from_dict demo_text (\<lambda>_. Some utc) (schedule_as_dict demo_weekly) = Inr s' \<and>
     (\<forall>z after. next_after z s' after = next_after z demo_weekly after) \<and>
     schedule_as_dict s' = schedule_as_dict demo_weekly"
  by (rule stored_schedule_rings_the_same [OF demo_weekly_ok])

end
