(* ===== verification/Proactive_Scheduler.thy ===== *)
theory Proactive_Scheduler
  imports Proactive_Register Proactive_Schedule
begin

text \<open>
  \<open>proactive/scheduler.py\<close> with the backoff of \<open>proactive/runner.py\<close>: how a due occasion is run. The
  store is shared with the rest of the process, so \<open>others i\<close> is what happens to it at the i-th
  await, and \<open>clock i\<close> is the time read there. The runner that executes the action is a parameter;
  every call of it is part of the result. A task is an object that the code updates before it knows
  whether the next call raises, so a step returns the task together with the exception, if any.
\<close>

section \<open>Backoff\<close>

definition BACKOFF_BASE :: time where "BACKOFF_BASE = 300"
definition BACKOFF_CEILING :: time where "BACKOFF_CEILING = 6 * 3600"
definition MAX_FAILURES :: nat where "MAX_FAILURES = 8"

definition backoff_after :: "nat \<Rightarrow> time" where
  "backoff_after failures = min (BACKOFF_BASE * 2 ^ (failures - 1)) BACKOFF_CEILING"

section \<open>One occasion\<close>

record run_outcome =
  ro_state :: string
  ro_outcome :: string
  ro_detail :: string
  ro_item :: "inbox_item option"
  ro_fingerprint :: string

text \<open>How a call of the runner ends; \<open>wait_for\<close> cancels it when it takes longer than \<open>RUN_TIMEOUT\<close>.\<close>

datatype run_end = Ran run_outcome | Run_raised string | Run_timed_out

record environment =
  en_hash :: "string \<Rightarrow> string"
  en_text :: python_text
  en_vault :: recogniser
  en_zones :: "string \<Rightarrow> zone option"
  en_others :: "nat \<Rightarrow> proactive_store \<Rightarrow> proactive_store"
  en_clock :: "nat \<Rightarrow> time"
  en_runner :: "task \<Rightarrow> time \<Rightarrow> string \<Rightarrow> run_end"

datatype failure = Timed_out | Raised_error string

type_synonym step_result = "(task \<times> failure option) \<times> proactive_store"

definition store_task :: "environment \<Rightarrow> time \<Rightarrow> task \<Rightarrow> proactive_store \<Rightarrow> step_result" where
  "store_task E now t s = (case put_task (en_vault E) (en_text E) now t s of
       (Inl e, s') \<Rightarrow> ((t, Some (Raised_error (exn_name e))), s')
     | (Inr _, s') \<Rightarrow> ((t, None), s'))"

definition advance :: "environment \<Rightarrow> time \<Rightarrow> task \<Rightarrow> time \<Rightarrow> proactive_store \<Rightarrow> step_result" where
  "advance E now t occ s =
     (case schedule_from_dict (en_text E) (en_zones E) (tk_schedule t) of
        Inl e \<Rightarrow> ((t, Some (Raised_error (exn_name e))), s)
      | Inr sd \<Rightarrow>
          (case en_zones E (sd_timezone sd) of
             None \<Rightarrow> ((t, Some (Raised_error ''ZoneInfoNotFoundError'')), s)
           | Some z \<Rightarrow>
               let t' = (case next_after z sd (max occ now) of
                   None \<Rightarrow> t\<lparr>tk_state := (if sd_kind sd = ONE_SHOT then COMPLETED else TASK_EXPIRED),
                             tk_next_run := None\<rparr>
                 | Some following \<Rightarrow> t\<lparr>tk_next_run := Some following\<rparr>)
               in store_task E now t' s))"

definition after_failure :: "environment \<Rightarrow> time \<Rightarrow> task \<Rightarrow> string \<Rightarrow> string \<Rightarrow> proactive_store
    \<Rightarrow> step_result" where
  "after_failure E now t outcome detail s =
     (let n = tk_failures t + 1;
          t1 = t\<lparr>tk_failures := n, tk_last_error := take_points 300 (outcome @ '': '' @ detail),
                 tk_retry_after := Some (now + backoff_after n)\<rparr>;
          t2 = (if n \<ge> MAX_FAILURES then t1\<lparr>tk_enabled := False, tk_state := PAUSED\<rparr> else t1)
      in store_task E now t2 s)"

text \<open>
  \<open>run_once\<close>; the first component of the result is the list of the calls of the runner. The awaits
  are: after the claim, during the run, after the run is finished, after the item is added.
\<close>

definition run_once :: "environment \<Rightarrow> task \<Rightarrow> time \<Rightarrow> proactive_store
    \<Rightarrow> (string \<times> time) list \<times> step_result" where
  "run_once E t occ s =
     (let rid = run_id_for (en_hash E) (tk_id t) occ;
          (granted, s1) = claim_run (en_clock E 0) (tk_id t) occ rid s
      in if \<not> granted then ([], advance E (en_clock E 1) t occ (en_others E 0 s1))
      else let s2 = en_others E 1 s1
      in ([(tk_id t, occ)],
        case en_runner E t occ rid of
          Run_timed_out \<Rightarrow> ((t, Some Timed_out), s2)
        | Run_raised name \<Rightarrow> ((t, Some (Raised_error name)), s2)
        | Ran out \<Rightarrow>
          let s3 = en_others E 2 (finish_run (en_clock E 2) rid (ro_state out) (ro_outcome out) (ro_detail out) s2);
              (added, s4) = (case ro_item out of None \<Rightarrow> (Inr False, s3)
                | Some it \<Rightarrow> (case add_item (en_vault E) it s3 of (r, s') \<Rightarrow> (r, en_others E 3 s')))
          in case added of
               Inl e \<Rightarrow> ((t, Some (Raised_error (exn_name e))), s4)
             | Inr _ \<Rightarrow>
               let t1 = t\<lparr>tk_last_run := Some (en_clock E 3)\<rparr>
               in if ro_state out = RUN_FAILED
                  then after_failure E (en_clock E 4) t1 (ro_outcome out) (ro_detail out) s4
                  else let t2 = t1\<lparr>tk_failures := 0, tk_retry_after := None,
                         tk_last_error := (if ro_state out = RUN_APPROVAL_PENDING then ''wartet auf Freigabe'' else []),
                         tk_last_result := Some [(''fingerprint'', Jstr (ro_fingerprint out)),
                                                 (''state'', Jstr (ro_state out))]\<rparr>
                  in advance E (en_clock E 4) t2 occ s4))"

text \<open>\<open>_guarded\<close>: an exception or a timeout of the occasion becomes a failure of the task.\<close>

definition guarded :: "environment \<Rightarrow> task \<Rightarrow> time \<Rightarrow> proactive_store
    \<Rightarrow> (string \<times> time) list \<times> step_result" where
  "guarded E t occ s =
     (let (calls, (t1, bad), s1) = run_once E t occ s
      in case bad of
           None \<Rightarrow> (calls, (t1, None), s1)
         | Some Timed_out \<Rightarrow> (calls, after_failure E (en_clock E 5) t1 ''timeout''
               ''device_or_service_unavailable:run_timeout'' (en_others E 4 s1))
         | Some (Raised_error name) \<Rightarrow>
             (calls, after_failure E (en_clock E 5) t1 ''error'' name (en_others E 4 s1)))"

section \<open>A round of the loop, and the start\<close>

text \<open>What \<open>poll\<close> starts: every due task that is not running already, at its occasion.\<close>

definition poll :: "string set \<Rightarrow> time \<Rightarrow> proactive_store \<Rightarrow> (task \<times> time) list" where
  "poll running now s = map (\<lambda>t. (t, case tk_next_run t of None \<Rightarrow> now
        | Some n \<Rightarrow> if n = 0 then now else n))
     (filter (\<lambda>t. tk_id t \<notin> running) (due_tasks now s))"

definition recover_runs :: "time \<Rightarrow> proactive_store \<Rightarrow> nat \<times> proactive_store" where
  "recover_runs now s =
     (let broken = unfinished_runs s
      in (length broken, fold (\<lambda>r. finish_run now (rn_id r) RUN_FAILED ''interrupted''
           (''Core endete waehrend des Laufs '' @ [CHR 0xE2, CHR 0x80, CHR 0x94] @ '' Ausgang unbekannt'')) broken s))"

definition recover_task :: "environment \<Rightarrow> time \<Rightarrow> task \<Rightarrow> nat \<times> proactive_store
    \<Rightarrow> (nat \<times> proactive_store) result" where
  "recover_task E now t acc =
     (case schedule_from_dict (en_text E) (en_zones E) (tk_schedule t) of
        Inl e \<Rightarrow> Inl e
      | Inr sd \<Rightarrow>
        (case (tk_next_run t, en_zones E (sd_timezone sd)) of
           (None, _) \<Rightarrow> Inr acc
         | (Some n, None) \<Rightarrow> Inr acc
         | (Some n, Some z) \<Rightarrow>
             if n > now then Inr acc
             else let (due, skipped) = catch_up z sd n now
             in (case due of
                   Some _ \<Rightarrow> Inr (fst acc + skipped, snd acc)
                 | None \<Rightarrow>
                     let t' = (case next_after z sd now of
                         None \<Rightarrow> t\<lparr>tk_next_run := None, tk_state := TASK_EXPIRED,
                                   tk_last_error := ''Gelegenheit verstrichen''\<rparr>
                       | Some m \<Rightarrow> t\<lparr>tk_next_run := Some m\<rparr>)
                     in case put_task (en_vault E) (en_text E) now t' (snd acc) of
                          (Inl e, _) \<Rightarrow> Inl e
                        | (Inr _, s') \<Rightarrow> Inr (fst acc + skipped, s'))))"

fun recover_tasks :: "environment \<Rightarrow> time \<Rightarrow> task list \<Rightarrow> nat \<times> proactive_store
    \<Rightarrow> (nat \<times> proactive_store) result" where
  "recover_tasks E now [] acc = Inr acc"
| "recover_tasks E now (t # ts) acc = (case recover_task E now t acc of
      Inl e \<Rightarrow> Inl e | Inr acc' \<Rightarrow> recover_tasks E now ts acc')"

text \<open>\<open>recover\<close>: how many runs were interrupted and how many occasions were skipped.\<close>

definition recover :: "environment \<Rightarrow> time \<Rightarrow> proactive_store \<Rightarrow> ((nat \<times> nat) \<times> proactive_store) result" where
  "recover E now s =
     (let (broken, s1) = recover_runs now s
      in case recover_tasks E now (list_tasks [] True s1) (0, s1) of
           Inl e \<Rightarrow> Inl e
         | Inr (coalesced, s2) \<Rightarrow> Inr ((broken, coalesced), s2))"

section \<open>An occasion is run once\<close>

lemma run_once_calls:
  "fst (run_once E t occ s) = (if fst (claim_run (en_clock E 0) (tk_id t) occ
      (run_id_for (en_hash E) (tk_id t) occ) s) then [(tk_id t, occ)] else [])"
  by (simp add: run_once_def Let_def split_def)

lemma guarded_calls: "fst (guarded E t occ s) = fst (run_once E t occ s)"
  by (simp add: guarded_def Let_def split_def split: option.splits failure.splits)

text \<open>
  C38: an occasion of a task is run at most once: as soon as one attempt has claimed it, every other
  attempt at it, from the same process, another one or one restarted after a crash, and at whatever
  point of the first attempt or later, never calls the runner, as long as the task is not deleted.
\<close>

theorem occasion_runs_at_most_once:
  assumes "fst (guarded E t occ s) \<noteq> []" and "tk_id t2 = tk_id t"
    and "reaches (store_moves V P (keeps_task (tk_id t)))
      (snd (claim_run (en_clock E 0) (tk_id t) occ (run_id_for (en_hash E) (tk_id t) occ) s)) s2"
  shows "fst (guarded E2 t2 occ s2) = []"
proof -
  obtain s1 where s1: "claim_run (en_clock E 0) (tk_id t) occ (run_id_for (en_hash E) (tk_id t) occ) s
      = (True, s1)"
    using assms(1) unfolding guarded_calls run_once_calls by (metis (full_types) prod.collapse)
  have "occasion_taken (tk_id t) occ s2"
    using claimed.reaches_mono [OF assms(3)] claim_takes [OF s1] s1 by simp
  then show ?thesis unfolding guarded_calls run_once_calls assms(2) by (simp add: claim_run_def)
qed

section \<open>Failures\<close>

lemma backoff_bounds: "300 \<le> backoff_after n \<and> backoff_after n \<le> 21600"
proof -
  have "(1::real) \<le> 2 ^ (n - 1)" by simp
  then show ?thesis by (simp add: backoff_after_def BACKOFF_BASE_def BACKOFF_CEILING_def)
qed

lemma backoff_mono: "m \<le> n \<Longrightarrow> backoff_after m \<le> backoff_after n"
proof -
  assume "m \<le> n"
  then have "(2::real) ^ (m - 1) \<le> 2 ^ (n - 1)" by (intro power_increasing) auto
  then show ?thesis unfolding backoff_after_def BACKOFF_BASE_def by linarith
qed

lemma store_task_task [simp]: "fst (fst (store_task E now t s)) = t"
  by (simp add: store_task_def split: prod.splits sum.splits)


section \<open>A task that ran is scheduled again\<close>

lemma get_task_upsert:
  "get_task (tk_id t) (upsert_task now t s) = Some (case get_task (tk_id t) s of
     None \<Rightarrow> stored_task t | Some old \<Rightarrow> overwrite_task (stored_task t) old)"
proof (cases "by_key tr_id (tk_id t) (ps_tasks s)")
  case None
  then have "\<not> has_task (tk_id t) s" by (simp add: has_task_def by_key_None_iff)
  moreover have "tr_id \<lparr>tr_task = stored_task t, tr_updated_at = now\<rparr> = tk_id t"
    by (simp add: tr_id_def stored_task_def)
  ultimately show ?thesis
    using None by (simp add: upsert_task_def get_task_def by_key_append by_key_Cons)
next
  case (Some r)
  then have "has_task (tk_id t) s" "tr_id r = tk_id t"
    using by_key_SomeD [OF Some] by (auto simp: has_task_def intro: rev_image_eqI)
  moreover have "by_key tr_id (tk_id t) (update_where (\<lambda>r. tr_id r = tk_id t)
      (\<lambda>r. \<lparr>tr_task = overwrite_task (stored_task t) (tr_task r), tr_updated_at = now\<rparr>) (ps_tasks s))
    = map_option (\<lambda>r. if tr_id r = tk_id t
        then \<lparr>tr_task = overwrite_task (stored_task t) (tr_task r), tr_updated_at = now\<rparr> else r)
      (by_key tr_id (tk_id t) (ps_tasks s))"
    by (rule by_key_update_if) (simp add: tr_id_def overwrite_task_def stored_task_def)
  ultimately show ?thesis using Some by (simp add: upsert_task_def get_task_def)
qed

text \<open>A stored task is due exactly when the object that was stored is.\<close>

lemma task_due_stored: "\<exists>row. get_task (tk_id t) (upsert_task now t s) = Some row \<and>
    (\<forall>later. task_due later row = task_due later t)"
  unfolding get_task_upsert
  by (cases "get_task (tk_id t) s") (auto simp: task_due_def stored_task_def overwrite_task_def)

lemma schedule_from_dict_checked:
  "schedule_from_dict P zones data = Inr sd \<Longrightarrow> check_schedule zones sd = Inr ()"
  by (auto simp: schedule_from_dict_def Let_def split: option.splits sum.splits)

definition accepts_task :: "environment \<Rightarrow> task \<Rightarrow> bool" where
  "accepts_task E t \<longleftrightarrow> refuse_credentials (en_vault E) [tk_title t, tk_created_from t,
     json_print '', '' '': '' (pt_float (en_text E)) (Jdict (tk_action t))] = Inr ()"

lemma store_task_accepted:
  "accepts_task E t \<Longrightarrow> store_task E now t s = ((t, None), upsert_task now t s)"
  by (simp add: store_task_def put_task_def accepts_task_def)

lemma advance_recurring:
  assumes "schedule_from_dict (en_text E) (en_zones E) (tk_schedule t) = Inr sd" "recurring sd"
    and "en_zones E (sd_timezone sd) = Some z" "lawful_zone z" "accepts_task E t"
  shows "\<exists>m. max occ now < m \<and> advance E now t occ s
     = ((t\<lparr>tk_next_run := Some m\<rparr>, None), upsert_task now (t\<lparr>tk_next_run := Some m\<rparr>) s)"
proof -
  have ok: "check_schedule (en_zones E) sd = Inr ()" by (rule schedule_from_dict_checked [OF assms(1)])
  obtain m where m: "next_after z sd (max occ now) = Some m" "max occ now < m"
    using goes_on [OF ok assms(2,4)] by blast
  moreover have "accepts_task E (t\<lparr>tk_next_run := Some m\<rparr>)"
    using assms(5) by (simp add: accepts_task_def)
  ultimately show ?thesis using assms(1,3)
    by (auto simp: advance_def store_task_accepted)
qed


section \<open>Witnesses, and two ways it goes wrong\<close>

definition demo_environment :: "run_end \<Rightarrow> (nat \<Rightarrow> proactive_store \<Rightarrow> proactive_store) \<Rightarrow> time \<Rightarrow> environment" where
  "demo_environment result others now =
     \<lparr>en_hash = (\<lambda>_. ''h''), en_text = demo_text, en_vault = no_secrets, en_zones = (\<lambda>_. Some utc),
      en_others = others, en_clock = (\<lambda>_. now), en_runner = (\<lambda>_ _ _. result)\<rparr>"

definition demo_outcome :: "string \<Rightarrow> run_outcome" where
  "demo_outcome st = \<lparr>ro_state = st, ro_outcome = ''executor_unavailable'',
     ro_detail = ''device_or_service_unavailable'', ro_item = None, ro_fingerprint = ''id:1''\<rparr>"

definition interval_task :: task where
  "interval_task = demo_task\<lparr>tk_schedule := schedule_as_dict (demo_schedule), tk_failures := 3\<rparr>"

lemma interval_runs: "fst (run_once (demo_environment (Ran (demo_outcome RUN_DONE)) (\<lambda>_ s. s) 2001)
    interval_task 2000 demo_proactive) \<noteq> []"
  unfolding run_once_calls by code_simp


theorem occasion_runs_at_most_once_witness:
  "fst (guarded (demo_environment Run_timed_out (\<lambda>_ s. s) 9000) interval_task 2000
     (snd (claim_run 2001 ''task-1'' 2000 (run_id_for (\<lambda>_. ''h'') ''task-1'' 2000) demo_proactive))) = []"
proof (rule occasion_runs_at_most_once)
  show "fst (guarded (demo_environment (Ran (demo_outcome RUN_DONE)) (\<lambda>_ s. s) 2001)
      interval_task 2000 demo_proactive) \<noteq> []"
    unfolding guarded_calls by (rule interval_runs)
  show "reaches (store_moves no_secrets demo_text (keeps_task (tk_id interval_task)))
     (snd (claim_run (en_clock (demo_environment (Ran (demo_outcome RUN_DONE)) (\<lambda>_ s. s) 2001) 0)
       (tk_id interval_task) 2000 (run_id_for (en_hash (demo_environment (Ran (demo_outcome RUN_DONE))
          (\<lambda>_ s. s) 2001)) (tk_id interval_task) 2000) demo_proactive))
     (snd (claim_run 2001 ''task-1'' 2000 (run_id_for (\<lambda>_. ''h'') ''task-1'' 2000) demo_proactive))"
    by (simp add: demo_environment_def interval_task_def demo_task_def reaches.start)
qed simp

text \<open>
  The retry that is never made. A one-shot task fails because a service is away for a moment; the
  failure sets a time to try again, but the occasion stays claimed, so the next round finds it taken
  and moves on: the task ends as completed, with the runner called once, for the failure.
\<close>

definition one_shot_task :: task where
  "one_shot_task = demo_task\<lparr>tk_schedule := [(''art'', Jstr ''one_shot''), (''zeitzone'', Jstr ''UTC''),
     (''zeitpunkt'', Jreal 2000)]\<rparr>"

definition one_shot_store :: proactive_store where
  "one_shot_store = snd (put_task no_secrets demo_text 1000 one_shot_task empty_proactive)"

definition failed_once :: proactive_store where
  "failed_once = snd (snd (guarded (demo_environment (Ran (demo_outcome RUN_FAILED)) (\<lambda>_ s. s) 2001)
     one_shot_task 2000 one_shot_store))"

text \<open>
  A failed occasion is never tried again: a one-shot task whose only run failed is due once more
  after its backoff, but that attempt calls the runner not at all and records the task as completed.
\<close>

theorem failed_task_is_reported_completed:
  "poll {} 2301 failed_once = [(the (get_task ''task-1'' failed_once), 2000)] \<and>
   map rn_state (ps_runs failed_once) = [RUN_FAILED] \<and>
   (let (calls, result, s) = guarded (demo_environment (Ran (demo_outcome RUN_DONE)) (\<lambda>_ s. s) 2301)
      (the (get_task ''task-1'' failed_once)) 2000 failed_once
    in calls = [] \<and> map_option tk_state (get_task ''task-1'' s) = Some COMPLETED \<and>
       map rn_state (ps_runs s) = [RUN_FAILED])"
  by code_simp

text \<open>
  The task that comes back. A task is deleted while its run is on; when the run ends, the scheduler
  writes its own copy of the task, and the row is there again.
\<close>

definition deletes_meanwhile :: "nat \<Rightarrow> proactive_store \<Rightarrow> proactive_store" where
  "deletes_meanwhile i s = (if i = 1 then snd (delete_task ''task-1'' s) else s)"

text \<open>
  A task that its owner deletes while it runs is back afterwards, enabled and with a next
  occasion, because the run that ends writes the whole task it read before.
\<close>

theorem deleted_task_comes_back:
  "(let (calls, result, s) = guarded
      (demo_environment (Ran (demo_outcome RUN_DONE)) deletes_meanwhile 2001) interval_task 2000 demo_proactive
    in map_option task_running (get_task ''task-1'' s) = Some True \<and>
       (case get_task ''task-1'' s of None \<Rightarrow> False | Some t \<Rightarrow> tk_next_run t \<noteq> None))"
  by code_simp


end
