(* ===== verification/Payment_Text.thy ===== *)
theory Payment_Text
  imports Protocol Json_Canonical
begin

text \<open>
  The vocabulary of a payment: \<open>payment/refs.py\<close>, \<open>payment/merchant.py\<close> and the texts, amounts and
  currencies of \<open>payment/intent.py\<close>. Amounts are Python integers in minor units. What the standard
  library decides about Unicode, URLs and floats, the hash function and the recogniser of payment
  material (\<open>payment/firewall.py\<close>) are parameters, collected in one record.
\<close>

section \<open>The parameters and the errors\<close>

record url_parts =
  up_scheme :: string
  up_path :: string
  up_query :: string
  up_fragment :: string
  up_username :: "string option"
  up_password :: "string option"
  up_host :: "string option"
  up_port :: "int option option"

record payment_world =
  pw_nfc :: "string \<Rightarrow> string"
  pw_lower :: "string \<Rightarrow> string"
  pw_upper :: "string \<Rightarrow> string"
  pw_split :: "string \<Rightarrow> url_parts option"
  pw_idna :: "string \<Rightarrow> string option"
  pw_sha256 :: "string \<Rightarrow> string"
  pw_float :: "real \<Rightarrow> string"
  pw_round3 :: "real \<Rightarrow> real"
  pw_material :: "string \<Rightarrow> bool"
  pw_iso :: "time \<Rightarrow> string"

datatype payment_exn =
    Intent_error string
  | Illegal_move string
  | Invalid_merchant string
  | Invalid_ref string
  | Bad_value string
  | Material_refused
  | Duplicate_charge
  | Integrity_violation

text \<open>Statements of a constructor that may raise: the first error ends it.\<close>

definition check :: "bool \<Rightarrow> payment_exn \<Rightarrow> payment_exn + 'a \<Rightarrow> payment_exn + 'a" where
  "check bad e rest = (if bad then Inl e else rest)"

definition on_ok :: "payment_exn + 'a \<Rightarrow> ('a \<Rightarrow> payment_exn + 'b) \<Rightarrow> payment_exn + 'b" where
  "on_ok r f = (case r of Inl e \<Rightarrow> Inl e | Inr x \<Rightarrow> f x)"

lemma check_simps [simp]: "check True e r = Inl e" "check False e r = r"
  by (simp_all add: check_def)

lemma check_ok [simp]: "\<not> bad \<Longrightarrow> check bad e r = r"
  by simp

lemma check_InrE: "check bad e r = Inr y \<Longrightarrow> (\<not> bad \<Longrightarrow> r = Inr y \<Longrightarrow> P) \<Longrightarrow> P"
  by (cases bad) simp_all

lemma check_Inr_iff: "check bad e r = Inr y \<longleftrightarrow> \<not> bad \<and> r = Inr y"
  by (simp add: check_def)

lemma on_ok_simps [simp]: "on_ok (Inl e) f = Inl e" "on_ok (Inr x) f = f x"
  by (simp_all add: on_ok_def)

lemma on_okE: "on_ok r f = Inr y \<Longrightarrow> (\<And>x. r = Inr x \<Longrightarrow> f x = Inr y \<Longrightarrow> P) \<Longrightarrow> P"
  by (cases r) simp_all

lemma on_ok_Inr_iff: "on_ok r f = Inr y \<longleftrightarrow> (\<exists>x. r = Inr x \<and> f x = Inr y)"
  by (cases r) simp_all

fun each_ok :: "('a \<Rightarrow> payment_exn + 'b) \<Rightarrow> 'a list \<Rightarrow> payment_exn + 'b list" where
  "each_ok f [] = Inr []"
| "each_ok f (x # xs) = on_ok (f x) (\<lambda>y. on_ok (each_ok f xs) (\<lambda>ys. Inr (y # ys)))"

lemma each_ok_id: "(\<And>x. x \<in> set xs \<Longrightarrow> f x = Inr x) \<Longrightarrow> each_ok f xs = Inr xs"
  by (induction xs) auto

lemma each_ok_Inr_set: "each_ok f xs = Inr ys \<Longrightarrow> y \<in> set ys \<Longrightarrow> \<exists>x\<in>set xs. f x = Inr y"
  by (induction xs arbitrary: ys) (auto simp: on_ok_Inr_iff)

section \<open>Text\<close>

text \<open>\<open>str.strip()\<close> on UTF-8: the white space of ASCII, and that of two and of three bytes.\<close>

definition WIDE_SPACES :: "string list" where
  "WIDE_SPACES = map (map char_of) ([[0xC2, 0x85], [0xC2, 0xA0], [0xE1, 0x9A, 0x80], [0xE2, 0x80, 0xA8],
     [0xE2, 0x80, 0xA9], [0xE2, 0x80, 0xAF], [0xE2, 0x81, 0x9F], [0xE3, 0x80, 0x80]]
     @ map (\<lambda>n. [0xE2, 0x80, n]) [0x80, 0x81, 0x82, 0x83, 0x84, 0x85, 0x86, 0x87, 0x88, 0x89, 0x8A :: nat])"

fun starts_with :: "string \<Rightarrow> string \<Rightarrow> bool" where
  "starts_with [] s = True"
| "starts_with (c # p) s = (case s of [] \<Rightarrow> False | d # r \<Rightarrow> c = d \<and> starts_with p r)"

text \<open>Drop white space from the front; \<open>rest\<close> counts what is left of the last character dropped.\<close>

fun drop_spaces :: "string list \<Rightarrow> nat \<Rightarrow> string \<Rightarrow> string" where
  "drop_spaces wide rest [] = []"
| "drop_spaces wide (Suc rest) (c # r) = drop_spaces wide rest r"
| "drop_spaces wide 0 (c # r) =
     (if str_space c then drop_spaces wide 0 r
      else case List.find (\<lambda>w. starts_with w (c # r)) wide of
        None \<Rightarrow> c # r | Some w \<Rightarrow> drop_spaces wide (length w - 1) r)"

definition strip :: "string \<Rightarrow> string" where
  "strip s = rev (drop_spaces (map rev WIDE_SPACES) 0 (rev (drop_spaces WIDE_SPACES 0 s)))"

fun split_on :: "char \<Rightarrow> string \<Rightarrow> string list" where
  "split_on c [] = [[]]"
| "split_on c (x # xs) = (if x = c then [] # split_on c xs
     else (case split_on c xs of [] \<Rightarrow> [[x]] | p # ps \<Rightarrow> (x # p) # ps))"

definition text_length :: "string \<Rightarrow> nat" where
  "text_length s = length (code_points s)"

definition FORBIDDEN_POINTS :: "nat list" where
  "FORBIDDEN_POINTS = [0x061C, 0x200E, 0x200F, 0xFEFF]"

fun clean_points :: "string \<Rightarrow> nat list \<Rightarrow> payment_exn + unit" where
  "clean_points what [] = Inr ()"
| "clean_points what (n # ns) =
     check (n < 0x20 \<and> n \<noteq> 9 \<and> n \<noteq> 10) (Intent_error (what @ '' contains a control character''))
     (check (0x7F \<le> n \<and> n \<le> 0x9F) (Intent_error (what @ '' contains a control character''))
     (check (n \<in> set FORBIDDEN_POINTS \<or> (0x202A \<le> n \<and> n \<le> 0x202E) \<or> (0x2066 \<le> n \<and> n \<le> 0x2069))
        (Intent_error (what @ '' contains a bidi control''))
     (check (n = 0x2028 \<or> n = 0x2029) (Intent_error (what @ '' contains a line separator''))
     (clean_points what ns))))"

definition clean_text :: "payment_world \<Rightarrow> nat \<Rightarrow> string \<Rightarrow> string \<Rightarrow> payment_exn + string" where
  "clean_text W limit what v =
     (let t = strip (pw_nfc W v) in
      check (t = []) (Intent_error (what @ '' must not be empty''))
      (check (text_length t > limit) (Intent_error (what @ '' is too long''))
      (on_ok (clean_points what (code_points t)) (\<lambda>_. Inr t))))"

text \<open>\<open>if x: x = clean(x)\<close>, for a text that may be left empty.\<close>

definition clean_if_given :: "payment_world \<Rightarrow> nat \<Rightarrow> string \<Rightarrow> string \<Rightarrow> payment_exn + string" where
  "clean_if_given W limit what v = (if v = [] then Inr [] else clean_text W limit what v)"

section \<open>Amounts and currencies\<close>

definition MAX_AMOUNT_MINOR :: int where "MAX_AMOUNT_MINOR = 100000000"

definition amount :: "string \<Rightarrow> bool \<Rightarrow> int \<Rightarrow> payment_exn + int" where
  "amount what allow_negative v =
     check (\<not> allow_negative \<and> v < 0) (Intent_error (what @ '' must not be negative''))
     (check (\<bar>v\<bar> > MAX_AMOUNT_MINOR) (Intent_error (what @ '' is out of range'')) (Inr v))"

definition EXPONENT_TWO :: "string list" where
  "EXPONENT_TWO = [''EUR'', ''USD'', ''GBP'', ''CHF'', ''SEK'', ''NOK'', ''DKK'', ''PLN'', ''CZK'', ''CAD'',
     ''AUD'', ''NZD'', ''SGD'', ''HKD'', ''ZAR'', ''BRL'', ''MXN'', ''TRY'', ''ILS'', ''RON'']"

text \<open>\<open>re.match("^[A-Z]{3}$")\<close>: the dollar also matches in front of a newline at the end.\<close>

definition currency_form :: "string \<Rightarrow> bool" where
  "currency_form s \<longleftrightarrow> (let t = (if s \<noteq> [] \<and> last s = CHR 0x0A then butlast s else s) in
     length t = 3 \<and> (\<forall>c\<in>set t. 65 \<le> code c \<and> code c \<le> 90))"

definition normalize_currency :: "payment_world \<Rightarrow> string \<Rightarrow> payment_exn + string" where
  "normalize_currency W v = (let c = pw_upper W (strip v) in
     check (\<not> currency_form c) (Intent_error ''currency must be an ISO 4217 alphabetic code'')
     (check (c \<notin> set EXPONENT_TWO) (Intent_error ''currency is not one of the two-decimal currencies'')
     (Inr c)))"

text \<open>\<open>f"{n:02d}"\<close>, \<open>f"{n:,}"\<close> with dots, and the amount as a human reads it.\<close>

definition pad :: "nat \<Rightarrow> nat \<Rightarrow> string" where
  "pad w n = (let d = decimal n in replicate (w - length d) CHR ''0'' @ d)"

fun grouped :: "nat \<Rightarrow> string" where
  "grouped n = (if n < 1000 then decimal n else grouped (n div 1000) @ ''.'' @ pad 3 (n mod 1000))"

declare grouped.simps [simp del]

definition format_amount :: "payment_world \<Rightarrow> int \<Rightarrow> string \<Rightarrow> payment_exn + string" where
  "format_amount W v currency = on_ok (normalize_currency W currency) (\<lambda>c.
     (let n = nat \<bar>v\<bar> in
      Inr ((if v < 0 then ''-'' else []) @ grouped (n div 100) @ '','' @ pad 2 (n mod 100) @ '' '' @ c)))"

section \<open>References\<close>

definition part_char :: "char \<Rightarrow> bool" where
  "part_char c \<longleftrightarrow> (97 \<le> code c \<and> code c \<le> 122) \<or> (48 \<le> code c \<and> code c \<le> 57)"

definition part_inner :: "char \<Rightarrow> bool" where
  "part_inner c \<longleftrightarrow> part_char c \<or> c \<in> set ''._-''"

definition plain_part :: "string \<Rightarrow> bool" where
  "plain_part s \<longleftrightarrow> s \<noteq> [] \<and> length s \<le> 64 \<and> part_char (hd s) \<and> part_char (last s) \<and> list_all part_inner s"

text \<open>\<open>_PART.match\<close>: again the dollar lets one newline at the end through.\<close>

definition part_ok :: "string \<Rightarrow> bool" where
  "part_ok s \<longleftrightarrow> plain_part s \<or> (s \<noteq> [] \<and> last s = CHR 0x0A \<and> plain_part (butlast s))"

definition MAX_REF_LENGTH :: nat where "MAX_REF_LENGTH = 160"

record reference =
  rf_purpose :: string
  rf_name :: string

definition ref_text :: "string \<Rightarrow> reference \<Rightarrow> string" where
  "ref_text scheme r = scheme @ ''://'' @ rf_purpose r @ ''/'' @ rf_name r"

definition make_reference :: "string \<Rightarrow> string \<Rightarrow> string \<Rightarrow> payment_exn + reference" where
  "make_reference scheme p n =
     check (\<not> part_ok p) (Invalid_ref ''purpose part is not a valid name'')
     (check (\<not> part_ok n) (Invalid_ref ''name part is not a valid name'')
     (let r = \<lparr>rf_purpose = p, rf_name = n\<rparr> in
      check (text_length (ref_text scheme r) > MAX_REF_LENGTH) (Invalid_ref ''reference is too long'')
      (Inr r)))"

definition parse_ref :: "payment_world \<Rightarrow> string \<Rightarrow> string \<Rightarrow> payment_exn + reference" where
  "parse_ref W scheme v =
     (let stripped = strip v in
      check (text_length stripped > MAX_REF_LENGTH) (Invalid_ref ''reference is too long'')
      (let lowered = pw_lower W stripped; prefix = scheme @ ''://'' in
       check (\<not> starts_with prefix lowered) (Invalid_ref (''reference does not start with '' @ prefix))
       (case split_on CHR ''/'' (drop (length prefix) lowered) of
          [p, n] \<Rightarrow> make_reference scheme p n
        | _ \<Rightarrow> Inl (Invalid_ref ''reference must have exactly one purpose and one name''))))"

definition PAYMENT_SCHEME :: string where "PAYMENT_SCHEME = ''payment''"
definition SECRET_SCHEME :: string where "SECRET_SCHEME = ''secret''"

text \<open>\<open>str(parse(x))\<close>, the form a reference is stored in.\<close>

definition canonical_ref :: "payment_world \<Rightarrow> string \<Rightarrow> string \<Rightarrow> payment_exn + string" where
  "canonical_ref W scheme v = on_ok (parse_ref W scheme v) (\<lambda>r. Inr (ref_text scheme r))"

section \<open>Merchants\<close>

record merchant =
  mc_id :: string
  mc_display_name :: string
  mc_origin :: string

fun contains_pair :: "char \<Rightarrow> char \<Rightarrow> string \<Rightarrow> bool" where
  "contains_pair a b (x # y # r) = ((x = a \<and> y = b) \<or> contains_pair a b (y # r))"
| "contains_pair a b _ = False"

definition normalize_host :: "payment_world \<Rightarrow> string \<Rightarrow> payment_exn + string" where
  "normalize_host W host =
     (case pw_idna W (if last host = CHR ''.'' then butlast host else host) of
        None \<Rightarrow> Inl (Invalid_merchant ''host is not a valid international domain'')
      | Some h \<Rightarrow> (let a = pw_lower W h in
          check (a = [] \<or> contains_pair CHR ''.'' CHR ''.'' a) (Invalid_merchant ''host is not a valid domain'')
          (Inr a)))"

definition origin_text :: "string \<Rightarrow> int option option \<Rightarrow> payment_exn + string" where
  "origin_text host port = (case port of
       None \<Rightarrow> Inl (Invalid_merchant ''port is not a number'')
     | Some None \<Rightarrow> Inr (''https://'' @ host)
     | Some (Some p) \<Rightarrow>
         (if p = 443 then Inr (''https://'' @ host)
          else check (\<not> (0 < p \<and> p < 65536)) (Invalid_merchant ''port is out of range'')
            (Inr (''https://'' @ host @ '':'' @ int_text p))))"

definition normalize_origin :: "payment_world \<Rightarrow> string \<Rightarrow> payment_exn + string" where
  "normalize_origin W v =
     (let raw = strip v in
      check (raw = [] \<or> text_length raw > 255) (Invalid_merchant ''origin has an implausible length'')
      (check (CHR 0x5C \<in> set raw \<or> (\<exists>c\<in>set raw. code c < 0x20 \<or> code c = 0x7F))
         (Invalid_merchant ''origin contains a control character'')
      (case pw_split W raw of
         None \<Rightarrow> Inl (Bad_value ''urlsplit'')
       | Some u \<Rightarrow>
           check (pw_lower W (up_scheme u) \<noteq> ''https'') (Invalid_merchant ''origin must be https'')
           (check (up_path u \<notin> {[], ''/''} \<or> up_query u \<noteq> [] \<or> up_fragment u \<noteq> [])
              (Invalid_merchant ''origin must not carry a path, query or fragment'')
           (check (truthy (up_username u) \<or> truthy (up_password u))
              (Invalid_merchant ''origin must not carry userinfo'')
           (check (or_empty (up_host u) = []) (Invalid_merchant ''origin has no host'')
           (on_ok (normalize_host W (or_empty (up_host u))) (\<lambda>h. origin_text h (up_port u)))))))))"

text \<open>\<open>except InvalidMerchant: return default\<close>; the error of \<open>urlsplit\<close> is another one and escapes.\<close>

fun unless_invalid :: "'a \<Rightarrow> payment_exn + 'a \<Rightarrow> payment_exn + 'a" where
  "unless_invalid d (Inl (Invalid_merchant _)) = Inr d"
| "unless_invalid d r = r"

definition same_origin :: "payment_world \<Rightarrow> string \<Rightarrow> string \<Rightarrow> payment_exn + bool" where
  "same_origin W a b = unless_invalid False
     (on_ok (normalize_origin W a) (\<lambda>x. on_ok (normalize_origin W b) (\<lambda>y. Inr (x = y))))"

text \<open>The list of merchants; its one origin is in canonical form.\<close>

definition MERCHANTS :: "merchant list" where
  "MERCHANTS = [\<lparr>mc_id = ''sandbox-shop'', mc_display_name = ''SOLVIO Testladen'',
     mc_origin = ''https://sandbox.solvio.invalid''\<rparr>]"

definition merchant_for_id :: "payment_world \<Rightarrow> string \<Rightarrow> merchant option" where
  "merchant_for_id W m = List.find (\<lambda>x. mc_id x = pw_lower W (strip m)) MERCHANTS"

definition merchant_for_origin :: "payment_world \<Rightarrow> string \<Rightarrow> payment_exn + merchant option" where
  "merchant_for_origin W v = unless_invalid None (on_ok (normalize_origin W v)
     (\<lambda>canonical. Inr (List.find (\<lambda>m. mc_origin m = canonical) MERCHANTS)))"

definition resolve_merchant :: "payment_world \<Rightarrow> string \<Rightarrow> string \<Rightarrow> payment_exn + merchant" where
  "resolve_merchant W m v = (case merchant_for_id W m of
       None \<Rightarrow> Inl (Invalid_merchant ''unknown merchant'')
     | Some found \<Rightarrow> on_ok (normalize_origin W v) (\<lambda>o1.
         check (mc_origin found \<noteq> o1)
           (Invalid_merchant ''merchant origin does not match the registered merchant'') (Inr found)))"

section \<open>Stripping\<close>

lemma starts_with_iff: "starts_with p s \<longleftrightarrow> (\<exists>r. s = p @ r)"
  by (induction p s rule: starts_with.induct) (auto split: list.splits)

lemma drop_spaces_suffix: "\<exists>p. s = p @ drop_spaces wide n s"
proof (induction wide n s rule: drop_spaces.induct)
  case (3 wide c r)
  show ?case
  proof (cases "str_space c")
    case True
    with 3(1) obtain p where "r = p @ drop_spaces wide 0 r" by blast
    with True have "c # r = (c # p) @ drop_spaces wide 0 (c # r)" by simp
    then show ?thesis by blast
  next
    case False
    show ?thesis
    proof (cases "List.find (\<lambda>w. starts_with w (c # r)) wide")
      case (Some w)
      with 3(2) [OF False Some] obtain p where "r = p @ drop_spaces wide (length w - 1) r" by blast
      with False Some have "c # r = (c # p) @ drop_spaces wide 0 (c # r)" by simp
      then show ?thesis by blast
    qed (use False in simp)
  qed
next
  case (2 wide n c r)
  then obtain p where "r = p @ drop_spaces wide n r" by blast
  then have "c # r = (c # p) @ drop_spaces wide (Suc n) (c # r)" by simp
  then show ?case by blast
qed simp

lemma drop_spaces_idem: "drop_spaces wide 0 (drop_spaces wide n s) = drop_spaces wide n s"
  by (induction wide n s rule: drop_spaces.induct) (auto split: option.split)

text \<open>A text that begins with no white space keeps all of its prefixes.\<close>

lemma drop_spaces_prefix:
  assumes "drop_spaces wide 0 (u @ v) = u @ v" "[] \<notin> set wide"
  shows "drop_spaces wide 0 u = u"
proof (cases u)
  case (Cons c r)
  have shorter: "length (drop_spaces wide n s) \<le> length s" for n s
    using drop_spaces_suffix [of s wide n] by (metis le_add2 length_append)
  have not_space: "\<not> str_space c"
    using assms(1) Cons shorter [of 0 "r @ v"] by (auto split: if_splits)
  have none: "List.find (\<lambda>w. starts_with w ((c # r) @ v)) wide = None"
  proof (rule ccontr)
    assume "\<not> ?thesis"
    then obtain w where w: "List.find (\<lambda>w. starts_with w (c # r @ v)) wide = Some w" by auto
    with assms(1) Cons not_space have "drop_spaces wide (length w - 1) (r @ v) = c # r @ v" by simp
    with shorter [of "length w - 1" "r @ v"] show False by simp
  qed
  then have "List.find (\<lambda>w. starts_with w (c # r)) wide = None"
    by (auto simp: find_None_iff starts_with_iff) (metis append_Cons append_assoc)
  with Cons not_space show ?thesis by simp
qed simp

lemma strip_idem [simp]: "strip (strip s) = strip s"
proof -
  let ?a = "drop_spaces WIDE_SPACES 0 s" and ?W = "map rev WIDE_SPACES"
  let ?u = "rev (drop_spaces ?W 0 (rev ?a))"
  have "[] \<notin> set WIDE_SPACES" by (simp add: WIDE_SPACES_def)
  moreover obtain p where "rev ?a = p @ drop_spaces ?W 0 (rev ?a)" using drop_spaces_suffix by blast
  then have "?a = ?u @ rev p" by (metis rev_append rev_rev_ident)
  moreover have "drop_spaces WIDE_SPACES 0 ?a = ?a" by (rule drop_spaces_idem)
  ultimately have "drop_spaces WIDE_SPACES 0 ?u = ?u" using drop_spaces_prefix [of WIDE_SPACES ?u "rev p"] by simp
  then show ?thesis by (simp add: strip_def drop_spaces_idem)
qed

lemma wide_spaces: "list_all (\<lambda>w. w \<noteq> [] \<and> 128 \<le> code (hd w) \<and> 128 \<le> code (last w)) WIDE_SPACES"
  by (simp add: WIDE_SPACES_def code_def)

lemma drop_no_space:
  assumes "list_all (\<lambda>w. w \<noteq> [] \<and> 128 \<le> code (hd w)) wide" "\<not> str_space c" "code c < 128"
  shows "drop_spaces wide 0 (c # r) = c # r"
proof -
  have "\<not> starts_with w (c # r)" if "w \<in> set wide" for w
    using assms(1,3) that by (cases w) (auto simp: list_all_iff starts_with_iff)
  then have "List.find (\<lambda>w. starts_with w (c # r)) wide = None" by (auto simp: find_None_iff)
  with assms(2) show ?thesis by simp
qed

text \<open>A text with printable ASCII at both ends is left as it is.\<close>

definition bare :: "string \<Rightarrow> bool" where
  "bare s \<longleftrightarrow> s \<noteq> [] \<and> \<not> str_space (hd s) \<and> code (hd s) < 128 \<and> \<not> str_space (last s) \<and> code (last s) < 128"

lemma strip_bare: "bare s \<Longrightarrow> strip s = s"
proof -
  assume b: "bare s"
  have "drop_spaces WIDE_SPACES 0 s = s"
    using b wide_spaces drop_no_space [of WIDE_SPACES "hd s" "tl s"]
    by (auto simp: bare_def list_all_iff)
  moreover have "list_all (\<lambda>w. w \<noteq> [] \<and> 128 \<le> code (hd w)) (map rev WIDE_SPACES)"
    using wide_spaces by (auto simp: list_all_iff hd_rev)
  then have "drop_spaces (map rev WIDE_SPACES) 0 (rev s) = rev s"
    using b drop_no_space [of "map rev WIDE_SPACES" "last s" "rev (butlast s)"]
    by (cases s rule: rev_cases) (auto simp: bare_def)
  ultimately show ?thesis by (simp add: strip_def)
qed

section \<open>What the standard library promises\<close>

definition ascii :: "string \<Rightarrow> bool" where
  "ascii s \<longleftrightarrow> list_all (\<lambda>c. code c < 128) s"

definition ascii_lower :: "char \<Rightarrow> char" where
  "ascii_lower c = (if 65 \<le> code c \<and> code c \<le> 90 then char_of (code c + 32) else c)"

definition ascii_upper :: "char \<Rightarrow> char" where
  "ascii_upper c = (if 97 \<le> code c \<and> code c \<le> 122 then char_of (code c - 32) else c)"

text \<open>
  Any part of a normalised text is normalised; case mapping of ASCII is the familiar one and brings no
  white space to an end of a text; and the one registered origin is split as the documentation of
  \<open>urllib.parse\<close> says.
\<close>

definition stdlib_laws :: "payment_world \<Rightarrow> bool" where
  "stdlib_laws W \<longleftrightarrow>
     (\<forall>s. pw_nfc W (strip (pw_nfc W s)) = strip (pw_nfc W s)) \<and>
     (\<forall>s. ascii s \<longrightarrow> pw_lower W s = map ascii_lower s) \<and>
     (\<forall>s. ascii s \<longrightarrow> pw_upper W s = map ascii_upper s) \<and>
     (\<forall>s. strip s = s \<longrightarrow> strip (pw_lower W s) = pw_lower W s) \<and>
     pw_split W ''https://sandbox.solvio.invalid'' = Some \<lparr>up_scheme = ''https'', up_path = [],
        up_query = [], up_fragment = [], up_username = None, up_password = None,
        up_host = Some ''sandbox.solvio.invalid'', up_port = Some None\<rparr> \<and>
     pw_idna W ''sandbox.solvio.invalid'' = Some ''sandbox.solvio.invalid''"

lemma lower_ascii: "stdlib_laws W \<Longrightarrow> ascii s \<Longrightarrow> pw_lower W s = map ascii_lower s"
  by (simp add: stdlib_laws_def)

lemma clean_text_again:
  assumes "stdlib_laws W" "clean_text W limit what v = Inr t"
  shows "clean_text W limit what t = Inr t" and "t \<noteq> []"
proof -
  from assms(2) have t: "t = strip (pw_nfc W v)" and ne: "t \<noteq> []"
    by (auto simp: clean_text_def Let_def check_Inr_iff on_ok_Inr_iff)
  have "pw_nfc W t = t" using assms(1) t by (simp add: stdlib_laws_def)
  then have "strip (pw_nfc W t) = strip (pw_nfc W v)" using t by simp
  with assms(2) show "clean_text W limit what t = Inr t" by (simp add: clean_text_def)
  from ne show "t \<noteq> []" .
qed

lemma clean_if_given_again:
  assumes "stdlib_laws W" "clean_if_given W limit what v = Inr t"
  shows "clean_if_given W limit what t = Inr t"
  using assms clean_text_again [OF assms(1)] by (auto simp: clean_if_given_def split: if_splits)

lemma amount_Inr_iff: "amount what neg v = Inr w \<longleftrightarrow> w = v \<and> (neg \<or> 0 \<le> v) \<and> \<bar>v\<bar> \<le> MAX_AMOUNT_MINOR"
  by (auto simp: amount_def check_Inr_iff)

lemma amount_ok [simp]: "neg \<or> 0 \<le> v \<Longrightarrow> \<bar>v\<bar> \<le> MAX_AMOUNT_MINOR \<Longrightarrow> amount what neg v = Inr v"
  by (simp add: amount_Inr_iff)

lemma amountD: "amount what neg v = Inr w \<Longrightarrow> w = v"
  by (simp add: amount_Inr_iff)

lemma currency_listed: "normalize_currency W v = Inr c \<Longrightarrow> c \<in> set EXPONENT_TWO"
  by (auto simp: normalize_currency_def Let_def check_Inr_iff)

lemma listed_currency:
  assumes "stdlib_laws W" "c \<in> set EXPONENT_TWO"
  shows "normalize_currency W c = Inr c"
proof -
  have "list_all (\<lambda>c. bare c \<and> ascii c \<and> map ascii_upper c = c \<and> currency_form c) EXPONENT_TWO"
    by code_simp
  with assms(2) have "strip c = c" "ascii c" "map ascii_upper c = c" "currency_form c"
    by (auto simp: list_all_iff intro: strip_bare)
  with assms show ?thesis by (simp add: normalize_currency_def stdlib_laws_def)
qed

lemma normalize_currency_again:
  "stdlib_laws W \<Longrightarrow> normalize_currency W v = Inr c \<Longrightarrow> normalize_currency W c = Inr c"
  by (rule listed_currency [OF _ currency_listed])

section \<open>References are canonical\<close>

lemma split_on_neq_Nil [simp]: "split_on c s \<noteq> []"
  by (induction s) (auto split: list.splits)

lemma split_on_two: "split_on c s = [p, n] \<Longrightarrow> s = p @ c # n"
proof (induction s arbitrary: p n)
  case (Cons x s)
  have one: "split_on c t = [q] \<Longrightarrow> t = q" for t q
    by (induction t arbitrary: q) (auto split: if_splits list.splits)
  from Cons show ?case by (auto split: if_splits list.splits dest: one)
qed simp

lemma canonical_ref_is_lowered:
  "canonical_ref W scheme v = Inr t \<Longrightarrow> t = pw_lower W (strip v)"
  by (auto simp: canonical_ref_def parse_ref_def Let_def check_Inr_iff on_ok_Inr_iff make_reference_def
    ref_text_def starts_with_iff split: list.splits dest!: split_on_two)

lemma part_char_ascii: "part_char c \<Longrightarrow> code c < 128 \<and> ascii_lower c = c"
  by (auto simp: part_char_def ascii_lower_def)

lemma part_inner_ascii: "part_inner c \<Longrightarrow> code c < 128 \<and> ascii_lower c = c"
proof -
  have "list_all (\<lambda>c. code c < 128 \<and> ascii_lower c = c) ''._-''" by code_simp
  then show "part_inner c \<Longrightarrow> ?thesis" by (auto simp: part_inner_def list_all_iff dest: part_char_ascii)
qed

lemma ascii_append [simp]: "ascii (a @ b) \<longleftrightarrow> ascii a \<and> ascii b"
  by (simp add: ascii_def)

lemma plain_part_ascii: "plain_part s \<Longrightarrow> ascii s \<and> map ascii_lower s = s"
  by (auto simp: plain_part_def ascii_def list_all_iff part_inner_ascii intro!: map_idI)

lemma part_ok_ascii:
  assumes "part_ok s"
  shows "ascii s \<and> map ascii_lower s = s"
proof (cases "plain_part s")
  case False
  with assms have "s = butlast s @ [CHR 0x0A]" "plain_part (butlast s)"
    by (auto simp: part_ok_def) (metis append_butlast_last_id)
  moreover have "ascii [CHR 0x0A]" "map ascii_lower [CHR 0x0A] = [CHR 0x0A]" by code_simp+
  ultimately show ?thesis using plain_part_ascii [of "butlast s"] by (metis ascii_append map_append)
qed (rule plain_part_ascii)

lemma canonical_ref_again:
  assumes laws: "stdlib_laws W" and scheme: "scheme \<in> {PAYMENT_SCHEME, SECRET_SCHEME}"
    and c: "canonical_ref W scheme v = Inr t"
  shows "canonical_ref W scheme t = Inr t"
proof -
  have t: "t = pw_lower W (strip v)" using canonical_ref_is_lowered [OF c] .
  with laws have st: "strip t = t" by (simp add: stdlib_laws_def)
  from c obtain r where r: "parse_ref W scheme v = Inr r" "t = ref_text scheme r"
    by (auto simp: canonical_ref_def on_ok_Inr_iff)
  then have parts: "part_ok (rf_purpose r)" "part_ok (rf_name r)" "text_length t \<le> MAX_REF_LENGTH"
    by (auto simp: parse_ref_def Let_def check_Inr_iff make_reference_def split: list.splits)
  have "ascii scheme \<and> map ascii_lower scheme = scheme \<and> ascii ''://'' \<and> map ascii_lower ''://'' = ''://''
    \<and> ascii ''/'' \<and> map ascii_lower ''/'' = ''/''"
    using scheme by (elim insertE emptyE; simp only:; code_simp)
  with parts part_ok_ascii have "ascii t" "map ascii_lower t = t"
    unfolding r(2) ref_text_def ascii_append map_append by metis+
  with laws have low: "pw_lower W t = t" by (simp add: lower_ascii)
  have "parse_ref W scheme t = Inr r"
    using r(1) [unfolded parse_ref_def Let_def check_Inr_iff t [symmetric]] parts(3)
    unfolding parse_ref_def Let_def st low check_Inr_iff by simp
  then show ?thesis by (simp add: canonical_ref_def r(2))
qed

section \<open>The registered merchant\<close>

lemma registered_origin:
  assumes "stdlib_laws W"
  shows "normalize_origin W ''https://sandbox.solvio.invalid'' = Inr ''https://sandbox.solvio.invalid''"
proof -
  have "strip ''https://sandbox.solvio.invalid'' = ''https://sandbox.solvio.invalid''"
    by (rule strip_bare) code_simp
  moreover have "\<not> text_length ''https://sandbox.solvio.invalid'' > 255
    \<and> \<not> (CHR 0x5C \<in> set ''https://sandbox.solvio.invalid'' \<or>
         (\<exists>c\<in>set ''https://sandbox.solvio.invalid''. code c < 0x20 \<or> code c = 0x7F))" by code_simp
  moreover have "ascii ''https'' \<and> map ascii_lower ''https'' = ''https''
    \<and> ascii ''sandbox.solvio.invalid'' \<and> map ascii_lower ''sandbox.solvio.invalid'' = ''sandbox.solvio.invalid''
    \<and> \<not> contains_pair CHR ''.'' CHR ''.'' ''sandbox.solvio.invalid''" by code_simp
  ultimately show ?thesis using assms
    unfolding normalize_origin_def Let_def
    by (simp add: stdlib_laws_def normalize_host_def origin_text_def lower_ascii [OF assms])
qed

lemma registered_merchant:
  assumes "stdlib_laws W" "m \<in> set MERCHANTS"
  shows "resolve_merchant W (mc_id m) (mc_origin m) = Inr m"
proof -
  have "strip ''sandbox-shop'' = ''sandbox-shop''" by (rule strip_bare) code_simp
  moreover have "ascii ''sandbox-shop'' \<and> map ascii_lower ''sandbox-shop'' = ''sandbox-shop''" by code_simp
  ultimately show ?thesis using assms lower_ascii [OF assms(1), of "''sandbox-shop''"] registered_origin [OF assms(1)]
    by (simp add: resolve_merchant_def merchant_for_id_def MERCHANTS_def)
qed

lemma resolved_merchant_listed: "resolve_merchant W m v = Inr x \<Longrightarrow> x \<in> set MERCHANTS"
  by (auto simp: resolve_merchant_def merchant_for_id_def on_ok_Inr_iff check_Inr_iff find_Some_iff
    split: option.splits)

lemma resolve_merchant_again:
  "stdlib_laws W \<Longrightarrow> resolve_merchant W m v = Inr x \<Longrightarrow> resolve_merchant W (mc_id x) (mc_origin x) = Inr x"
  by (rule registered_merchant [OF _ resolved_merchant_listed])

end
