(* ===== verification/Payment_Intent.thy ===== *)
theory Payment_Intent
  imports Payment_Text Approval_Gateway
begin

text \<open>
  \<open>payment/intent.py\<close>: what is to be bought (\<open>payment_intent\<close>), what it really costs
  (\<open>payment_quote\<close>, which only the executor supplies), the states of a payment with their one map of
  transitions, and the economic effect whose digest a human confirms. A \<open>make_\<close> function is the
  constructor of a frozen dataclass with its \<open>__post_init__\<close>: it checks and normalises a raw value,
  and \<open>dataclasses.replace\<close> runs it again.
\<close>

section \<open>States\<close>

datatype payment_state =
    PS_DRAFT | PS_QUOTED | PS_READY | PS_APPROVED | PS_EXECUTING | PS_AWAITING_SCA | PS_SUCCEEDED
  | PS_FAILED | PS_RECONCILE | PS_CANCELLED | PS_EXPIRED | PS_PARTLY_REFUNDED | PS_REFUNDED

fun payment_state_value :: "payment_state \<Rightarrow> string" where
  "payment_state_value PS_DRAFT = ''draft''"
| "payment_state_value PS_QUOTED = ''quoted''"
| "payment_state_value PS_READY = ''ready_for_approval''"
| "payment_state_value PS_APPROVED = ''approved''"
| "payment_state_value PS_EXECUTING = ''executing''"
| "payment_state_value PS_AWAITING_SCA = ''awaiting_sca''"
| "payment_state_value PS_SUCCEEDED = ''succeeded''"
| "payment_state_value PS_FAILED = ''failed''"
| "payment_state_value PS_RECONCILE = ''reconciliation_required''"
| "payment_state_value PS_CANCELLED = ''cancelled''"
| "payment_state_value PS_EXPIRED = ''expired''"
| "payment_state_value PS_PARTLY_REFUNDED = ''partially_refunded''"
| "payment_state_value PS_REFUNDED = ''refunded''"

definition PAYMENT_TERMINAL :: "payment_state list" where
  "PAYMENT_TERMINAL = [PS_FAILED, PS_CANCELLED, PS_EXPIRED, PS_REFUNDED]"

fun PAYMENT_TRANSITIONS :: "payment_state \<Rightarrow> payment_state list" where
  "PAYMENT_TRANSITIONS PS_DRAFT = [PS_QUOTED, PS_CANCELLED, PS_EXPIRED, PS_FAILED]"
| "PAYMENT_TRANSITIONS PS_QUOTED = [PS_QUOTED, PS_READY, PS_CANCELLED, PS_EXPIRED, PS_FAILED]"
| "PAYMENT_TRANSITIONS PS_READY = [PS_QUOTED, PS_APPROVED, PS_CANCELLED, PS_EXPIRED, PS_FAILED]"
| "PAYMENT_TRANSITIONS PS_APPROVED = [PS_EXECUTING, PS_CANCELLED, PS_EXPIRED, PS_FAILED]"
| "PAYMENT_TRANSITIONS PS_EXECUTING = [PS_SUCCEEDED, PS_FAILED, PS_AWAITING_SCA, PS_RECONCILE]"
| "PAYMENT_TRANSITIONS PS_AWAITING_SCA = [PS_SUCCEEDED, PS_FAILED, PS_RECONCILE, PS_EXPIRED]"
| "PAYMENT_TRANSITIONS PS_RECONCILE = [PS_SUCCEEDED, PS_FAILED]"
| "PAYMENT_TRANSITIONS PS_SUCCEEDED = [PS_PARTLY_REFUNDED, PS_REFUNDED]"
| "PAYMENT_TRANSITIONS PS_PARTLY_REFUNDED = [PS_PARTLY_REFUNDED, PS_REFUNDED]"
| "PAYMENT_TRANSITIONS PS_FAILED = []"
| "PAYMENT_TRANSITIONS PS_CANCELLED = []"
| "PAYMENT_TRANSITIONS PS_EXPIRED = []"
| "PAYMENT_TRANSITIONS PS_REFUNDED = []"

definition can_transition :: "payment_state \<Rightarrow> payment_state \<Rightarrow> bool" where
  "can_transition current target \<longleftrightarrow> target \<in> set (PAYMENT_TRANSITIONS current)"

definition require_transition :: "payment_state \<Rightarrow> payment_state \<Rightarrow> payment_exn + unit" where
  "require_transition current target =
     (if can_transition current target then Inr ()
      else Inl (Illegal_move (payment_state_value current @ '' -> '' @ payment_state_value target)))"

section \<open>Items, extras, quotes\<close>

datatype extra_kind =
    XK_SHIPPING | XK_TAX | XK_TIP | XK_DONATION | XK_WARRANTY | XK_INSURANCE | XK_SUBSCRIPTION | XK_FEE
  | XK_DISCOUNT

fun extra_kind_value :: "extra_kind \<Rightarrow> string" where
  "extra_kind_value XK_SHIPPING = ''shipping''"
| "extra_kind_value XK_TAX = ''tax''"
| "extra_kind_value XK_TIP = ''tip''"
| "extra_kind_value XK_DONATION = ''donation''"
| "extra_kind_value XK_WARRANTY = ''warranty''"
| "extra_kind_value XK_INSURANCE = ''insurance''"
| "extra_kind_value XK_SUBSCRIPTION = ''subscription''"
| "extra_kind_value XK_FEE = ''fee''"
| "extra_kind_value XK_DISCOUNT = ''discount''"

definition EXTRA_KINDS :: "extra_kind list" where
  "EXTRA_KINDS = [XK_SHIPPING, XK_TAX, XK_TIP, XK_DONATION, XK_WARRANTY, XK_INSURANCE, XK_SUBSCRIPTION,
     XK_FEE, XK_DISCOUNT]"

definition extra_kind_of :: "string \<Rightarrow> extra_kind option" where
  "extra_kind_of v = List.find (\<lambda>k. extra_kind_value k = v) EXTRA_KINDS"

definition FORBIDDEN_EXTRAS :: "extra_kind list" where
  "FORBIDDEN_EXTRAS = [XK_SUBSCRIPTION]"

fun EXTRA_LABEL :: "extra_kind \<Rightarrow> string" where
  "EXTRA_LABEL XK_SHIPPING = ''Versand''"
| "EXTRA_LABEL XK_TAX = ''Steuer''"
| "EXTRA_LABEL XK_TIP = ''Trinkgeld''"
| "EXTRA_LABEL XK_DONATION = ''Spende''"
| "EXTRA_LABEL XK_WARRANTY = ''Garantieverl'' @ [CHR 0xC3, CHR 0xA4] @ ''ngerung''"
| "EXTRA_LABEL XK_INSURANCE = ''Versicherung''"
| "EXTRA_LABEL XK_SUBSCRIPTION = ''Abonnement''"
| "EXTRA_LABEL XK_FEE = ''Geb'' @ [CHR 0xC3, CHR 0xBC] @ ''hr''"
| "EXTRA_LABEL XK_DISCOUNT = ''Rabatt''"

record line_item =
  li_description :: string
  li_quantity :: int
  li_unit_amount :: int
  li_item_id :: string

definition line_total :: "line_item \<Rightarrow> int" where
  "line_total i = li_quantity i * li_unit_amount i"

definition make_item :: "payment_world \<Rightarrow> line_item \<Rightarrow> payment_exn + line_item" where
  "make_item W i =
     on_ok (clean_text W 200 ''item description'' (li_description i)) (\<lambda>d.
     check (li_quantity i < 1 \<or> li_quantity i > 10000) (Intent_error ''quantity must be a positive integer'')
     (on_ok (amount ''unit amount'' False (li_unit_amount i)) (\<lambda>a.
      on_ok (clean_if_given W 128 ''item id'' (li_item_id i)) (\<lambda>ident.
      check (line_total i > MAX_AMOUNT_MINOR) (Intent_error ''line total is out of range'')
      (Inr \<lparr>li_description = d, li_quantity = li_quantity i, li_unit_amount = a, li_item_id = ident\<rparr>)))))"

definition item_as_dict :: "line_item \<Rightarrow> json_value" where
  "item_as_dict i = Jdict [(''description'', Jstr (li_description i)), (''quantity'', Jint (li_quantity i)),
     (''unit_amount_minor'', Jint (li_unit_amount i)), (''total_minor'', Jint (line_total i)),
     (''item_id'', Jstr (li_item_id i))]"

record extra =
  xt_kind :: extra_kind
  xt_amount :: int
  xt_label :: string

definition make_extra :: "payment_world \<Rightarrow> extra \<Rightarrow> payment_exn + extra" where
  "make_extra W e =
     on_ok (amount ''extra amount'' (xt_kind e = XK_DISCOUNT) (xt_amount e)) (\<lambda>a.
     check (xt_kind e = XK_DISCOUNT \<and> a > 0) (Intent_error ''a discount must not increase the total'')
     (on_ok (clean_text W 120 ''extra label''
         (if xt_label e = [] then EXTRA_LABEL (xt_kind e) else xt_label e)) (\<lambda>l.
      Inr \<lparr>xt_kind = xt_kind e, xt_amount = a, xt_label = l\<rparr>)))"

definition extra_as_dict :: "extra \<Rightarrow> json_value" where
  "extra_as_dict e = Jdict [(''kind'', Jstr (extra_kind_value (xt_kind e))),
     (''amount_minor'', Jint (xt_amount e)), (''label'', Jstr (xt_label e))]"

record payment_quote =
  pq_source :: string
  pq_currency :: string
  pq_items_total :: int
  pq_extras :: "extra list"
  pq_total :: int
  pq_version :: int
  pq_quoted_at :: time
  pq_ref :: string
  pq_charged_currency :: string
  pq_charged_total :: int

text \<open>The bank's own currency and amount: either both are named, or neither.\<close>

definition make_charged :: "payment_world \<Rightarrow> string \<Rightarrow> int \<Rightarrow> payment_quote
    \<Rightarrow> payment_exn + string \<times> int" where
  "make_charged W currency tt q =
     (if pq_charged_currency q \<noteq> [] then
        on_ok (normalize_currency W (pq_charged_currency q)) (\<lambda>cc.
        on_ok (amount ''charged total'' False (pq_charged_total q)) (\<lambda>ct.
        check (cc = currency \<and> ct \<noteq> 0 \<and> ct \<noteq> tt)
          (Intent_error ''a charged total in the same currency must equal the total'') (Inr (cc, ct))))
      else check (pq_charged_total q \<noteq> 0) (Intent_error ''a charged total needs a charged currency'')
        (Inr ([], 0)))"

definition make_quote :: "payment_world \<Rightarrow> payment_quote \<Rightarrow> payment_exn + payment_quote" where
  "make_quote W q =
     check (pq_source q \<noteq> ''executor'') (Intent_error ''a quote may only come from the trusted executor'')
     (on_ok (normalize_currency W (pq_currency q)) (\<lambda>c.
      on_ok (amount ''items total'' False (pq_items_total q)) (\<lambda>it.
      on_ok (amount ''total'' False (pq_total q)) (\<lambda>tt.
      check (length (pq_extras q) > 20) (Intent_error ''extras must be a tuple of at most 20 entries'')
      (check (\<exists>e\<in>set (pq_extras q). xt_kind e \<in> set FORBIDDEN_EXTRAS)
         (Intent_error ''extra kind is not allowed in V1'')
      (check (\<not> distinct (map xt_kind (pq_extras q))) (Intent_error ''an extra kind must appear at most once'')
      (check (pq_version q < 1) (Intent_error ''quote version must be a positive integer'')
      (on_ok (clean_if_given W 128 ''quote ref'' (pq_ref q)) (\<lambda>r.
       on_ok (make_charged W c tt q) (\<lambda>charged.
       check (tt \<le> 0) (Intent_error ''a payment must move a positive amount'')
       (Inr (q\<lparr>pq_currency := c, pq_items_total := it, pq_total := tt, pq_ref := r,
               pq_charged_currency := fst charged, pq_charged_total := snd charged\<rparr>))))))))))))"

definition computed_total :: "payment_quote \<Rightarrow> int" where
  "computed_total q = pq_items_total q + sum_list (map xt_amount (pq_extras q))"

definition reconciles :: "payment_quote \<Rightarrow> bool" where
  "reconciles q \<longleftrightarrow> computed_total q = pq_total q"

definition extra_of :: "extra_kind \<Rightarrow> payment_quote \<Rightarrow> int" where
  "extra_of k q = (case List.find (\<lambda>e. xt_kind e = k) (pq_extras q) of None \<Rightarrow> 0 | Some e \<Rightarrow> xt_amount e)"

definition quote_as_dict :: "payment_quote \<Rightarrow> json_value" where
  "quote_as_dict q = Jdict [(''source'', Jstr (pq_source q)), (''currency'', Jstr (pq_currency q)),
     (''items_total_minor'', Jint (pq_items_total q)),
     (''extras'', Jlist (map extra_as_dict (pq_extras q))),
     (''total_minor'', Jint (pq_total q)), (''version'', Jint (pq_version q)),
     (''quoted_at'', Jreal (pq_quoted_at q)), (''quote_ref'', Jstr (pq_ref q)),
     (''charged_currency'', Jstr (pq_charged_currency q)),
     (''charged_total_minor'', Jint (pq_charged_total q))]"

section \<open>The intent\<close>

definition MAX_ITEMS :: nat where "MAX_ITEMS = 50"

record payment_intent =
  pi_id :: string
  pi_requested_by :: string
  pi_origin :: string
  pi_merchant :: string
  pi_merchant_origin :: string
  pi_currency :: string
  pi_method :: string
  pi_purpose :: string
  pi_items :: "line_item list"
  pi_created :: time
  pi_expires :: time
  pi_expected :: int
  pi_shipping :: string
  pi_destination :: string
  pi_recurring :: bool
  pi_state :: payment_state
  pi_quote :: "payment_quote option"
  pi_execution :: string
  pi_approval :: approval_id
  pi_agent_run :: string
  pi_task :: string

definition destination_hash_ok :: "string \<Rightarrow> bool" where
  "destination_hash_ok d \<longleftrightarrow> length d = 64 \<and>
     list_all (\<lambda>c. (48 \<le> code c \<and> code c \<le> 57) \<or> (97 \<le> code c \<and> code c \<le> 102)) d"

definition make_destination :: "payment_world \<Rightarrow> string \<Rightarrow> payment_exn + string" where
  "make_destination W v = (if v = [] then Inr [] else
     (let d = pw_lower W (strip v) in
      check (\<not> destination_hash_ok d) (Intent_error ''shipping destination hash is malformed'') (Inr d)))"

definition quote_currency_differs :: "string \<Rightarrow> payment_quote option \<Rightarrow> bool" where
  "quote_currency_differs c q \<longleftrightarrow> (case q of None \<Rightarrow> False | Some x \<Rightarrow> pq_currency x \<noteq> c)"

definition make_intent :: "payment_world \<Rightarrow> payment_intent \<Rightarrow> payment_exn + payment_intent" where
  "make_intent W i =
     on_ok (clean_text W 64 ''payment intent id'' (pi_id i)) (\<lambda>ident.
     check (pi_requested_by i \<notin> {''model'', ''user'', ''background''}) (Intent_error ''requested_by is unknown'')
     (on_ok (clean_text W 64 ''origin'' (pi_origin i)) (\<lambda>orig.
      on_ok (clean_text W 200 ''purpose'' (pi_purpose i)) (\<lambda>purpose.
      on_ok (normalize_currency W (pi_currency i)) (\<lambda>cur.
      on_ok (canonical_ref W PAYMENT_SCHEME (pi_method i)) (\<lambda>means.
      check (pi_items i = []) (Intent_error ''a payment intent needs at least one line item'')
      (check (length (pi_items i) > MAX_ITEMS) (Intent_error ''too many line items'')
      (check (pi_recurring i) (Intent_error ''recurring payments are not supported in V1'')
      (on_ok (clean_if_given W 120 ''shipping label'' (pi_shipping i)) (\<lambda>ship.
       on_ok (make_destination W (pi_destination i)) (\<lambda>dest.
       on_ok (amount ''agent expected total'' False (pi_expected i)) (\<lambda>_.
       check (quote_currency_differs cur (pi_quote i))
         (Intent_error ''quote currency differs from the intent currency'')
       (on_ok (resolve_merchant W (pi_merchant i) (pi_merchant_origin i)) (\<lambda>m.
        Inr (i\<lparr>pi_id := ident, pi_origin := orig, pi_merchant := mc_id m, pi_merchant_origin := mc_origin m,
               pi_currency := cur, pi_method := means, pi_purpose := purpose, pi_shipping := ship,
               pi_destination := dest\<rparr>)))))))))))))))"

definition merchant_display_name :: "payment_world \<Rightarrow> payment_intent \<Rightarrow> string" where
  "merchant_display_name W i = (case merchant_for_id W (pi_merchant i) of
       None \<Rightarrow> pi_merchant i | Some m \<Rightarrow> mc_display_name m)"

definition total_quantity :: "payment_intent \<Rightarrow> int" where
  "total_quantity i = sum_list (map li_quantity (pi_items i))"

definition final_total :: "payment_intent \<Rightarrow> payment_exn + int" where
  "final_total i = (case pi_quote i of
       None \<Rightarrow> Inl (Intent_error ''intent has no executor-confirmed quote'')
     | Some q \<Rightarrow> Inr (pq_total q))"

definition expectation_matches :: "payment_intent \<Rightarrow> bool" where
  "expectation_matches i \<longleftrightarrow> (case pi_quote i of
       None \<Rightarrow> False | Some q \<Rightarrow> pi_expected i \<noteq> 0 \<and> pi_expected i = pq_total q)"

definition is_expired :: "time \<Rightarrow> payment_intent \<Rightarrow> bool" where
  "is_expired now i \<longleftrightarrow> pi_expires i \<noteq> 0 \<and> now \<ge> pi_expires i"

text \<open>\<open>with_state(target, **changes)\<close>; the changes of the code are two identifiers.\<close>

definition with_state :: "payment_world \<Rightarrow> payment_state \<Rightarrow> (payment_intent \<Rightarrow> payment_intent)
    \<Rightarrow> payment_intent \<Rightarrow> payment_exn + payment_intent" where
  "with_state W target changes i =
     on_ok (require_transition (pi_state i) target) (\<lambda>_. make_intent W (changes (i\<lparr>pi_state := target\<rparr>)))"

definition with_quote :: "payment_world \<Rightarrow> payment_quote \<Rightarrow> payment_intent \<Rightarrow> payment_exn + payment_intent" where
  "with_quote W q i =
     (if pi_state i \<notin> {PS_DRAFT, PS_QUOTED, PS_READY}
      then Inl (Illegal_move (''cannot re-quote in state '' @ payment_state_value (pi_state i)))
      else on_ok (make_quote W (q\<lparr>pq_version := (case pi_quote i of None \<Rightarrow> 1 | Some old \<Rightarrow> pq_version old + 1)\<rparr>))
        (\<lambda>fresh. make_intent W (i\<lparr>pi_quote := Some fresh, pi_state := PS_QUOTED\<rparr>)))"

section \<open>The economic effect\<close>

definition economic_effect :: "payment_world \<Rightarrow> payment_intent \<Rightarrow> payment_exn + (string \<times> json_value) list" where
  "economic_effect W i = (case pi_quote i of
       None \<Rightarrow> Inl (Intent_error ''intent has no executor-confirmed quote'')
     | Some q \<Rightarrow> Inr
        [(''payment_intent_id'', Jstr (pi_id i)),
         (''purpose'', Jstr (pi_purpose i)),
         (''merchant_id'', Jstr (pi_merchant i)),
         (''merchant_origin'', Jstr (pi_merchant_origin i)),
         (''merchant_display_name'', Jstr (merchant_display_name W i)),
         (''payment_method_ref'', Jstr (pi_method i)),
         (''currency'', Jstr (pq_currency q)),
         (''total_minor'', Jint (pq_total q)),
         (''items_total_minor'', Jint (pq_items_total q)),
         (''extras'', Jlist (map extra_as_dict (sort_key (\<lambda>e. extra_kind_value (xt_kind e)) (pq_extras q)))),
         (''items'', Jlist (map item_as_dict (pi_items i))),
         (''total_quantity'', Jint (total_quantity i)),
         (''shipping_label'', Jstr (pi_shipping i)),
         (''shipping_destination_sha256'', Jstr (pi_destination i)),
         (''charged_currency'', Jstr (pq_charged_currency q)),
         (''charged_total_minor'', Jint (pq_charged_total q)),
         (''recurring'', Jbool (pi_recurring i)),
         (''quote_version'', Jint (pq_version q)),
         (''totals_agree'', Jbool (reconciles q)),
         (''expires_at'', Jreal (pw_round3 W (pi_expires i)))])"

definition ECONOMIC_DOMAIN :: string where "ECONOMIC_DOMAIN = ''SOLVIO_PAYMENT_ECONOMIC_V1''"

definition economic_digest :: "payment_world \<Rightarrow> payment_intent \<Rightarrow> payment_exn + digest" where
  "economic_digest W i = on_ok (economic_effect W i) (\<lambda>ps.
     Inr (sha256_hex (pw_sha256 W) (domain_preimage ECONOMIC_DOMAIN (canonical_bytes (pw_float W) ps))))"

text \<open>What a model may see of an intent; every view has the same keys.\<close>

definition safe_view :: "payment_world \<Rightarrow> payment_intent \<Rightarrow> (string \<times> json_value) list" where
  "safe_view W i =
     [(''payment_intent_id'', Jstr (pi_id i)),
      (''zustand'', Jstr (payment_state_value (pi_state i))),
      (''haendler'', Jstr (merchant_display_name W i)),
      (''haendler_herkunft'', Jstr (pi_merchant_origin i)),
      (''zweck'', Jstr (pi_purpose i)),
      (''waehrung'', Jstr (pi_currency i)),
      (''zahlungsmittel'', Jstr (pi_method i)),
      (''positionen'', Jlist (map item_as_dict (pi_items i))),
      (''menge_gesamt'', Jint (total_quantity i)),
      (''lieferung'', Jstr (pi_shipping i)),
      (''gueltig_bis'', Jreal (pi_expires i))]
     @ (case pi_quote i of
          None \<Rightarrow> [(''betrag_minor'', Jnull), (''betrag_quelle'', Jstr ''noch nicht bestaetigt''),
                   (''aufschlaege'', Jlist [])]
        | Some q \<Rightarrow> [(''betrag_minor'', Jint (pq_total q)), (''betrag_quelle'', Jstr ''executor''),
                     (''aufschlaege'', Jlist (map extra_as_dict (pq_extras q)))])"

text \<open>A delivery address is kept as the hash of its parts, under NFKC; the normal form is a parameter.\<close>

definition hash_destination :: "payment_world \<Rightarrow> (string \<Rightarrow> string) \<Rightarrow> string list \<Rightarrow> string" where
  "hash_destination W nfkc parts = sha256_hex (pw_sha256 W) (domain_preimage ''SOLVIO_PAYMENT_DESTINATION_V1''
     (join_with [CHR 0x1F] (map (\<lambda>p. pw_lower W (strip (nfkc p))) (filter (\<lambda>p. strip p \<noteq> []) parts))))"

section \<open>Objects in memory are normal\<close>

text \<open>
  What a constructor returns, it returns again: every check passes a second time and nothing is
  normalised any further. So \<open>replace\<close> on an existing object changes the named field and no other.
\<close>

lemma make_item_again:
  assumes "stdlib_laws W" "make_item W i = Inr j"
  shows "make_item W j = Inr j"
proof -
  from assms(2) obtain d ident where c: "clean_text W 200 ''item description'' (li_description i) = Inr d"
      "clean_if_given W 128 ''item id'' (li_item_id i) = Inr ident"
      "amount ''unit amount'' False (li_unit_amount i) = Inr (li_unit_amount i)"
      "\<not> (li_quantity i < 1 \<or> li_quantity i > 10000)" "\<not> line_total i > MAX_AMOUNT_MINOR"
    and j: "j = \<lparr>li_description = d, li_quantity = li_quantity i, li_unit_amount = li_unit_amount i, li_item_id = ident\<rparr>"
    by (auto simp: make_item_def on_ok_Inr_iff check_Inr_iff amount_Inr_iff)
  have "line_total j = line_total i" by (simp add: j line_total_def)
  with c clean_text_again(1) [OF assms(1) c(1)] clean_if_given_again [OF assms(1) c(2)] show ?thesis
    by (simp add: make_item_def j)
qed

lemma make_extra_again:
  assumes "stdlib_laws W" "make_extra W e = Inr f"
  shows "make_extra W f = Inr f"
proof -
  from assms(2) obtain l where
      c: "clean_text W 120 ''extra label'' (if xt_label e = [] then EXTRA_LABEL (xt_kind e) else xt_label e) = Inr l"
      "amount ''extra amount'' (xt_kind e = XK_DISCOUNT) (xt_amount e) = Inr (xt_amount e)"
      "\<not> (xt_kind e = XK_DISCOUNT \<and> xt_amount e > 0)"
    and f: "f = \<lparr>xt_kind = xt_kind e, xt_amount = xt_amount e, xt_label = l\<rparr>"
    by (auto simp: make_extra_def on_ok_Inr_iff check_Inr_iff amount_Inr_iff)
  with clean_text_again [OF assms(1) c(1)] show ?thesis by (simp add: make_extra_def f)
qed

lemma make_charged_again:
  assumes "stdlib_laws W" "make_charged W c tt q = Inr (cc, ct)"
  shows "make_charged W c tt (q\<lparr>pq_charged_currency := cc, pq_charged_total := ct\<rparr>) = Inr (cc, ct)"
proof (cases "pq_charged_currency q = []")
  case False
  with assms(2) have n: "normalize_currency W (pq_charged_currency q) = Inr cc"
    and a: "amount ''charged total'' False (pq_charged_total q) = Inr ct" "\<not> (cc = c \<and> ct \<noteq> 0 \<and> ct \<noteq> tt)"
    by (auto simp: make_charged_def on_ok_Inr_iff check_Inr_iff)
  moreover have "cc \<noteq> []" using currency_listed [OF n] by (auto simp: EXPONENT_TWO_def)
  ultimately show ?thesis using normalize_currency_again [OF assms(1) n] amountD [OF a(1)]
    by (simp add: make_charged_def)
qed (use assms in \<open>auto simp: make_charged_def check_Inr_iff\<close>)

lemma make_quote_Inr:
  assumes "make_quote W q = Inr r"
  obtains c it tt ref ch where "\<not> pq_source q \<noteq> ''executor''" "normalize_currency W (pq_currency q) = Inr c"
    "amount ''items total'' False (pq_items_total q) = Inr it"
    "amount ''total'' False (pq_total q) = Inr tt" "\<not> length (pq_extras q) > 20"
    "\<not> (\<exists>e\<in>set (pq_extras q). xt_kind e \<in> set FORBIDDEN_EXTRAS)"
    "\<not> \<not> distinct (map xt_kind (pq_extras q))"
    "\<not> pq_version q < 1" "clean_if_given W 128 ''quote ref'' (pq_ref q) = Inr ref"
    "make_charged W c tt q = Inr ch" "\<not> tt \<le> 0"
    "r = q\<lparr>pq_currency := c, pq_items_total := it, pq_total := tt, pq_ref := ref,
           pq_charged_currency := fst ch, pq_charged_total := snd ch\<rparr>"
  using assms unfolding make_quote_def
  by (elim check_InrE on_okE) (rule that; (assumption | rule sum.inject(2) [THEN iffD1, symmetric], assumption))

lemma make_quote_again:
  assumes "stdlib_laws W" "make_quote W q = Inr r"
  shows "make_quote W r = Inr r"
  using make_quote_Inr [OF assms(2)]
proof cases
  case (1 c it tt ref ch)
  have same: "it = pq_items_total q" "tt = pq_total q" using 1(3,4) by (auto dest: amountD)
  have "make_charged W c tt r = make_charged W c tt (q\<lparr>pq_charged_currency := fst ch, pq_charged_total := snd ch\<rparr>)"
    by (simp add: make_charged_def 1(12))
  also have "\<dots> = Inr (fst ch, snd ch)" using 1(10) by (intro make_charged_again [OF assms(1)]) simp
  finally have "make_charged W c (pq_total q) r = Inr ch" by (simp add: same)
  with 1 normalize_currency_again [OF assms(1) 1(2)] clean_if_given_again [OF assms(1) 1(9)] show ?thesis
    unfolding make_quote_def by (simp add: same)
qed

lemma make_quote_positive: "make_quote W q = Inr r \<Longrightarrow> 0 < pq_total r \<and> pq_total r \<le> MAX_AMOUNT_MINOR \<and> 1 \<le> pq_version r"
  by (elim make_quote_Inr) (simp add: amount_Inr_iff)

lemma make_intent_Inr:
  assumes "make_intent W i = Inr j"
  obtains ident orig purpose cur means ship dest expected m where
    "clean_text W 64 ''payment intent id'' (pi_id i) = Inr ident"
    "\<not> pi_requested_by i \<notin> {''model'', ''user'', ''background''}"
    "clean_text W 64 ''origin'' (pi_origin i) = Inr orig" "clean_text W 200 ''purpose'' (pi_purpose i) = Inr purpose"
    "normalize_currency W (pi_currency i) = Inr cur" "canonical_ref W PAYMENT_SCHEME (pi_method i) = Inr means"
    "\<not> pi_items i = []" "\<not> length (pi_items i) > MAX_ITEMS" "\<not> pi_recurring i"
    "clean_if_given W 120 ''shipping label'' (pi_shipping i) = Inr ship"
    "make_destination W (pi_destination i) = Inr dest"
    "amount ''agent expected total'' False (pi_expected i) = Inr expected"
    "\<not> quote_currency_differs cur (pi_quote i)"
    "resolve_merchant W (pi_merchant i) (pi_merchant_origin i) = Inr m"
    "j = i\<lparr>pi_id := ident, pi_origin := orig, pi_merchant := mc_id m, pi_merchant_origin := mc_origin m,
           pi_currency := cur, pi_method := means, pi_purpose := purpose, pi_shipping := ship,
           pi_destination := dest\<rparr>"
  using assms unfolding make_intent_def
  by (elim check_InrE on_okE) (rule that; (assumption | rule sum.inject(2) [THEN iffD1, symmetric], assumption))

lemma destination_again:
  assumes "stdlib_laws W" "make_destination W v = Inr d"
  shows "make_destination W d = Inr d"
proof (cases "v = []")
  case False
  with assms(2) have d: "d = pw_lower W (strip v)" "destination_hash_ok d"
    by (auto simp: make_destination_def Let_def check_Inr_iff)
  have "ascii d \<and> map ascii_lower d = d"
    using d(2) by (auto simp: destination_hash_ok_def ascii_def list_all_iff ascii_lower_def intro!: map_idI)
  then have "pw_lower W d = d" using assms(1) by (simp add: lower_ascii)
  moreover have "strip d = d" using assms(1) d(1) by (simp add: stdlib_laws_def)
  ultimately show ?thesis using d(2) by (simp add: make_destination_def)
qed (use assms in \<open>simp add: make_destination_def\<close>)

definition intent_ok :: "payment_world \<Rightarrow> payment_intent \<Rightarrow> bool" where
  "intent_ok W i \<longleftrightarrow> make_intent W i = Inr i"

lemma make_intent_again:
  assumes "stdlib_laws W" "make_intent W i = Inr j"
  shows "intent_ok W j"
  using make_intent_Inr [OF assms(2)]
proof cases
  case (1 ident orig purpose cur means ship dest expected m)
  note again = clean_text_again(1) [OF assms(1) 1(1)] clean_text_again(1) [OF assms(1) 1(3)]
    clean_text_again(1) [OF assms(1) 1(4)] normalize_currency_again [OF assms(1) 1(5)]
    canonical_ref_again [OF assms(1) _ 1(6)] clean_if_given_again [OF assms(1) 1(10)]
    destination_again [OF assms(1) 1(11)] resolve_merchant_again [OF assms(1) 1(14)]
  with 1(2,7-9,12,13) show ?thesis
    unfolding intent_ok_def make_intent_def by (simp add: 1(15))
qed

text \<open>The columns the life of a payment moves; the other fields of an object are left as they are.\<close>

definition moved :: "payment_state \<Rightarrow> string \<Rightarrow> approval_id \<Rightarrow> payment_intent \<Rightarrow> payment_intent" where
  "moved st eid aid i = i\<lparr>pi_state := st, pi_execution := eid, pi_approval := aid\<rparr>"

lemma moved_ok:
  assumes "intent_ok W i"
  shows "intent_ok W (moved st eid aid i)"
  using make_intent_Inr [OF assms [unfolded intent_ok_def]]
proof cases
  case (1 ident orig purpose cur means ship dest expected m)
  then have "ident = pi_id i" "orig = pi_origin i" "purpose = pi_purpose i" "cur = pi_currency i"
      "means = pi_method i" "ship = pi_shipping i" "dest = pi_destination i" "mc_id m = pi_merchant i"
      "mc_origin m = pi_merchant_origin i"
    by (cases i, simp)+
  with 1(1-14) show ?thesis unfolding intent_ok_def make_intent_def moved_def by simp
qed

lemma with_state_ok:
  assumes "intent_ok W i" "can_transition (pi_state i) st"
    and "changes (i\<lparr>pi_state := st\<rparr>) = moved st eid aid i"
  shows "with_state W st changes i = Inr (moved st eid aid i)"
  using assms moved_ok [OF assms(1), of st eid aid]
  by (simp add: with_state_def require_transition_def intent_ok_def)

lemma with_state_id:
  "intent_ok W i \<Longrightarrow> can_transition (pi_state i) st \<Longrightarrow> with_state W st id i = Inr (i\<lparr>pi_state := st\<rparr>)"
  using with_state_ok [of W i st id "pi_execution i" "pi_approval i"] by (simp add: moved_def)

lemma with_state_edge: "with_state W st changes i = Inr j \<Longrightarrow> can_transition (pi_state i) st"
  by (auto simp: with_state_def on_ok_Inr_iff require_transition_def split: if_splits)

section \<open>What the digest determines\<close>

lemma sorted_keys_member:
  assumes "sorted_keys (Jdict ps) = sorted_keys (Jdict qs)" and "distinct (map fst qs)"
    and "(k, v) \<in> set ps" "(k, w) \<in> set qs"
  shows "sorted_keys v = sorted_keys w"
proof -
  let ?f = "\<lambda>(k, v). (k, sorted_keys v)"
  from assms(1) have "sort_key fst (map ?f ps) = sort_key fst (map ?f qs)" by simp
  then have "set (map ?f ps) = set (map ?f qs)" by (metis set_sort)
  moreover have "(k, sorted_keys v) \<in> set (map ?f ps)" "(k, sorted_keys w) \<in> set (map ?f qs)"
    using imageI [OF assms(3), of ?f] imageI [OF assms(4), of ?f] by simp_all
  ultimately have "(k, sorted_keys v) \<in> set (map ?f qs)" "(k, sorted_keys w) \<in> set (map ?f qs)"
    by blast+
  moreover have "distinct (map fst (map ?f qs))" using assms(2) by (simp add: comp_def split_def)
  ultimately show ?thesis using eq_key_imp_eq_value by fast
qed

lemma item_dict_inj:
  assumes "sorted_keys (item_as_dict i) = sorted_keys (item_as_dict j)"
  shows "i = j"
proof -
  note same = sorted_keys_member [OF assms [unfolded item_as_dict_def]]
  have "li_description i = li_description j"
    using same [of "''description''" "Jstr (li_description i)" "Jstr (li_description j)"] by simp
  moreover have "li_quantity i = li_quantity j"
    using same [of "''quantity''" "Jint (li_quantity i)" "Jint (li_quantity j)"] by simp
  moreover have "li_unit_amount i = li_unit_amount j"
    using same [of "''unit_amount_minor''" "Jint (li_unit_amount i)" "Jint (li_unit_amount j)"] by simp
  moreover have "li_item_id i = li_item_id j"
    using same [of "''item_id''" "Jstr (li_item_id i)" "Jstr (li_item_id j)"] by simp
  ultimately show ?thesis by simp
qed

lemma extra_kind_value_inj: "extra_kind_value a = extra_kind_value b \<Longrightarrow> a = b"
  by (cases a; cases b; simp)

lemma extra_dict_inj:
  assumes "sorted_keys (extra_as_dict d) = sorted_keys (extra_as_dict e)"
  shows "d = e"
proof -
  note same = sorted_keys_member [OF assms [unfolded extra_as_dict_def]]
  have "xt_kind d = xt_kind e"
    using same [of "''kind''" "Jstr (extra_kind_value (xt_kind d))" "Jstr (extra_kind_value (xt_kind e))"]
    by (intro extra_kind_value_inj) simp
  moreover have "xt_amount d = xt_amount e"
    using same [of "''amount_minor''" "Jint (xt_amount d)" "Jint (xt_amount e)"] by simp
  moreover have "xt_label d = xt_label e"
    using same [of "''label''" "Jstr (xt_label d)" "Jstr (xt_label e)"] by simp
  ultimately show ?thesis by simp
qed

lemma dict_list_inj:
  assumes "\<And>a b. sorted_keys (f a) = sorted_keys (f b) \<Longrightarrow> a = b"
    and "sorted_keys (Jlist (map f xs)) = sorted_keys (Jlist (map f ys))"
  shows "xs = ys"
proof -
  have "inj (sorted_keys \<circ> f)" using assms(1) by (auto intro: injI)
  moreover have "map (sorted_keys \<circ> f) xs = map (sorted_keys \<circ> f) ys" using assms(2) by simp
  ultimately show ?thesis by (metis inj_map_eq_map)
qed

definition economic_text :: "payment_world \<Rightarrow> payment_intent \<Rightarrow> string" where
  "economic_text W i = (case economic_effect W i of
       Inl _ \<Rightarrow> [] | Inr ps \<Rightarrow> domain_preimage ECONOMIC_DOMAIN (canonical_bytes (pw_float W) ps))"

lemma economic_effect_keys: "economic_effect W i = Inr ps \<Longrightarrow> distinct (map fst ps)"
  by (auto simp: economic_effect_def split: option.splits)

lemma economic_effect_floats:
  "economic_effect W i = Inr ps \<Longrightarrow> pw_round3 W (pi_expires i) \<in> F \<Longrightarrow> floats_in F (Jdict ps)"
  by (auto simp: economic_effect_def extra_as_dict_def item_as_dict_def split: option.splits)

lemma economic_digest_eq:
  assumes "economic_digest W i = Inr d" "economic_digest W j = Inr d" "prints_floats (pw_float W) F"
    and "pw_round3 W (pi_expires i) \<in> F" "pw_round3 W (pi_expires j) \<in> F"
  obtains ps qs where "economic_effect W i = Inr ps" "economic_effect W j = Inr qs"
    "sorted_keys (Jdict ps) = sorted_keys (Jdict qs) \<or>
     collision (pw_sha256 W) (economic_text W i) (economic_text W j)"
proof -
  from assms(1,2) obtain ps qs where e: "economic_effect W i = Inr ps" "economic_effect W j = Inr qs"
    and "sha256_hex (pw_sha256 W) (economic_text W i) = d" "sha256_hex (pw_sha256 W) (economic_text W j) = d"
    by (auto simp: economic_digest_def economic_text_def on_ok_Inr_iff)
  then have "economic_text W i = economic_text W j \<or>
      collision (pw_sha256 W) (economic_text W i) (economic_text W j)"
    by (intro sha256_hex_eq) simp
  moreover have "sorted_keys (Jdict ps) = sorted_keys (Jdict qs)" if "economic_text W i = economic_text W j"
  proof -
    from that have "json_text (pw_float W) (Jdict ps) = json_text (pw_float W) (Jdict qs)"
      by (simp add: economic_text_def e domain_preimage_def canonical_bytes_def)
    then show ?thesis
      using json_text_eq_iff [OF assms(3) economic_effect_floats [OF e(1) assms(4)]
        economic_effect_floats [OF e(2) assms(5)]] by blast
  qed
  ultimately show thesis using that [OF e] by blast
qed

text \<open>What two intents with one economic effect share.\<close>

definition same_purchase :: "payment_world \<Rightarrow> payment_intent \<Rightarrow> payment_intent \<Rightarrow> bool" where
  "same_purchase W i j \<longleftrightarrow> (case (pi_quote i, pi_quote j) of
       (Some p, Some q) \<Rightarrow>
         pi_id i = pi_id j \<and> pi_purpose i = pi_purpose j \<and>
         pi_merchant i = pi_merchant j \<and> pi_merchant_origin i = pi_merchant_origin j \<and>
         pi_method i = pi_method j \<and> pi_items i = pi_items j \<and>
         pi_shipping i = pi_shipping j \<and> pi_destination i = pi_destination j \<and>
         pw_round3 W (pi_expires i) = pw_round3 W (pi_expires j) \<and>
         pq_currency p = pq_currency q \<and> pq_total p = pq_total q \<and> pq_items_total p = pq_items_total q \<and>
         sort_key (\<lambda>e. extra_kind_value (xt_kind e)) (pq_extras p)
           = sort_key (\<lambda>e. extra_kind_value (xt_kind e)) (pq_extras q) \<and> pq_version p = pq_version q \<and>
         pq_charged_currency p = pq_charged_currency q \<and> pq_charged_total p = pq_charged_total q
     | _ \<Rightarrow> False)"

lemma equal_effects_same_purchase:
  assumes "economic_effect W i = Inr ps" "economic_effect W j = Inr qs"
    and "sorted_keys (Jdict ps) = sorted_keys (Jdict qs)"
  shows "same_purchase W i j"
proof -
  from assms(1,2) obtain p q where quotes: "pi_quote i = Some p" "pi_quote j = Some q"
    by (auto simp: economic_effect_def split: option.splits)
  note lists = assms(1,2) [unfolded economic_effect_def quotes option.case sum.inject, symmetric]
  note same = sorted_keys_member [OF assms(3) economic_effect_keys [OF assms(2)], unfolded lists]
  let ?k = "\<lambda>e. extra_kind_value (xt_kind e)"
  have extras: "sort_key ?k (pq_extras p) = sort_key ?k (pq_extras q)"
    by (rule dict_list_inj [where f = extra_as_dict], erule extra_dict_inj, rule same [of "''extras''"]) simp_all
  have items: "pi_items i = pi_items j"
    by (rule dict_list_inj [where f = item_as_dict], erule item_dict_inj, rule same [of "''items''"]) simp_all
  have words: "pi_id i = pi_id j" "pi_purpose i = pi_purpose j" "pi_merchant i = pi_merchant j"
    "pi_merchant_origin i = pi_merchant_origin j" "pi_method i = pi_method j"
    "pq_currency p = pq_currency q" "pi_shipping i = pi_shipping j" "pi_destination i = pi_destination j"
    "pq_charged_currency p = pq_charged_currency q"
    using same [of "''payment_intent_id''" "Jstr (pi_id i)" "Jstr (pi_id j)"]
      same [of "''purpose''" "Jstr (pi_purpose i)" "Jstr (pi_purpose j)"]
      same [of "''merchant_id''" "Jstr (pi_merchant i)" "Jstr (pi_merchant j)"]
      same [of "''merchant_origin''" "Jstr (pi_merchant_origin i)" "Jstr (pi_merchant_origin j)"]
      same [of "''payment_method_ref''" "Jstr (pi_method i)" "Jstr (pi_method j)"]
      same [of "''currency''" "Jstr (pq_currency p)" "Jstr (pq_currency q)"]
      same [of "''shipping_label''" "Jstr (pi_shipping i)" "Jstr (pi_shipping j)"]
      same [of "''shipping_destination_sha256''" "Jstr (pi_destination i)" "Jstr (pi_destination j)"]
      same [of "''charged_currency''" "Jstr (pq_charged_currency p)" "Jstr (pq_charged_currency q)"]
    by simp_all
  have numbers: "pq_total p = pq_total q" "pq_items_total p = pq_items_total q"
    "pq_version p = pq_version q" "pq_charged_total p = pq_charged_total q"
    "pw_round3 W (pi_expires i) = pw_round3 W (pi_expires j)"
    using same [of "''total_minor''" "Jint (pq_total p)" "Jint (pq_total q)"]
      same [of "''items_total_minor''" "Jint (pq_items_total p)" "Jint (pq_items_total q)"]
      same [of "''quote_version''" "Jint (pq_version p)" "Jint (pq_version q)"]
      same [of "''charged_total_minor''" "Jint (pq_charged_total p)" "Jint (pq_charged_total q)"]
      same [of "''expires_at''" "Jreal (pw_round3 W (pi_expires i))" "Jreal (pw_round3 W (pi_expires j))"]
    by simp_all
  from extras items words numbers show ?thesis by (simp add: same_purchase_def quotes)
qed

text \<open>
  C22: The digest of the economic effect stands for one purchase. Two intents whose digests agree have
  the same identity, purpose, merchant with its origin, means of payment, items with their quantities
  and unit prices, destination, deadline, currency, total, extras and quote version, unless the hash
  collides on the two texts.
\<close>

theorem economic_digest_fixes_the_purchase:
  assumes "economic_digest W i = Inr d" "economic_digest W j = Inr d" "prints_floats (pw_float W) F"
    and "pw_round3 W (pi_expires i) \<in> F" "pw_round3 W (pi_expires j) \<in> F"
  shows "same_purchase W i j \<or> collision (pw_sha256 W) (economic_text W i) (economic_text W j)"
  using economic_digest_eq [OF assms] equal_effects_same_purchase by metis

lemma economic_digest_moved: "economic_digest W (i\<lparr>pi_state := st\<rparr>) = economic_digest W i"
  by (cases "pi_quote i")
    (simp_all add: economic_digest_def economic_effect_def merchant_display_name_def total_quantity_def
      cong: option.case_cong)

section \<open>A world to compute in\<close>

definition plain_world :: payment_world where
  "plain_world = \<lparr>pw_nfc = \<lambda>s. s, pw_lower = map ascii_lower, pw_upper = map ascii_upper,
     pw_split = \<lambda>s. if s = ''https://sandbox.solvio.invalid'' then Some \<lparr>up_scheme = ''https'', up_path = [],
        up_query = [], up_fragment = [], up_username = None, up_password = None,
        up_host = Some ''sandbox.solvio.invalid'', up_port = Some None\<rparr> else None,
     pw_idna = Some, pw_sha256 = \<lambda>s. s, pw_float = \<lambda>_. ''0.5'', pw_round3 = \<lambda>r. r,
     pw_material = \<lambda>_. False, pw_iso = \<lambda>_. ''2026-08-30T12:00:00+00:00''\<rparr>"

definition demo_item :: line_item where
  "demo_item = \<lparr>li_description = ''Stativ'', li_quantity = 2, li_unit_amount = 4250, li_item_id = []\<rparr>"

definition demo_quote :: payment_quote where
  "demo_quote = \<lparr>pq_source = ''executor'', pq_currency = ''EUR'', pq_items_total = 8500,
     pq_extras = [\<lparr>xt_kind = XK_SHIPPING, xt_amount = 499, xt_label = ''Versand''\<rparr>], pq_total = 8999,
     pq_version = 1, pq_quoted_at = 0, pq_ref = ''q-1'', pq_charged_currency = [], pq_charged_total = 0\<rparr>"

definition demo_intent :: payment_intent where
  "demo_intent = \<lparr>pi_id = ''pi-1'', pi_requested_by = ''model'', pi_origin = ''room_voice'',
     pi_merchant = ''sandbox-shop'', pi_merchant_origin = ''https://sandbox.solvio.invalid'',
     pi_currency = ''EUR'', pi_method = ''payment://shopping/default'', pi_purpose = ''Stativ'',
     pi_items = [demo_item], pi_created = 0, pi_expires = 1 / 2, pi_expected = 0, pi_shipping = [],
     pi_destination = [], pi_recurring = False, pi_state = PS_APPROVED, pi_quote = Some demo_quote,
     pi_execution = [], pi_approval = [], pi_agent_run = [], pi_task = []\<rparr>"

theorem economic_digest_fixes_the_purchase_witness:
  "same_purchase plain_world demo_intent (demo_intent\<lparr>pi_state := PS_SUCCEEDED\<rparr>) \<or>
   collision (\<lambda>s. s) (economic_text plain_world demo_intent)
     (economic_text plain_world (demo_intent\<lparr>pi_state := PS_SUCCEEDED\<rparr>))"
proof -
  let ?j = "demo_intent\<lparr>pi_state := PS_SUCCEEDED\<rparr>"
  have quoted: "\<exists>d. economic_digest plain_world demo_intent = Inr d"
    by (simp add: economic_digest_def economic_effect_def demo_intent_def)
  have "economic_digest plain_world ?j = economic_digest plain_world demo_intent"
    by (rule economic_digest_moved)
  with quoted obtain d where "economic_digest plain_world demo_intent = Inr d" "economic_digest plain_world ?j = Inr d"
    by auto
  from economic_digest_fixes_the_purchase [OF this, of "{1 / 2}"] half_printer show ?thesis
    by (simp add: plain_world_def demo_intent_def)
qed

lemma starts_with_lower:
  "list_all (\<lambda>c. 128 \<le> code c) w \<Longrightarrow> starts_with w (map ascii_lower s) = starts_with w s"
proof (induction w arbitrary: s)
  case (Cons c w)
  then show ?case by (cases s) (auto simp: ascii_lower_def code_char_of)
qed simp

lemma drop_spaces_lower:
  assumes "list_all (list_all (\<lambda>c. 128 \<le> code c)) wide"
  shows "drop_spaces wide n (map ascii_lower s) = map ascii_lower (drop_spaces wide n s)"
  using assms
proof (induction wide n s rule: drop_spaces.induct)
  case (3 wide c r)
  have "List.find (\<lambda>w. starts_with w (map ascii_lower (c # r))) wide = List.find (\<lambda>w. starts_with w (c # r)) wide"
  proof (rule find_cong [OF refl])
    fix w
    assume "w \<in> set wide"
    with 3(3) have "list_all (\<lambda>c. 128 \<le> code c) w" by (simp add: list_all_iff)
    then show "starts_with w (map ascii_lower (c # r)) = starts_with w (c # r)" by (rule starts_with_lower)
  qed
  moreover have "str_space (ascii_lower c) = str_space c"
    by (auto simp: str_space_def ascii_lower_def code_char_of)
  ultimately show ?case using 3 by (auto split: option.split)
qed auto

lemma strip_lower: "strip (map ascii_lower s) = map ascii_lower (strip s)"
proof -
  have "list_all (list_all (\<lambda>c. 128 \<le> code c)) WIDE_SPACES" by (simp add: WIDE_SPACES_def code_def)
  then have "list_all (list_all (\<lambda>c. 128 \<le> code c)) (map rev WIDE_SPACES)" by (simp add: list_all_iff)
  with \<open>list_all _ WIDE_SPACES\<close> show ?thesis by (simp add: strip_def drop_spaces_lower rev_map)
qed

lemma plain_world_laws: "stdlib_laws plain_world"
  by (simp add: stdlib_laws_def plain_world_def strip_lower)

section \<open>The text of an amount\<close>

lemma read_decimal_append: "read_decimal (xs @ ys) = read_decimal xs * 10 ^ length ys + read_decimal ys"
proof (induction ys rule: rev_induct)
  case (snoc y ys)
  then show ?case by (simp add: read_decimal_def flip: append_assoc)
qed (simp add: read_decimal_def)

lemma read_decimal_zeros: "read_decimal (replicate n (CHR ''0'') @ s) = read_decimal s"
  by (induction n) (simp_all add: read_decimal_def digit_value_def code_def)

lemma decimal_length: "decimal n \<noteq> [] \<and> (0 < k \<longrightarrow> n < 10 ^ k \<longrightarrow> length (decimal n) \<le> k)"
proof (induction n arbitrary: k rule: decimal.induct)
  case (1 n)
  show ?case
  proof (cases "n < 10")
    case False
    have "length (decimal (n div 10)) \<le> k - 1" if "0 < k" "n < 10 ^ k"
    proof -
      obtain m where k: "k = Suc m" using \<open>0 < k\<close> gr0_implies_Suc by blast
      with that have "n div 10 < 10 ^ m" by (simp add: less_mult_imp_div_less mult.commute)
      moreover from this False have "0 < m" by (cases m) auto
      ultimately show ?thesis using 1 [OF False, of m] k by simp
    qed
    with False show ?thesis by (auto simp: decimal.simps [of n])
  qed (simp add: decimal.simps)
qed

lemma pad_facts:
  assumes "n < 10 ^ w" "0 < w"
  shows "length (pad w n) = w" "read_decimal (pad w n) = n" "c \<in> set (pad w n) \<Longrightarrow> c \<notin> set '',.- ''"
proof -
  show "length (pad w n) = w" using decimal_length [of n w] assms by (simp add: pad_def Let_def)
  show "read_decimal (pad w n) = n" by (simp add: pad_def Let_def read_decimal_zeros read_decimal_decimal)
  assume "c \<in> set (pad w n)"
  then have "48 \<le> code c" using decimal_chars by (auto simp: pad_def Let_def code_def)
  then show "c \<notin> set '',.- ''" by (auto simp: code_def)
qed

lemma decimal_plain: "c \<in> set (decimal n) \<Longrightarrow> c \<notin> set '',.- ''"
  using decimal_chars [of c n] by (auto simp: code_def)

lemma grouped_read:
  "read_decimal (filter (\<lambda>c. c \<noteq> CHR ''.'') (grouped n)) = n \<and> (\<forall>c\<in>set (grouped n). c \<notin> set '',- '')
   \<and> grouped n \<noteq> []"
proof (induction n rule: grouped.induct)
  case (1 n)
  show ?case
  proof (cases "n < 1000")
    case True
    have "filter (\<lambda>c. c \<noteq> CHR ''.'') (decimal n) = decimal n"
      using decimal_plain [of _ n] by (intro filter_True) auto
    with True show ?thesis using decimal_plain [of _ n] decimal_length [of n 1]
      by (auto simp: grouped.simps [of n] read_decimal_decimal)
  next
    case False
    have p: "length (pad 3 (n mod 1000)) = 3" "read_decimal (pad 3 (n mod 1000)) = n mod 1000"
      "\<And>c. c \<in> set (pad 3 (n mod 1000)) \<Longrightarrow> c \<notin> set '',.- ''"
      using pad_facts [of "n mod 1000" 3] by auto
    then have "filter (\<lambda>c. c \<noteq> CHR ''.'') (pad 3 (n mod 1000)) = pad 3 (n mod 1000)"
      by (intro filter_True) auto
    with False 1 p show ?thesis
      by (auto simp: grouped.simps [of n] read_decimal_append)
  qed
qed

text \<open>How a human reads the text back: sign, major units with dots, two digits, currency.\<close>

definition read_amount :: "string \<Rightarrow> int \<times> string" where
  "read_amount t =
     (let minus = (t \<noteq> [] \<and> hd t = CHR ''-''); body = (if minus then tl t else t);
          major = takeWhile (\<lambda>c. c \<noteq> CHR '','') body; rest = drop (length major + 1) body;
          n = read_decimal (filter (\<lambda>c. c \<noteq> CHR ''.'') major) * 100 + read_decimal (take 2 rest)
      in (if minus then - int n else int n, drop 3 rest))"

text \<open>
  C23: The text of an amount determines the amount and its currency. Whatever integer of minor units and
  whatever spelling of a currency are shown, the text that a human sees, with its sign, its grouping
  dots and its two decimals, reads back as that amount in the normalised currency.
\<close>

theorem shown_amount_reads_back:
  assumes "format_amount W v cur = Inr t"
  shows "\<exists>c. normalize_currency W cur = Inr c \<and> read_amount t = (v, c)"
proof -
  let ?n = "nat \<bar>v\<bar>"
  obtain c where c: "normalize_currency W cur = Inr c"
    and t: "t = (if v < 0 then ''-'' else []) @ grouped (?n div 100) @ '','' @ pad 2 (?n mod 100) @ '' '' @ c"
    using assms by (auto simp: format_amount_def on_ok_Inr_iff Let_def)
  let ?g = "grouped (?n div 100)" and ?p = "pad 2 (?n mod 100)"
  have p: "length ?p = 2" "read_decimal ?p = ?n mod 100" using pad_facts [of "?n mod 100" 2] by auto
  have g: "\<forall>c\<in>set ?g. c \<noteq> CHR '',''" "hd ?g \<noteq> CHR ''-''" "?g \<noteq> []"
    using grouped_read [of "?n div 100"] hd_in_set [of ?g] by auto
  have body: "takeWhile (\<lambda>c. c \<noteq> CHR '','') (?g @ '','' @ ?p @ '' '' @ c) = ?g"
    using g by (simp add: takeWhile_append2)
  have "?n div 100 * 100 + ?n mod 100 = ?n" by (rule div_mult_mod_eq)
  then have "(if v < 0 then - int (?n div 100 * 100 + ?n mod 100) else int (?n div 100 * 100 + ?n mod 100)) = v"
    by (simp del: div_mult_mod_eq)
  moreover have minus: "(t \<noteq> [] \<and> hd t = CHR ''-'') = (v < 0)" using g by (simp add: t hd_append)
  have unsigned: "(if v < 0 then tl t else t) = ?g @ '','' @ ?p @ '' '' @ c" by (simp add: t)
  have rest: "drop (length ?g + 1) (?g @ '','' @ ?p @ '' '' @ c) = ?p @ '' '' @ c" by simp
  have "read_decimal (filter (\<lambda>c. c \<noteq> CHR ''.'') ?g) * 100 + read_decimal (take 2 (?p @ '' '' @ c))
      = ?n div 100 * 100 + ?n mod 100" "drop 3 (?p @ '' '' @ c) = c"
    using p grouped_read [of "?n div 100"] by simp_all
  ultimately have "read_amount t = (v, c)"
    unfolding read_amount_def Let_def minus unsigned body rest by (simp only:)
  with c show ?thesis by blast
qed

theorem shown_amount_reads_back_witness: "read_amount ''-1.234.567,08 EUR'' = (- 123456708, ''EUR'')"
proof -
  have shown: "(if (- 123456708 :: int) < 0 then ''-'' else []) @ grouped (nat \<bar>- 123456708 :: int\<bar> div 100) @ '','' @
      pad 2 (nat \<bar>- 123456708 :: int\<bar> mod 100) @ '' '' @ ''EUR'' = ''-1.234.567,08 EUR''"
    by (simp add: grouped.simps decimal.simps pad_def) code_simp
  have eur: "normalize_currency plain_world ''EUR'' = Inr ''EUR''"
    by (rule listed_currency [OF plain_world_laws]) (simp add: EXPONENT_TWO_def)
  have "format_amount plain_world (- 123456708) ''EUR'' = Inr ''-1.234.567,08 EUR''"
    unfolding format_amount_def eur on_ok_simps Let_def by (rule arg_cong [OF shown])
  from shown_amount_reads_back [OF this] obtain c where "normalize_currency plain_world ''EUR'' = Inr c"
    and "read_amount ''-1.234.567,08 EUR'' = (- 123456708, c)" by (elim exE conjE) (rule that; assumption)
  with eur show ?thesis by (simp only: sum.inject)
qed

end
