(* ===== verification/Payment_Instrument.thy ===== *)
theory Payment_Instrument
  imports Payment_Intent
begin

text \<open>
  \<open>payment/instruments.py\<close>: a means of payment as SOLVIO knows it, a reference with limits. The limits
  only ever narrow what the provider allows; \<open>evaluate\<close> decides one payment, \<open>widens\<close> tells whether a
  new version authorises more than the old one, and the digest of the authority fields lets a reader of
  the store notice a row that was changed behind its back.
\<close>

section \<open>Instruments\<close>

datatype instrument_kind = IK_VIRTUAL_CARD | IK_PROVIDER_TOKEN | IK_MERCHANT_SAVED | IK_WALLET

fun instrument_kind_value :: "instrument_kind \<Rightarrow> string" where
  "instrument_kind_value IK_VIRTUAL_CARD = ''virtual_card''"
| "instrument_kind_value IK_PROVIDER_TOKEN = ''provider_token''"
| "instrument_kind_value IK_MERCHANT_SAVED = ''merchant_saved''"
| "instrument_kind_value IK_WALLET = ''wallet''"

datatype instrument_status = IS_ACTIVE | IS_DISABLED | IS_REVOKED | IS_REVALIDATION_REQUIRED

fun instrument_status_value :: "instrument_status \<Rightarrow> string" where
  "instrument_status_value IS_ACTIVE = ''active''"
| "instrument_status_value IS_DISABLED = ''disabled''"
| "instrument_status_value IS_REVOKED = ''revoked''"
| "instrument_status_value IS_REVALIDATION_REQUIRED = ''revalidation_required''"

definition can_pay :: "instrument_status \<Rightarrow> bool" where
  "can_pay st \<longleftrightarrow> st = IS_ACTIVE"

record instrument =
  in_ref :: string
  in_kind :: instrument_kind
  in_provider :: string
  in_status :: instrument_status
  in_max_single :: int
  in_daily_total :: int
  in_currencies :: "string list"
  in_merchants :: "string list"
  in_secret_ref :: string
  in_readonly_ref :: string
  in_refund_ref :: string
  in_token :: string
  in_version :: int
  in_display_name :: string
  in_display_hint :: string
  in_created_at :: string
  in_last_used_at :: string
  in_disabled_reason :: string

text \<open>\<open>re.fullmatch\<close> of \<open>[a-z0-9][a-z0-9._-]{0,62}\<close> and of \<open>[A-Za-z0-9][A-Za-z0-9._-]{0,127}\<close>.\<close>

definition provider_name_ok :: "string \<Rightarrow> bool" where
  "provider_name_ok p \<longleftrightarrow> p \<noteq> [] \<and> length p \<le> 63 \<and> part_char (hd p) \<and> list_all part_inner p"

definition token_char :: "char \<Rightarrow> bool" where
  "token_char c \<longleftrightarrow> part_char c \<or> (65 \<le> code c \<and> code c \<le> 90)"

definition token_ok :: "string \<Rightarrow> bool" where
  "token_ok t \<longleftrightarrow> t \<noteq> [] \<and> length t \<le> 128 \<and> token_char (hd t) \<and>
     list_all (\<lambda>c. token_char c \<or> c \<in> set ''._-'') t"

text \<open>
  \<open>_HINT\<close>: at most twenty filler characters (bullet, white space, middle dot, \<open>*\<close>, \<open>x\<close>, en dash, \<open>-\<close>)
  and then at most four digits, before an optional newline at the end.
\<close>

definition hint_filler :: "nat \<Rightarrow> bool" where
  "hint_filler n \<longleftrightarrow> n \<in> {0x2022, 0xB7, 0x2A, 0x78, 0x2013, 0x2D} \<or> (9 \<le> n \<and> n \<le> 13) \<or> (28 \<le> n \<and> n \<le> 32) \<or>
     n \<in> {0x85, 0xA0, 0x1680, 0x2028, 0x2029, 0x202F, 0x205F, 0x3000} \<or> (0x2000 \<le> n \<and> n \<le> 0x200A)"

definition plain_hint :: "nat list \<Rightarrow> bool" where
  "plain_hint ns \<longleftrightarrow> (let rest = dropWhile hint_filler ns in
     length (takeWhile hint_filler ns) \<le> 20 \<and> length rest \<le> 4 \<and> list_all (\<lambda>n. 48 \<le> n \<and> n \<le> 57) rest)"

definition hint_ok :: "string \<Rightarrow> bool" where
  "hint_ok h \<longleftrightarrow> (let ns = code_points h in
     plain_hint ns \<or> (ns \<noteq> [] \<and> last ns = 10 \<and> plain_hint (butlast ns)))"

definition reason_for :: "payment_world \<Rightarrow> string \<Rightarrow> bool" where
  "reason_for W t \<longleftrightarrow> t \<noteq> [] \<and> pw_material W t"

definition secret_if_given :: "payment_world \<Rightarrow> string \<Rightarrow> payment_exn + string" where
  "secret_if_given W v = (if v = [] then Inr [] else canonical_ref W SECRET_SCHEME v)"

text \<open>\<open>tuple(sorted({...}))\<close>.\<close>

definition sorted_set :: "string list \<Rightarrow> string list" where
  "sorted_set xs = sort (remdups xs)"

definition make_instrument :: "payment_world \<Rightarrow> instrument \<Rightarrow> payment_exn + instrument" where
  "make_instrument W i =
     on_ok (canonical_ref W PAYMENT_SCHEME (in_ref i)) (\<lambda>ref.
     check (\<not> provider_name_ok (in_provider i)) (Bad_value ''provider is not a valid name'')
     (check (in_max_single i \<le> 0) (Bad_value ''an instrument needs a positive single-payment limit'')
     (check (in_daily_total i < 0) (Bad_value ''daily limit must not be negative'')
     (on_ok (each_ok (normalize_currency W) (in_currencies i)) (\<lambda>cs.
      on_ok (secret_if_given W (in_secret_ref i)) (\<lambda>sec.
      on_ok (secret_if_given W (in_readonly_ref i)) (\<lambda>ro.
      on_ok (secret_if_given W (in_refund_ref i)) (\<lambda>rf.
      check (sec = ro \<and> sec \<noteq> []) (Bad_value ''charge and read-only credential must not be the same'')
      (check (in_token i \<noteq> [] \<and> \<not> token_ok (in_token i)) (Bad_value ''provider token is not a plausible identifier'')
      (check (in_token i \<noteq> [] \<and> reason_for W (in_token i)) (Bad_value ''provider token must not be payment material'')
      (check (in_display_hint i \<noteq> [] \<and> \<not> hint_ok (in_display_hint i))
         (Bad_value ''display hint does not look like a masked hint'')
      (check (text_length (in_display_name i) > 80) (Bad_value ''display name is too long'')
      (Inr (i\<lparr>in_ref := ref, in_currencies := sorted_set cs,
             in_merchants := sorted_set (map (\<lambda>m. pw_lower W (strip m))
               (filter (\<lambda>m. strip m \<noteq> []) (in_merchants i))),
             in_secret_ref := sec, in_readonly_ref := ro, in_refund_ref := rf\<rparr>))))))))))))))"

definition authority_fields :: "instrument \<Rightarrow> (string \<times> json_value) list" where
  "authority_fields i =
     [(''payment_ref'', Jstr (in_ref i)), (''kind'', Jstr (instrument_kind_value (in_kind i))),
      (''provider'', Jstr (in_provider i)), (''status'', Jstr (instrument_status_value (in_status i))),
      (''version'', Jint (in_version i)), (''max_single_minor'', Jint (in_max_single i)),
      (''daily_total_minor'', Jint (in_daily_total i)),
      (''allowed_currencies'', Jlist (map Jstr (in_currencies i))),
      (''allowed_merchant_ids'', Jlist (map Jstr (in_merchants i))),
      (''provider_secret_ref'', Jstr (in_secret_ref i)), (''provider_readonly_ref'', Jstr (in_readonly_ref i)),
      (''provider_refund_ref'', Jstr (in_refund_ref i)), (''provider_token'', Jstr (in_token i))]"

definition POLICY_DOMAIN :: string where "POLICY_DOMAIN = ''SOLVIO_PAYMENT_INSTRUMENT_POLICY_V1''"

definition policy_text :: "payment_world \<Rightarrow> instrument \<Rightarrow> string" where
  "policy_text W i = domain_preimage POLICY_DOMAIN (canonical_bytes (pw_float W) (authority_fields i))"

definition instrument_digest :: "payment_world \<Rightarrow> instrument \<Rightarrow> digest" where
  "instrument_digest W i = sha256_hex (pw_sha256 W) (policy_text W i)"

definition describe_instrument :: "bool \<Rightarrow> instrument \<Rightarrow> (string \<times> json_value) list" where
  "describe_instrument for_model i =
     [(''verweis'', Jstr (in_ref i)),
      (''name'', Jstr (if in_display_name i = [] then in_ref i else in_display_name i)),
      (''art'', Jstr (instrument_kind_value (in_kind i))), (''anbieter'', Jstr (in_provider i)),
      (''status'', Jstr (instrument_status_value (in_status i))), (''verfuegbar'', Jbool (can_pay (in_status i))),
      (''waehrungen'', Jlist (map Jstr (in_currencies i))), (''haendler'', Jlist (map Jstr (in_merchants i))),
      (''grenze_einzeln_minor'', Jint (in_max_single i)), (''grenze_taeglich_minor'', Jint (in_daily_total i)),
      (''zuletzt_benutzt'', Jstr (in_last_used_at i))]
     @ (if for_model then [] else [(''hinweis'', Jstr (in_display_hint i)),
                                  (''gesperrt_weil'', Jstr (in_disabled_reason i))])"

section \<open>May this payment go through it?\<close>

datatype refusal_reason =
    DN_NOT_ACTIVE | DN_CURRENCY | DN_MERCHANT | DN_SINGLE_LIMIT | DN_DAILY_LIMIT

fun refusal_value :: "refusal_reason \<Rightarrow> string" where
  "refusal_value DN_NOT_ACTIVE = ''not_active''"
| "refusal_value DN_CURRENCY = ''currency_not_allowed''"
| "refusal_value DN_MERCHANT = ''merchant_not_allowed''"
| "refusal_value DN_SINGLE_LIMIT = ''single_limit_exceeded''"
| "refusal_value DN_DAILY_LIMIT = ''daily_limit_exceeded''"

text \<open>\<open>None\<close> is the verdict \<open>ALLOW\<close>.\<close>

definition evaluate :: "payment_world \<Rightarrow> instrument \<Rightarrow> string \<Rightarrow> string \<Rightarrow> int \<Rightarrow> int \<Rightarrow> refusal_reason option" where
  "evaluate W i currency merchant_id amount_minor day_total =
     (if \<not> can_pay (in_status i) then Some DN_NOT_ACTIVE
      else case normalize_currency W currency of
        Inl _ \<Rightarrow> Some DN_CURRENCY
      | Inr cur \<Rightarrow>
          if cur \<notin> set (in_currencies i) then Some DN_CURRENCY
          else let wanted = pw_lower W (strip merchant_id) in
          if wanted = [] \<or> wanted \<notin> set (in_merchants i) then Some DN_MERCHANT
          else if amount_minor \<le> 0 then Some DN_SINGLE_LIMIT
          else if amount_minor > in_max_single i then Some DN_SINGLE_LIMIT
          else if in_daily_total i \<noteq> 0 \<and> max 0 day_total + amount_minor > in_daily_total i
          then Some DN_DAILY_LIMIT
          else None)"

definition wider :: "string list \<Rightarrow> string list \<Rightarrow> bool" where
  "wider new old \<longleftrightarrow> \<not> set new \<subseteq> set old"

definition widens :: "instrument \<Rightarrow> instrument \<Rightarrow> bool" where
  "widens previous following \<longleftrightarrow>
     in_max_single following > in_max_single previous
   \<or> (in_daily_total previous \<noteq> 0 \<and> in_daily_total following = 0)
   \<or> in_daily_total following > in_daily_total previous
   \<or> wider (in_currencies following) (in_currencies previous)
   \<or> wider (in_merchants following) (in_merchants previous)
   \<or> (\<not> can_pay (in_status previous) \<and> can_pay (in_status following))"

section \<open>What does not widen\<close>

lemma evaluate_allows_iff:
  "evaluate W i c m a d = None \<longleftrightarrow>
     in_status i = IS_ACTIVE \<and> (\<exists>cur. normalize_currency W c = Inr cur \<and> cur \<in> set (in_currencies i)) \<and>
     pw_lower W (strip m) \<noteq> [] \<and> pw_lower W (strip m) \<in> set (in_merchants i) \<and>
     0 < a \<and> a \<le> in_max_single i \<and> (in_daily_total i = 0 \<or> max 0 d + a \<le> in_daily_total i)"
  by (auto simp: evaluate_def can_pay_def Let_def not_less split: sum.splits)

lemma not_widened_is_no_wider:
  assumes "\<not> widens p f" "evaluate W f c m a d = None"
  shows "evaluate W p c m a d = None"
  using assms unfolding evaluate_allows_iff widens_def wider_def can_pay_def by auto

text \<open>
  C24: A change of an instrument that the code does not count as a widening authorises nothing new:
  every payment the new version lets through, for any currency, merchant, amount and state of the day,
  the old version would have let through as well. This is what allows lowering a limit without Face ID.
\<close>

theorem what_does_not_widen_allows_nothing_new:
  assumes "\<not> widens p f" "evaluate W f currency merchant_id amount_minor day_total = None"
  shows "evaluate W p currency merchant_id amount_minor day_total = None"
  using assms by (rule not_widened_is_no_wider)

definition demo_instrument :: instrument where
  "demo_instrument = \<lparr>in_ref = ''payment://shopping/default'', in_kind = IK_VIRTUAL_CARD, in_provider = ''sandbox'',
     in_status = IS_ACTIVE, in_max_single = 20000, in_daily_total = 30000, in_currencies = [''EUR''],
     in_merchants = [''sandbox-shop''], in_secret_ref = ''secret://sandbox/charge'',
     in_readonly_ref = ''secret://sandbox/read'', in_refund_ref = [], in_token = ''pm_1'', in_version = 1,
     in_display_name = ''Karte'', in_display_hint = [], in_created_at = [], in_last_used_at = [],
     in_disabled_reason = []\<rparr>"

lemma demo_merchant: "pw_lower plain_world (strip ''sandbox-shop'') = ''sandbox-shop''"
proof -
  have "strip ''sandbox-shop'' = ''sandbox-shop''" by (rule strip_bare) code_simp
  moreover have "map ascii_lower ''sandbox-shop'' = ''sandbox-shop''" by code_simp
  ultimately show ?thesis by (simp add: plain_world_def)
qed

lemma demo_currency: "normalize_currency plain_world ''EUR'' = Inr ''EUR''"
  by (rule listed_currency [OF plain_world_laws]) (simp add: EXPONENT_TWO_def)

lemma demo_evaluate:
  "in_status i = IS_ACTIVE \<Longrightarrow> in_currencies i = [''EUR''] \<Longrightarrow> in_merchants i = [''sandbox-shop''] \<Longrightarrow>
   0 < a \<Longrightarrow> a \<le> in_max_single i \<Longrightarrow> max 0 d + a \<le> in_daily_total i \<Longrightarrow>
   evaluate plain_world i ''EUR'' ''sandbox-shop'' a d = None"
  by (simp add: evaluate_allows_iff demo_currency demo_merchant)

theorem what_does_not_widen_allows_nothing_new_witness:
  "evaluate plain_world demo_instrument ''EUR'' ''sandbox-shop'' 8999 10000 = None"
proof -
  let ?lower = "demo_instrument\<lparr>in_max_single := 10000, in_daily_total := 20000\<rparr>"
  have "\<not> widens demo_instrument ?lower" by (simp add: widens_def wider_def demo_instrument_def)
  moreover have "evaluate plain_world ?lower ''EUR'' ''sandbox-shop'' 8999 10000 = None"
    by (rule demo_evaluate) (simp_all add: demo_instrument_def)
  ultimately show ?thesis by (rule what_does_not_widen_allows_nothing_new)
qed

text \<open>
  The converse fails in one place: giving an instrument its first daily limit allows less than before,
  and still counts as a widening, because the daily limit is then a larger number.
\<close>

lemma first_daily_limit_counts_as_a_widening:
  assumes "in_daily_total p = 0" "0 < n"
  shows "widens p (p\<lparr>in_daily_total := n\<rparr>)"
    and "evaluate W (p\<lparr>in_daily_total := n\<rparr>) c m a d = None \<Longrightarrow> evaluate W p c m a d = None"
  using assms by (auto simp: widens_def evaluate_allows_iff)

section \<open>The checksum of the authority\<close>

lemma authority_fields_inj:
  assumes "sorted_keys (Jdict (authority_fields i)) = sorted_keys (Jdict (authority_fields j))"
  shows "authority_fields i = authority_fields j"
proof -
  have "distinct (map fst (authority_fields j))" by (simp add: authority_fields_def)
  note same = sorted_keys_member [OF assms this, unfolded authority_fields_def]
  have lists: "map Jstr (in_currencies i) = map Jstr (in_currencies j)" "map Jstr (in_merchants i) = map Jstr (in_merchants j)"
    using same [of "''allowed_currencies''" "Jlist (map Jstr (in_currencies i))" "Jlist (map Jstr (in_currencies j))"]
      same [of "''allowed_merchant_ids''" "Jlist (map Jstr (in_merchants i))" "Jlist (map Jstr (in_merchants j))"]
    by (simp_all add: comp_def)
  have words: "in_ref i = in_ref j" "instrument_kind_value (in_kind i) = instrument_kind_value (in_kind j)"
    "in_provider i = in_provider j" "instrument_status_value (in_status i) = instrument_status_value (in_status j)"
    "in_secret_ref i = in_secret_ref j" "in_readonly_ref i = in_readonly_ref j"
    "in_refund_ref i = in_refund_ref j" "in_token i = in_token j"
    using same [of "''payment_ref''" "Jstr (in_ref i)" "Jstr (in_ref j)"]
      same [of "''kind''" "Jstr (instrument_kind_value (in_kind i))" "Jstr (instrument_kind_value (in_kind j))"]
      same [of "''provider''" "Jstr (in_provider i)" "Jstr (in_provider j)"]
      same [of "''status''" "Jstr (instrument_status_value (in_status i))" "Jstr (instrument_status_value (in_status j))"]
      same [of "''provider_secret_ref''" "Jstr (in_secret_ref i)" "Jstr (in_secret_ref j)"]
      same [of "''provider_readonly_ref''" "Jstr (in_readonly_ref i)" "Jstr (in_readonly_ref j)"]
      same [of "''provider_refund_ref''" "Jstr (in_refund_ref i)" "Jstr (in_refund_ref j)"]
      same [of "''provider_token''" "Jstr (in_token i)" "Jstr (in_token j)"]
    by simp_all
  have numbers: "in_version i = in_version j" "in_max_single i = in_max_single j" "in_daily_total i = in_daily_total j"
    using same [of "''version''" "Jint (in_version i)" "Jint (in_version j)"]
      same [of "''max_single_minor''" "Jint (in_max_single i)" "Jint (in_max_single j)"]
      same [of "''daily_total_minor''" "Jint (in_daily_total i)" "Jint (in_daily_total j)"]
    by simp_all
  show ?thesis unfolding authority_fields_def words numbers lists ..
qed

end
