(* ===== verification/Payment_Store.thy ===== *)
theory Payment_Store
  imports Payment_Instrument
begin

text \<open>
  \<open>payment/store.py\<close>: the instruments, the intents and the book of payments, three tables in one
  database. A row of the intents holds the columns as the intent they make up, its two JSON columns as
  the values they stand for; reading runs the constructors again. The book is only ever appended to,
  and a partial unique index admits one charge per execution.
\<close>

section \<open>The tables\<close>

datatype ledger_event =
    EV_CREATED | EV_QUOTED | EV_APPROVED | EV_CLAIMED | EV_CHARGED | EV_DECLINED | EV_FAILED
  | EV_AMBIGUOUS | EV_RECONCILED | EV_CANCELLED | EV_EXPIRED | EV_REFUNDED | EV_DENIED
  | EV_INSTRUMENT_CHANGED

record ledger_row =
  lg_at :: string
  lg_intent :: string
  lg_event :: ledger_event
  lg_merchant :: string
  lg_merchant_origin :: string
  lg_description :: string
  lg_amount :: int
  lg_currency :: string
  lg_instrument :: string
  lg_origin :: string
  lg_approval :: approval_id
  lg_execution :: string
  lg_provider :: string
  lg_provider_ref :: string
  lg_status :: string
  lg_refund_status :: string
  lg_refunded :: int
  lg_failure :: string
  lg_agent_run :: string
  lg_task :: string

record instrument_row =
  nr_columns :: instrument
  nr_currencies :: string
  nr_merchants :: string
  nr_policy_sha256 :: digest

record intent_row =
  tr_intent :: payment_intent
  tr_updated_at :: string

record payments =
  py_instruments :: "instrument_row list"
  py_intents :: "intent_row list"
  py_ledger :: "ledger_row list"

definition empty_payments :: payments where
  "empty_payments = \<lparr>py_instruments = [], py_intents = [], py_ledger = []\<rparr>"

text \<open>\<open>INSERT ... ON CONFLICT(key) DO UPDATE SET ...\<close>: \<open>merge old new\<close> is what the update leaves.\<close>

definition upsert :: "('r \<Rightarrow> 'k) \<Rightarrow> ('r \<Rightarrow> 'r \<Rightarrow> 'r) \<Rightarrow> 'r \<Rightarrow> 'r list \<Rightarrow> 'r list" where
  "upsert key merge r t =
     (if key r \<in> set (map key t) then update_where (\<lambda>x. key x = key r) (\<lambda>x. merge x r) t else t @ [r])"

section \<open>Instruments\<close>

definition join_lines :: "string list \<Rightarrow> string" where
  "join_lines vs = join_with [CHR 0x0A] vs"

definition split_lines :: "string \<Rightarrow> string list" where
  "split_lines t = filter (\<lambda>p. p \<noteq> []) (split_on (CHR 0x0A) t)"

abbreviation row_ref :: "instrument_row \<Rightarrow> string" where
  "row_ref r \<equiv> in_ref (nr_columns r)"

definition merge_instrument :: "instrument_row \<Rightarrow> instrument_row \<Rightarrow> instrument_row" where
  "merge_instrument old new = new\<lparr>nr_columns := (nr_columns new)\<lparr>in_created_at := in_created_at (nr_columns old),
     in_last_used_at := in_last_used_at (nr_columns old)\<rparr>\<rparr>"

definition put_instrument :: "payment_world \<Rightarrow> time \<Rightarrow> instrument \<Rightarrow> payments \<Rightarrow> payment_exn + payments" where
  "put_instrument W now i s =
     check (reason_for W (in_display_name i)) Material_refused
     (check (reason_for W (in_disabled_reason i)) Material_refused
     (Inr (s\<lparr>py_instruments := upsert row_ref merge_instrument
        \<lparr>nr_columns = i\<lparr>in_created_at := (if in_created_at i = [] then pw_iso W now else in_created_at i)\<rparr>,
         nr_currencies = join_lines (in_currencies i), nr_merchants = join_lines (in_merchants i),
         nr_policy_sha256 = instrument_digest W i\<rparr> (py_instruments s)\<rparr>)))"

definition instrument_from_row :: "payment_world \<Rightarrow> instrument_row \<Rightarrow> payment_exn + instrument" where
  "instrument_from_row W r = make_instrument W ((nr_columns r)\<lparr>in_currencies := split_lines (nr_currencies r),
     in_merchants := split_lines (nr_merchants r)\<rparr>)"

text \<open>The constructor's errors are not caught here: a row that is no instrument raises.\<close>

definition find_instrument :: "payment_world \<Rightarrow> string \<Rightarrow> payments \<Rightarrow> payment_exn + instrument option" where
  "find_instrument W ref s =
     (case canonical_ref W PAYMENT_SCHEME ref of
        Inl _ \<Rightarrow> Inr None
      | Inr key \<Rightarrow> (case by_key row_ref key (py_instruments s) of
          None \<Rightarrow> Inr None
        | Some row \<Rightarrow> on_ok (instrument_from_row W row) (\<lambda>i.
            Inr (if instrument_digest W i \<noteq> nr_policy_sha256 row then None else Some i))))"

definition all_instruments :: "payment_world \<Rightarrow> payments \<Rightarrow> payment_exn + instrument list" where
  "all_instruments W s =
     on_ok (each_ok (\<lambda>ref. find_instrument W ref s) (sort (map row_ref (py_instruments s))))
       (\<lambda>found. Inr (List.map_filter id found))"

definition touch_instrument :: "payment_world \<Rightarrow> time \<Rightarrow> string \<Rightarrow> payments \<Rightarrow> payments" where
  "touch_instrument W now ref s = s\<lparr>py_instruments := update_where (\<lambda>r. row_ref r = ref)
     (\<lambda>r. r\<lparr>nr_columns := (nr_columns r)\<lparr>in_last_used_at := pw_iso W now\<rparr>\<rparr>) (py_instruments s)\<rparr>"

definition delete_instrument :: "string \<Rightarrow> payments \<Rightarrow> bool \<times> payments" where
  "delete_instrument ref s =
     (0 < rowcount (\<lambda>r. row_ref r = ref) (py_instruments s),
      s\<lparr>py_instruments := filter (\<lambda>r. row_ref r \<noteq> ref) (py_instruments s)\<rparr>)"

section \<open>Intents\<close>

abbreviation row_pid :: "intent_row \<Rightarrow> string" where
  "row_pid r \<equiv> pi_id (tr_intent r)"

definition merge_intent :: "intent_row \<Rightarrow> intent_row \<Rightarrow> intent_row" where
  "merge_intent old new = (let n = tr_intent new in
     \<lparr>tr_intent = (tr_intent old)\<lparr>pi_state := pi_state n, pi_quote := pi_quote n, pi_execution := pi_execution n,
        pi_approval := pi_approval n, pi_agent_run := pi_agent_run n, pi_task := pi_task n\<rparr>,
      tr_updated_at = tr_updated_at new\<rparr>)"

definition put_intent :: "payment_world \<Rightarrow> time \<Rightarrow> payment_intent \<Rightarrow> payments \<Rightarrow> payment_exn + payments" where
  "put_intent W now i s =
     check (reason_for W (pi_purpose i)) Material_refused
     (check (\<exists>x\<in>set (pi_items i). reason_for W (li_description x)) Material_refused
     (Inr (s\<lparr>py_intents := upsert row_pid merge_intent
        \<lparr>tr_intent = i, tr_updated_at = pw_iso W now\<rparr> (py_intents s)\<rparr>)))"

definition read_quote :: "payment_world \<Rightarrow> payment_quote option \<Rightarrow> payment_exn + payment_quote option" where
  "read_quote W q = (case q of
       None \<Rightarrow> Inr None
     | Some raw \<Rightarrow> on_ok (each_ok (make_extra W) (pq_extras raw)) (\<lambda>es.
         on_ok (make_quote W (raw\<lparr>pq_extras := es\<rparr>)) (\<lambda>x. Inr (Some x))))"

definition intent_from_row :: "payment_world \<Rightarrow> intent_row \<Rightarrow> payment_exn + payment_intent" where
  "intent_from_row W r =
     on_ok (each_ok (make_item W) (pi_items (tr_intent r))) (\<lambda>items.
     on_ok (read_quote W (pi_quote (tr_intent r))) (\<lambda>quote.
     make_intent W ((tr_intent r)\<lparr>pi_items := items, pi_quote := quote\<rparr>)))"

definition readable_intent :: "payment_world \<Rightarrow> intent_row \<Rightarrow> payment_intent option" where
  "readable_intent W r = (case intent_from_row W r of Inl _ \<Rightarrow> None | Inr i \<Rightarrow> Some i)"

definition find_intent :: "payment_world \<Rightarrow> string \<Rightarrow> payments \<Rightarrow> payment_intent option" where
  "find_intent W pid s = Option.bind (by_key row_pid pid (py_intents s)) (readable_intent W)"

definition list_intents :: "payment_world \<Rightarrow> payment_state list \<Rightarrow> nat \<Rightarrow> payments \<Rightarrow> payment_intent list" where
  "list_intents W states limit s =
     List.map_filter (readable_intent W) (take (max 1 (min limit 500))
       (sort_key (\<lambda>r. - pi_created (tr_intent r))
          (filter (\<lambda>r. states = [] \<or> pi_state (tr_intent r) \<in> set states) (py_intents s))))"

definition open_reconciliations :: "payments \<Rightarrow> (string \<times> string \<times> payment_state \<times> string \<times> string) list" where
  "open_reconciliations s =
     map (\<lambda>r. (row_pid r, pi_merchant (tr_intent r), pi_state (tr_intent r), pi_execution (tr_intent r),
               tr_updated_at r))
       (sort_key (\<lambda>r. - pi_created (tr_intent r))
          (filter (\<lambda>r. pi_state (tr_intent r) \<in> {PS_RECONCILE, PS_AWAITING_SCA, PS_EXECUTING}) (py_intents s)))"

section \<open>The book\<close>

text \<open>The defaults of the columns a caller of \<open>record\<close> does not name.\<close>

definition ledger_line :: "ledger_event \<Rightarrow> string \<Rightarrow> ledger_row" where
  "ledger_line ev pid = \<lparr>lg_at = [], lg_intent = pid, lg_event = ev, lg_merchant = [], lg_merchant_origin = [],
     lg_description = [], lg_amount = 0, lg_currency = [], lg_instrument = [], lg_origin = [], lg_approval = [],
     lg_execution = [], lg_provider = [], lg_provider_ref = [], lg_status = [], lg_refund_status = [],
     lg_refunded = 0, lg_failure = [], lg_agent_run = [], lg_task = []\<rparr>"

text \<open>The rows the unique index \<open>idx_ledger_charge_once\<close> is about.\<close>

definition indexed_charge :: "ledger_row \<Rightarrow> bool" where
  "indexed_charge r \<longleftrightarrow> lg_event r = EV_CHARGED \<and> lg_execution r \<noteq> []"

definition record_line :: "payment_world \<Rightarrow> time \<Rightarrow> ledger_row \<Rightarrow> payments \<Rightarrow> payment_exn + payments" where
  "record_line W now r s =
     check (reason_for W (lg_description r)) Material_refused
     (check (reason_for W (lg_provider_ref r)) Material_refused
     (let row = r\<lparr>lg_at := pw_iso W now, lg_description := take_points 400 (lg_description r),
                  lg_provider_ref := take_points 128 (lg_provider_ref r)\<rparr>
      in check (indexed_charge row \<and> (\<exists>x\<in>set (py_ledger s). indexed_charge x \<and> lg_execution x = lg_execution row))
           Duplicate_charge
         (Inr (s\<lparr>py_ledger := py_ledger s @ [row]\<rparr>))))"

text \<open>\<open>ORDER BY id DESC LIMIT ?\<close>: the newest rows, at most a thousand.\<close>

definition ledger :: "string \<Rightarrow> nat \<Rightarrow> payments \<Rightarrow> ledger_row list" where
  "ledger pid limit s = take (max 1 (min limit 1000))
     (rev (filter (\<lambda>r. pid = [] \<or> lg_intent r = pid) (py_ledger s)))"

definition charged_execution_ids :: "payments \<Rightarrow> string list" where
  "charged_execution_ids s = map lg_execution (filter indexed_charge (py_ledger s))"

definition day_total :: "string \<Rightarrow> string \<Rightarrow> string \<Rightarrow> payments \<Rightarrow> int" where
  "day_total ref day currency s = sum_list (map lg_amount (filter
     (\<lambda>r. lg_event r = EV_CHARGED \<and> lg_instrument r = ref \<and> take 10 (lg_at r) = take 10 day \<and>
          (currency = [] \<or> lg_currency r = currency)) (py_ledger s)))"

section \<open>Every store that can come about\<close>

text \<open>One statement on the database, by whatever part of the program and in whatever order.\<close>

inductive payment_step :: "payment_world \<Rightarrow> payments \<Rightarrow> payments \<Rightarrow> bool" for W where
  step_instrument: "put_instrument W now i s = Inr t \<Longrightarrow> payment_step W s t"
| step_touch: "payment_step W s (touch_instrument W now ref s)"
| step_delete: "payment_step W s (snd (delete_instrument ref s))"
| step_intent: "put_intent W now p s = Inr t \<Longrightarrow> payment_step W s t"
| step_record: "record_line W now r s = Inr t \<Longrightarrow> payment_step W s t"

inductive_cases payment_stepE: "payment_step W s t"

abbreviation payment_run :: "payment_world \<Rightarrow> payments \<Rightarrow> payments \<Rightarrow> bool" where
  "payment_run W \<equiv> reaches (payment_step W)"

text \<open>Keys are unique and no execution is booked twice.\<close>

definition payments_inv :: "payments \<Rightarrow> bool" where
  "payments_inv s \<longleftrightarrow> distinct (map row_ref (py_instruments s)) \<and> distinct (map row_pid (py_intents s)) \<and>
     distinct (charged_execution_ids s)"

text \<open>The columns \<open>put_intent\<close> never updates.\<close>

definition intent_terms :: "payment_intent \<Rightarrow> payment_intent" where
  "intent_terms i = i\<lparr>pi_state := PS_DRAFT, pi_quote := None, pi_execution := [], pi_approval := [],
     pi_agent_run := [], pi_task := []\<rparr>"

text \<open>What later statements leave of a store: the book as far as written, the terms of the intents.\<close>

definition payments_evolve :: "payments \<Rightarrow> payments \<Rightarrow> bool" where
  "payments_evolve s t \<longleftrightarrow> (\<exists>rest. py_ledger t = py_ledger s @ rest) \<and>
     table_evolves row_pid (\<lambda>a b. intent_terms (tr_intent a) = intent_terms (tr_intent b))
       (py_intents s) (py_intents t)"

lemma upsert_keys:
  assumes "\<And>x. key x = key r \<Longrightarrow> key (merge x r) = key r"
  shows "map key (upsert key merge r t) = (if key r \<in> set (map key t) then map key t else map key t @ [key r])"
  using assms by (auto simp: upsert_def update_where_def)

lemma upsert_distinct:
  assumes "\<And>x. key x = key r \<Longrightarrow> key (merge x r) = key r" "distinct (map key t)"
  shows "distinct (map key (upsert key merge r t))"
  using assms(2) by (simp add: upsert_keys [of key r merge, OF assms(1)])

lemma upsert_evolves:
  assumes "\<And>x. key x = key r \<Longrightarrow> key (merge x r) = key r" "\<And>x. rel x x"
    and "\<And>x. key x = key r \<Longrightarrow> rel x (merge x r)"
  shows "table_evolves key rel t (upsert key merge r t)"
  unfolding upsert_def using assms
  by (auto intro!: table_evolves_update table_evolves_append)

lemma by_key_upsert:
  assumes "\<And>x. key x = key r \<Longrightarrow> key (merge x r) = key r"
  shows "by_key key k (upsert key merge r t) =
    (if k = key r then Some (case by_key key k t of None \<Rightarrow> r | Some old \<Rightarrow> merge old r) else by_key key k t)"
proof (cases "key r \<in> set (map key t)")
  case True
  have "by_key key k (upsert key merge r t) = map_option (\<lambda>x. if key x = key r then merge x r else x) (by_key key k t)"
    using True assms by (simp add: upsert_def by_key_update_if [where p = "\<lambda>x. key x = key r"])
  moreover have "\<exists>x. by_key key (key r) t = Some x"
    using True by_key_None_iff [of key "key r" t] by auto
  ultimately show ?thesis by (cases "by_key key k t") (auto dest: by_key_SomeD)
next
  case False
  then have "by_key key (key r) t = None" by (auto simp: by_key_None_iff)
  with False show ?thesis by (auto simp: upsert_def by_key_append by_key_Cons split: option.split)
qed

lemma merge_intent_facts:
  "row_pid (merge_intent a b) = row_pid a" "intent_terms (tr_intent (merge_intent a b)) = intent_terms (tr_intent a)"
  by (simp_all add: merge_intent_def intent_terms_def Let_def)

lemma put_intent_Inr:
  assumes "put_intent W now p s = Inr t"
  shows "t = s\<lparr>py_intents := upsert row_pid merge_intent \<lparr>tr_intent = p, tr_updated_at = pw_iso W now\<rparr> (py_intents s)\<rparr>"
  using assms by (auto simp: put_intent_def check_Inr_iff)

lemma record_line_Inr:
  assumes "record_line W now r s = Inr t"
  obtains row where "t = s\<lparr>py_ledger := py_ledger s @ [row]\<rparr>"
    "row = r\<lparr>lg_at := pw_iso W now, lg_description := take_points 400 (lg_description r),
           lg_provider_ref := take_points 128 (lg_provider_ref r)\<rparr>"
    "indexed_charge row \<Longrightarrow> lg_execution row \<notin> set (charged_execution_ids s)"
proof -
  let ?row = "r\<lparr>lg_at := pw_iso W now, lg_description := take_points 400 (lg_description r),
    lg_provider_ref := take_points 128 (lg_provider_ref r)\<rparr>"
  from assms have "t = s\<lparr>py_ledger := py_ledger s @ [?row]\<rparr>"
    and "indexed_charge ?row \<Longrightarrow> lg_execution ?row \<notin> set (charged_execution_ids s)"
    by (auto simp: record_line_def check_Inr_iff Let_def charged_execution_ids_def)
  from that [OF this(1) refl this(2)] show thesis .
qed

lemma payment_step_inv:
  assumes "payments_inv s" "payment_step W s t"
  shows "payments_inv t"
  using assms(2)
proof cases
  case (step_instrument now i)
  then show ?thesis using assms(1)
    by (auto simp: put_instrument_def check_Inr_iff payments_inv_def charged_execution_ids_def merge_instrument_def
      intro!: upsert_distinct)
next
  case (step_touch now ref)
  have "map row_ref (py_instruments t) = map row_ref (py_instruments s)"
    by (auto simp: step_touch touch_instrument_def update_where_def)
  with assms(1) show ?thesis by (simp add: step_touch payments_inv_def charged_execution_ids_def touch_instrument_def)
next
  case (step_delete ref)
  with assms(1) show ?thesis
    by (simp add: payments_inv_def charged_execution_ids_def delete_instrument_def distinct_map_filter)
next
  case (step_intent now p)
  then show ?thesis using assms(1)
    by (auto simp: payments_inv_def charged_execution_ids_def merge_intent_facts dest!: put_intent_Inr
      intro!: upsert_distinct)
next
  case (step_record now r)
  then show ?thesis using assms(1)
    by (elim record_line_Inr) (auto simp: payments_inv_def charged_execution_ids_def)
qed

lemma payment_step_evolves:
  assumes "payment_step W s t"
  shows "payments_evolve s t"
  using assms
proof cases
  case (step_intent now p)
  then show ?thesis
    by (auto simp: payments_evolve_def merge_intent_facts dest!: put_intent_Inr intro!: upsert_evolves)
next
  case (step_record now r)
  then show ?thesis by (elim record_line_Inr) (simp add: payments_evolve_def table_evolves_refl)
qed (auto simp: payments_evolve_def table_evolves_refl put_instrument_def check_Inr_iff touch_instrument_def
  delete_instrument_def)

lemma payments_evolve_refl: "payments_evolve s s"
  by (simp add: payments_evolve_def table_evolves_refl)

lemma payments_evolve_trans: "payments_evolve s t \<Longrightarrow> payments_evolve t u \<Longrightarrow> payments_evolve s u"
  unfolding payments_evolve_def by (auto elim: table_evolves_trans)

interpretation payment_book: monotone_system "payment_step W" payments_inv payments_evolve
  by unfold_locales
    (rule payments_evolve_refl, erule (1) payments_evolve_trans, erule (1) payment_step_inv,
     erule payment_step_evolves)

section \<open>Reading back\<close>

text \<open>An intent that exists as an object: it and its parts have come out of their constructors.\<close>

definition live_intent :: "payment_world \<Rightarrow> payment_intent \<Rightarrow> bool" where
  "live_intent W i \<longleftrightarrow> intent_ok W i \<and> (\<forall>x\<in>set (pi_items i). make_item W x = Inr x) \<and>
     (case pi_quote i of None \<Rightarrow> True
      | Some q \<Rightarrow> make_quote W q = Inr q \<and> (\<forall>e\<in>set (pq_extras q). make_extra W e = Inr e))"

lemma live_row:
  assumes "live_intent W (tr_intent r)"
  shows "readable_intent W r = Some (tr_intent r)"
proof -
  let ?i = "tr_intent r"
  have items: "each_ok (make_item W) (pi_items ?i) = Inr (pi_items ?i)"
    using assms by (intro each_ok_id) (simp add: live_intent_def)
  have quote: "read_quote W (pi_quote ?i) = Inr (pi_quote ?i)"
    using assms by (auto simp: live_intent_def read_quote_def each_ok_id split: option.splits)
  have "?i\<lparr>pi_items := pi_items ?i, pi_quote := pi_quote ?i\<rparr> = ?i" by simp
  with assms items quote show ?thesis
    by (simp add: readable_intent_def intent_from_row_def live_intent_def intent_ok_def)
qed

lemma live_moved: "live_intent W i \<Longrightarrow> live_intent W (moved st eid aid i)"
  using moved_ok by (auto simp: live_intent_def) (simp_all add: moved_def)

lemma each_ok_again:
  assumes "each_ok f xs = Inr ys" "\<And>x y. f x = Inr y \<Longrightarrow> f y = Inr y" "y \<in> set ys"
  shows "f y = Inr y"
  using each_ok_Inr_set [OF assms(1,3)] assms(2) by blast

text \<open>Whatever is read from the table is such an object.\<close>

lemma found_live:
  assumes laws: "stdlib_laws W" and "find_intent W pid s = Some i"
  shows "live_intent W i"
proof -
  from assms(2) obtain r where "readable_intent W r = Some i"
    by (auto simp: find_intent_def bind_eq_Some_conv)
  then have "intent_from_row W r = Inr i" by (auto simp: readable_intent_def split: sum.splits)
  then obtain items q where items: "each_ok (make_item W) (pi_items (tr_intent r)) = Inr items"
    and q: "read_quote W (pi_quote (tr_intent r)) = Inr q"
    and i: "make_intent W ((tr_intent r)\<lparr>pi_items := items, pi_quote := q\<rparr>) = Inr i"
    by (auto simp: intent_from_row_def on_ok_Inr_iff)
  from i have same: "pi_items i = items" "pi_quote i = q"
    by (elim make_intent_Inr; simp)+
  have "\<forall>x\<in>set items. make_item W x = Inr x"
    using each_ok_again [OF items] make_item_again [OF laws] by blast
  moreover have "make_quote W x = Inr x \<and> (\<forall>e\<in>set (pq_extras x). make_extra W e = Inr e)" if "q = Some x" for x
  proof -
    from q that obtain raw es where es: "each_ok (make_extra W) (pq_extras raw) = Inr es"
      and x: "make_quote W (raw\<lparr>pq_extras := es\<rparr>) = Inr x"
      by (auto simp: read_quote_def on_ok_Inr_iff split: option.splits)
    from x have "pq_extras x = es" by (elim make_quote_Inr) simp
    with each_ok_again [OF es] make_extra_again [OF laws] make_quote_again [OF laws x] show ?thesis by blast
  qed
  ultimately show ?thesis
    using make_intent_again [OF laws i] by (auto simp: live_intent_def same split: option.split)
qed

text \<open>The row of an intent is the intent.\<close>

definition stored :: "payment_world \<Rightarrow> payment_intent \<Rightarrow> payments \<Rightarrow> bool" where
  "stored W i s \<longleftrightarrow> live_intent W i \<and> map_option tr_intent (by_key row_pid (pi_id i) (py_intents s)) = Some i"

lemma stored_found: "stored W i s \<Longrightarrow> find_intent W (pi_id i) s = Some i"
  by (auto simp: stored_def find_intent_def live_row)

lemma put_intent_row:
  assumes "put_intent W now p s = Inr t"
  shows "map_option tr_intent (by_key row_pid pid (py_intents t)) =
    (if pid = pi_id p then Some (case by_key row_pid pid (py_intents s) of
         None \<Rightarrow> p
       | Some old \<Rightarrow> (tr_intent old)\<lparr>pi_state := pi_state p, pi_quote := pi_quote p, pi_execution := pi_execution p,
           pi_approval := pi_approval p, pi_agent_run := pi_agent_run p, pi_task := pi_task p\<rparr>)
     else map_option tr_intent (by_key row_pid pid (py_intents s)))"
  using put_intent_Inr [OF assms]
  by (auto simp: by_key_upsert merge_intent_facts) (auto simp: merge_intent_def Let_def split: option.split)

lemma put_intent_stored:
  assumes "put_intent W now p s = Inr t" "live_intent W p"
    and "\<And>old. by_key row_pid (pi_id p) (py_intents s) = Some old \<Longrightarrow> intent_terms (tr_intent old) = intent_terms p"
  shows "stored W p t"
proof -
  have "a\<lparr>pi_state := pi_state p, pi_quote := pi_quote p, pi_execution := pi_execution p,
      pi_approval := pi_approval p, pi_agent_run := pi_agent_run p, pi_task := pi_task p\<rparr> = p"
    if "intent_terms a = intent_terms p" for a
    using that by (cases a; cases p) (simp add: intent_terms_def)
  then show ?thesis unfolding stored_def put_intent_row [OF assms(1)]
    using assms(2,3) by (auto split: option.split)
qed

section \<open>A store to compute with\<close>

lemma clean_points_printable: "list_all (\<lambda>n. 32 \<le> n \<and> n < 127) ns \<Longrightarrow> clean_points what ns = Inr ()"
  by (induction ns) (auto simp: FORBIDDEN_POINTS_def)

definition printable :: "string \<Rightarrow> nat \<Rightarrow> bool" where
  "printable t limit \<longleftrightarrow> bare t \<and> text_length t \<le> limit \<and> list_all (\<lambda>n. 32 \<le> n \<and> n < 127) (code_points t)"

lemma clean_printable: "printable t limit \<Longrightarrow> clean_text plain_world limit what t = Inr t"
  by (auto simp: printable_def clean_text_def plain_world_def strip_bare clean_points_printable bare_def)

lemma demo_item_ok: "make_item plain_world demo_item = Inr demo_item"
proof -
  have "printable ''Stativ'' 200" by code_simp
  then show ?thesis
    by (simp add: make_item_def demo_item_def clean_printable clean_if_given_def line_total_def MAX_AMOUNT_MINOR_def)
qed

lemma demo_quote_ok: "make_quote plain_world demo_quote = Inr demo_quote"
proof -
  have "printable ''q-1'' 128" by code_simp
  then show ?thesis
    by (simp add: make_quote_def demo_quote_def clean_printable clean_if_given_def make_charged_def
        demo_currency MAX_AMOUNT_MINOR_def FORBIDDEN_EXTRAS_def)
qed

lemma demo_ref: "canonical_ref plain_world PAYMENT_SCHEME ''payment://shopping/default'' = Inr ''payment://shopping/default''"
proof -
  have "strip ''payment://shopping/default'' = ''payment://shopping/default''" by (rule strip_bare) code_simp
  moreover have "map ascii_lower ''payment://shopping/default'' = ''payment://shopping/default''" by code_simp
  moreover have "text_length ''payment://shopping/default'' \<le> MAX_REF_LENGTH" by code_simp
  moreover have "part_ok ''shopping'' \<and> part_ok ''default''" by code_simp
  ultimately show ?thesis
    by (simp add: canonical_ref_def parse_ref_def plain_world_def PAYMENT_SCHEME_def make_reference_def ref_text_def)
qed

lemma demo_intent_ok: "intent_ok plain_world demo_intent"
proof -
  have "printable ''pi-1'' 64" "printable ''room_voice'' 64" "printable ''Stativ'' 200" by code_simp+
  moreover have "resolve_merchant plain_world ''sandbox-shop'' ''https://sandbox.solvio.invalid''
      = Inr \<lparr>mc_id = ''sandbox-shop'', mc_display_name = ''SOLVIO Testladen'', mc_origin = ''https://sandbox.solvio.invalid''\<rparr>"
    using registered_merchant [OF plain_world_laws, of "hd MERCHANTS"] by (simp add: MERCHANTS_def)
  ultimately show ?thesis
    by (simp add: intent_ok_def make_intent_def demo_intent_def clean_printable clean_if_given_def demo_currency
        demo_ref MAX_ITEMS_def make_destination_def MAX_AMOUNT_MINOR_def quote_currency_differs_def demo_quote_def)
qed

lemma demo_intent_live: "live_intent plain_world demo_intent"
proof -
  have "printable ''Versand'' 120" by code_simp
  then have "make_extra plain_world e = Inr e" if "e \<in> set (pq_extras demo_quote)" for e
    using that by (simp add: demo_quote_def make_extra_def clean_printable MAX_AMOUNT_MINOR_def)
  then show ?thesis using demo_intent_ok demo_item_ok demo_quote_ok
    by (simp add: live_intent_def demo_intent_def)
qed

text \<open>One instrument, one approved intent, an empty book.\<close>

definition demo_payments :: payments where
  "demo_payments = \<lparr>
     py_instruments = [\<lparr>nr_columns = demo_instrument, nr_currencies = ''EUR'', nr_merchants = ''sandbox-shop'',
                       nr_policy_sha256 = instrument_digest plain_world demo_instrument\<rparr>],
     py_intents = [\<lparr>tr_intent = demo_intent, tr_updated_at = []\<rparr>],
     py_ledger = []\<rparr>"

lemma demo_stored: "stored plain_world demo_intent demo_payments"
  by (simp add: stored_def demo_intent_live demo_payments_def by_key_Cons)

lemma demo_payments_inv: "payments_inv demo_payments"
  by (simp add: payments_inv_def demo_payments_def charged_execution_ids_def)

lemma demo_instrument_ok: "make_instrument plain_world demo_instrument = Inr demo_instrument"
proof -
  have secret: "canonical_ref plain_world SECRET_SCHEME v = Inr v" if "v \<in> {''secret://sandbox/charge'', ''secret://sandbox/read''}" for v
  proof -
    have "list_all (\<lambda>v. bare v \<and> map ascii_lower v = v \<and> text_length v \<le> MAX_REF_LENGTH)
        [''secret://sandbox/charge'', ''secret://sandbox/read'']" by code_simp
    with that have "strip v = v" "map ascii_lower v = v" "text_length v \<le> MAX_REF_LENGTH"
      by (auto intro: strip_bare)
    moreover have "part_ok ''sandbox'' \<and> part_ok ''charge'' \<and> part_ok ''read''" by code_simp
    ultimately show ?thesis using that
      by (auto simp: canonical_ref_def parse_ref_def plain_world_def SECRET_SCHEME_def make_reference_def ref_text_def)
  qed
  have "provider_name_ok ''sandbox''" "token_ok ''pm_1''" "text_length ''Karte'' \<le> 80" by code_simp+
  moreover have "pw_lower plain_world (strip ''sandbox-shop'') = ''sandbox-shop''" by (rule demo_merchant)
  moreover have "strip ''sandbox-shop'' \<noteq> []" by (simp add: strip_bare bare_def str_space_def code_def)
  ultimately show ?thesis
    by (simp add: make_instrument_def demo_instrument_def demo_ref secret demo_currency secret_if_given_def
        sorted_set_def reason_for_def) (simp add: plain_world_def)
qed

lemma demo_found: "find_instrument plain_world ''payment://shopping/default'' demo_payments = Inr (Some demo_instrument)"
proof -
  have "split_lines ''EUR'' = [''EUR'']" "split_lines ''sandbox-shop'' = [''sandbox-shop'']" by code_simp+
  then have "instrument_from_row plain_world \<lparr>nr_columns = demo_instrument, nr_currencies = ''EUR'',
      nr_merchants = ''sandbox-shop'', nr_policy_sha256 = instrument_digest plain_world demo_instrument\<rparr>
    = Inr demo_instrument"
    using demo_instrument_ok by (simp add: instrument_from_row_def demo_instrument_def)
  moreover have "in_ref demo_instrument = ''payment://shopping/default''" by (simp add: demo_instrument_def)
  ultimately show ?thesis by (simp add: find_instrument_def demo_ref demo_payments_def by_key_Cons)
qed

section \<open>What the store guarantees\<close>

text \<open>
  C20: No execution is charged twice in the book. Whatever statements the program issues on the store,
  in whatever order and from whatever task, the book never holds two charges under one execution
  identity, and what is written in it stays.
\<close>

theorem book_charges_an_execution_once:
  assumes "payments_inv s" "payment_run W s t"
  shows "distinct (charged_execution_ids t) \<and> (\<exists>rest. py_ledger t = py_ledger s @ rest)"
  using payment_book.inv.reaches_keeps [OF assms(2,1)] payment_book.reaches_mono [OF assms(2,1)]
  by (simp_all add: payments_inv_def payments_evolve_def)

definition demo_charge_line :: ledger_row where
  "demo_charge_line = (ledger_line EV_CHARGED ''pi-1'')\<lparr>lg_amount := 8999, lg_currency := ''EUR'',
     lg_instrument := ''payment://shopping/default'', lg_execution := ''exec-1''\<rparr>"

lemma demo_booked:
  "record_line plain_world 0 demo_charge_line demo_payments =
     Inr (demo_payments\<lparr>py_ledger := [demo_charge_line\<lparr>lg_at := ''2026-08-30T12:00:00+00:00''\<rparr>]\<rparr>)"
  by (simp add: record_line_def demo_charge_line_def ledger_line_def reason_for_def demo_payments_def plain_world_def)

theorem book_charges_an_execution_once_witness:
  "(case record_line plain_world 0 demo_charge_line demo_payments of
      Inl _ \<Rightarrow> False
    | Inr t \<Rightarrow> distinct (charged_execution_ids t) \<and> (\<exists>rest. py_ledger t = [] @ rest) \<and>
        record_line plain_world 1 demo_charge_line t = Inl Duplicate_charge)"
proof -
  let ?t = "demo_payments\<lparr>py_ledger := [demo_charge_line\<lparr>lg_at := ''2026-08-30T12:00:00+00:00''\<rparr>]\<rparr>"
  have "payment_run plain_world demo_payments ?t" by (rule reaches_one, rule step_record, rule demo_booked)
  from book_charges_an_execution_once [OF demo_payments_inv this]
  have "distinct (charged_execution_ids ?t) \<and> (\<exists>rest. py_ledger ?t = [] @ rest)"
    by (simp add: demo_payments_def)
  moreover have "record_line plain_world 1 demo_charge_line ?t = Inl Duplicate_charge"
    by (simp add: record_line_def demo_charge_line_def ledger_line_def reason_for_def plain_world_def indexed_charge_def)
  ultimately show ?thesis unfolding demo_booked by simp
qed

text \<open>
  C21: What is to be bought is fixed when an intent is stored. Whatever the program writes to the store
  afterwards, the row of an intent keeps its merchant and origin, its currency, items, means of payment,
  purpose, destination and deadline, even if somebody puts another intent under the same identifier.
\<close>

theorem stored_terms_are_final:
  assumes "payments_inv s" "payment_run W s t" "by_key row_pid pid (py_intents s) = Some row"
  shows "\<exists>row'. by_key row_pid pid (py_intents t) = Some row' \<and>
     intent_terms (tr_intent row') = intent_terms (tr_intent row)"
proof -
  have "payments_evolve s t" using payment_book.reaches_mono [OF assms(2,1)] .
  then show ?thesis using assms(3) by (auto simp: payments_evolve_def dest!: table_evolvesD)
qed

theorem stored_terms_are_final_witness:
  "\<exists>t row'. put_intent plain_world 0 (demo_intent\<lparr>pi_purpose := ''Kabel'', pi_state := PS_FAILED\<rparr>) demo_payments = Inr t \<and>
     by_key row_pid ''pi-1'' (py_intents t) = Some row' \<and>
     intent_terms (tr_intent row') = intent_terms demo_intent"
proof -
  let ?p = "demo_intent\<lparr>pi_purpose := ''Kabel'', pi_state := PS_FAILED\<rparr>"
  obtain t where t: "put_intent plain_world 0 ?p demo_payments = Inr t"
    by (auto simp: put_intent_def reason_for_def plain_world_def)
  have "payment_run plain_world demo_payments t" by (rule reaches_one, rule step_intent, rule t)
  moreover have "by_key row_pid ''pi-1'' (py_intents demo_payments) = Some \<lparr>tr_intent = demo_intent, tr_updated_at = []\<rparr>"
    by (simp add: demo_payments_def by_key_Cons demo_intent_def)
  ultimately obtain row' where "by_key row_pid ''pi-1'' (py_intents t) = Some row'"
    "intent_terms (tr_intent row') = intent_terms demo_intent"
    using stored_terms_are_final [OF demo_payments_inv] by force
  with t show ?thesis by blast
qed

text \<open>
  A stored intent is read back as it was. After \<open>put_intent\<close> of an intent that is new, or that
  carries on the terms of the row it replaces, the constructors that run again on reading accept the
  row and give the same intent, quote and state included.
\<close>

theorem stored_intent_reads_back:
  assumes "live_intent W i" "put_intent W now i s = Inr t"
    and "\<And>old. by_key row_pid (pi_id i) (py_intents s) = Some old \<Longrightarrow> intent_terms (tr_intent old) = intent_terms i"
  shows "find_intent W (pi_id i) t = Some i"
  using put_intent_stored [OF assms(2,1,3)] by (rule stored_found)

theorem stored_intent_reads_back_witness:
  "\<exists>t. put_intent plain_world 0 (moved PS_EXECUTING ''exec-1'' ''ap-1'' demo_intent) demo_payments = Inr t \<and>
     find_intent plain_world ''pi-1'' t = Some (moved PS_EXECUTING ''exec-1'' ''ap-1'' demo_intent)"
proof -
  let ?p = "moved PS_EXECUTING ''exec-1'' ''ap-1'' demo_intent"
  obtain t where t: "put_intent plain_world 0 ?p demo_payments = Inr t"
    by (auto simp: put_intent_def reason_for_def plain_world_def)
  have "intent_terms (tr_intent old) = intent_terms ?p"
    if "by_key row_pid (pi_id ?p) (py_intents demo_payments) = Some old" for old
    using that by (auto simp: demo_payments_def by_key_Cons intent_terms_def moved_def split: if_splits)
  from stored_intent_reads_back [OF live_moved [OF demo_intent_live] t this] t show ?thesis
    by (auto simp: moved_def demo_intent_def)
qed



end
