(* ===== verification/Payment_Executor.thy ===== *)
theory Payment_Executor
  imports Payment_Store
begin

text \<open>
  \<open>payment/executor.py\<close> with the provider contract of \<open>payment/providers\<close>: the one place that touches the
  authority of a provider. A method is a computation on the store that may raise; what it hands to the
  provider is logged beside the store. The provider, the vault that lends its credentials and the
  configuration are parameters, so are the identity of the running action and the two clock readings
  (before and after the one await). At that await other tasks may use the store: \<open>others\<close>.
\<close>

section \<open>The provider\<close>

record provider_config =
  pc_name :: string
  pc_kind :: string
  pc_base_url :: string

datatype failure_category =
    FC_NONE | FC_DECLINED | FC_SCA_REQUIRED | FC_NETWORK_FAILURE | FC_MERCHANT_FAILURE | FC_UNKNOWN_RESULT
  | FC_EXPIRED_APPROVAL | FC_POLICY_DENIED | FC_LIMIT_EXCEEDED | FC_INSTRUMENT_UNUSABLE
  | FC_PROVIDER_UNAVAILABLE | FC_PROVIDER_UNAUTHORIZED

fun failure_value :: "failure_category \<Rightarrow> string" where
  "failure_value FC_NONE = ''none''"
| "failure_value FC_DECLINED = ''declined''"
| "failure_value FC_SCA_REQUIRED = ''sca_required''"
| "failure_value FC_NETWORK_FAILURE = ''network_failure''"
| "failure_value FC_MERCHANT_FAILURE = ''merchant_failure''"
| "failure_value FC_UNKNOWN_RESULT = ''unknown_result''"
| "failure_value FC_EXPIRED_APPROVAL = ''expired_approval''"
| "failure_value FC_POLICY_DENIED = ''policy_denied''"
| "failure_value FC_LIMIT_EXCEEDED = ''limit_exceeded''"
| "failure_value FC_INSTRUMENT_UNUSABLE = ''instrument_unusable''"
| "failure_value FC_PROVIDER_UNAVAILABLE = ''provider_unavailable''"
| "failure_value FC_PROVIDER_UNAUTHORIZED = ''provider_unauthorized''"

datatype charge_status = CH_SUCCEEDED | CH_DECLINED | CH_SCA_REQUIRED | CH_MERCHANT_FAILED | CH_PENDING

fun charge_status_value :: "charge_status \<Rightarrow> string" where
  "charge_status_value CH_SUCCEEDED = ''succeeded''"
| "charge_status_value CH_DECLINED = ''declined''"
| "charge_status_value CH_SCA_REQUIRED = ''sca_required''"
| "charge_status_value CH_MERCHANT_FAILED = ''merchant_failed''"
| "charge_status_value CH_PENDING = ''pending''"

text \<open>The fields of the answers that the executor reads.\<close>

record provider_quote =
  vq_ref :: string
  vq_currency :: string
  vq_items_total :: int
  vq_extras :: "(string \<times> int \<times> string) list"
  vq_total :: int
  vq_charged_currency :: string
  vq_charged_total :: int
  vq_recurring :: bool

record provider_charge =
  ch_status :: charge_status
  ch_ref :: string
  ch_amount :: int
  ch_currency :: string
  ch_failure :: failure_category
  ch_order_ref :: string

record provider_refund =
  rf_ref :: string
  rf_amount :: int
  rf_currency :: string
  rf_status :: string

text \<open>An answer, \<open>ProviderUnavailable\<close>, \<open>ProviderAmbiguous\<close>, \<open>ProviderError\<close>, or any other exception.\<close>

datatype 'a wire_answer =
    Answers 'a | Not_reached | Unclear | Provider_fails failure_category | Wire_raises string

datatype borrowing = Lent | Denied_by_vault string | Vault_unavailable

record charge_request =
  cr_key :: string
  cr_token :: string
  cr_merchant :: string
  cr_amount :: int
  cr_currency :: string
  cr_quote_ref :: string
  cr_description :: string

datatype provider_request =
    Quote_request string string "line_item list" string string
  | Charge_request charge_request
  | Lookup_request string
  | Refund_request string string int
  | Cancel_request string string

record payment_provider =
  pp_config :: "string \<Rightarrow> provider_config option"
  pp_address_ok :: "string \<Rightarrow> bool"
  pp_borrow :: "string \<Rightarrow> string \<Rightarrow> string \<Rightarrow> string \<Rightarrow> string \<Rightarrow> borrowing"
  pp_quote :: "payment_intent \<Rightarrow> provider_quote wire_answer"
  pp_charge :: "charge_request \<Rightarrow> provider_charge wire_answer"
  pp_lookup :: "string \<Rightarrow> provider_charge option wire_answer"
  pp_refund :: "string \<Rightarrow> string \<Rightarrow> int \<Rightarrow> provider_refund wire_answer"
  pp_cancel :: "string \<Rightarrow> string \<Rightarrow> unit wire_answer"

section \<open>Computations on the store\<close>

record desk =
  dk_store :: payments
  dk_asked :: "provider_request list"

type_synonym 'a pay = "desk \<Rightarrow> (call_error + 'a) \<times> desk"

definition give :: "'a \<Rightarrow> 'a pay" where
  "give x d = (Inr x, d)"

definition fail :: "call_error \<Rightarrow> 'a pay" where
  "fail e d = (Inl e, d)"

definition andthen :: "'a pay \<Rightarrow> ('a \<Rightarrow> 'b pay) \<Rightarrow> 'b pay" where
  "andthen m f d = (case m d of (Inl e, d') \<Rightarrow> (Inl e, d') | (Inr x, d') \<Rightarrow> f x d')"

definition thereupon :: "'a pay \<Rightarrow> 'b pay \<Rightarrow> 'b pay" where
  "thereupon m n = andthen m (\<lambda>_. n)"

text \<open>\<open>try: m  except Exception as e: ...\<close>: the outcome of \<open>m\<close> as a value.\<close>

definition trying :: "'a pay \<Rightarrow> (call_error + 'a) pay" where
  "trying m d = (case m d of (r, d') \<Rightarrow> (Inr r, d'))"

definition asking :: "(payments \<Rightarrow> 'a) \<Rightarrow> 'a pay" where
  "asking f d = (Inr (f (dk_store d)), d)"

text \<open>A Python exception of the store and the value classes, as a caller sees it.\<close>

fun as_error :: "payment_exn \<Rightarrow> call_error" where
  "as_error (Intent_error m) = Other_error ''PaymentIntentError'' m"
| "as_error (Illegal_move m) = Other_error ''IllegalTransition'' m"
| "as_error (Invalid_merchant m) = Other_error ''InvalidMerchant'' m"
| "as_error (Invalid_ref m) = Other_error ''InvalidPaymentRef'' m"
| "as_error (Bad_value m) = Other_error ''ValueError'' m"
| "as_error Material_refused = Other_error ''PaymentMaterialRefused'' []"
| "as_error Duplicate_charge = Other_error ''DuplicateCharge'' []"
| "as_error Integrity_violation = Other_error ''IntegrityError'' []"

definition value_or_raise :: "payment_exn + 'a \<Rightarrow> 'a pay" where
  "value_or_raise r = (case r of Inl e \<Rightarrow> fail (as_error e) | Inr x \<Rightarrow> give x)"

definition writing :: "(payments \<Rightarrow> payment_exn + payments) \<Rightarrow> unit pay" where
  "writing f d = (case f (dk_store d) of
     Inl e \<Rightarrow> (Inl (as_error e), d) | Inr s \<Rightarrow> (Inr (), d\<lparr>dk_store := s\<rparr>))"

definition safe_failure :: "string \<Rightarrow> 'a pay" where
  "safe_failure reason = fail (Safe_execution_failure reason)"

definition refused :: "string \<Rightarrow> 'a pay" where
  "refused reason = fail (Other_error ''PaymentRefused'' reason)"

definition save :: "payment_world \<Rightarrow> time \<Rightarrow> payment_intent \<Rightarrow> unit pay" where
  "save W now i = writing (put_intent W now i)"

definition book :: "payment_world \<Rightarrow> time \<Rightarrow> ledger_row \<Rightarrow> unit pay" where
  "book W now r = writing (record_line W now r)"

definition save_in_state :: "payment_world \<Rightarrow> time \<Rightarrow> payment_state \<Rightarrow> payment_intent \<Rightarrow> unit pay" where
  "save_in_state W now st i = andthen (value_or_raise (with_state W st id i)) (save W now)"

section \<open>Reaching the provider\<close>

definition instrument_or_fail :: "payment_world \<Rightarrow> string \<Rightarrow> instrument pay" where
  "instrument_or_fail W ref = andthen (asking (find_instrument W ref)) (\<lambda>r.
     andthen (value_or_raise r) (\<lambda>found. case found of
       None \<Rightarrow> refused ''unknown_instrument'' | Some ins \<Rightarrow> give ins))"

definition config_or_fail :: "payment_provider \<Rightarrow> instrument \<Rightarrow> provider_config pay" where
  "config_or_fail P ins = (case pp_config P (in_provider ins) of
     None \<Rightarrow> refused ''provider_not_configured'' | Some c \<Rightarrow> give c)"

text \<open>What comes of \<open>with self._borrow(...): provider = self._build_provider(...); await provider....\<close>\<close>

datatype 'a reply =
    Reply 'a
  | Reply_refused string
  | Reply_denied string
  | Reply_vault_away
  | Reply_unavailable
  | Reply_ambiguous
  | Reply_error failure_category
  | Reply_raises string

fun reply_of :: "'a wire_answer \<Rightarrow> 'a reply" where
  "reply_of (Answers x) = Reply x"
| "reply_of Not_reached = Reply_unavailable"
| "reply_of Unclear = Reply_ambiguous"
| "reply_of (Provider_fails c) = Reply_error c"
| "reply_of (Wire_raises c) = Reply_raises c"

text \<open>The obstacles before the first byte is sent.\<close>

definition obstacle :: "payment_provider \<Rightarrow> provider_config \<Rightarrow> string \<Rightarrow> string \<Rightarrow> string \<Rightarrow> string \<Rightarrow> 'a reply option" where
  "obstacle P cfg secret capability eid aid =
     (if secret = [] then Some (Reply_refused ''provider_not_configured'')
      else case pp_borrow P secret (pc_base_url cfg) capability eid aid of
        Denied_by_vault reason \<Rightarrow> Some (Reply_denied reason)
      | Vault_unavailable \<Rightarrow> Some Reply_vault_away
      | Lent \<Rightarrow>
          if pc_kind cfg \<noteq> ''sandbox'' then Some (Reply_refused ''provider_not_configured'')
          else if \<not> pp_address_ok P (pc_base_url cfg) then Some (Reply_error FC_PROVIDER_UNAVAILABLE)
          else None)"

definition ask :: "payment_provider \<Rightarrow> provider_config \<Rightarrow> string \<Rightarrow> string \<Rightarrow> string \<Rightarrow> string
    \<Rightarrow> provider_request \<Rightarrow> 'a wire_answer \<Rightarrow> (payments \<Rightarrow> payments) \<Rightarrow> 'a reply pay" where
  "ask P cfg secret capability eid aid request answer others d =
     (case obstacle P cfg secret capability eid aid of
        Some r \<Rightarrow> (Inr r, d)
      | None \<Rightarrow> (Inr (reply_of answer),
          d\<lparr>dk_store := others (dk_store d), dk_asked := dk_asked d @ [request]\<rparr>))"

section \<open>The true amount\<close>

definition named_extra :: "string \<times> int \<times> string \<Rightarrow> extra option" where
  "named_extra x = (case x of (kind, am, label) \<Rightarrow>
     map_option (\<lambda>k. \<lparr>xt_kind = k, xt_amount = am, xt_label = label\<rparr>) (extra_kind_of kind))"

fun read_extras :: "payment_world \<Rightarrow> (string \<times> int \<times> string) list \<Rightarrow> extra list pay" where
  "read_extras W [] = give []"
| "read_extras W (x # xs) = (case named_extra x of
     None \<Rightarrow> refused ''unknown_surcharge''
   | Some e \<Rightarrow> andthen (value_or_raise (make_extra W e)) (\<lambda>e'.
       andthen (read_extras W xs) (\<lambda>es. give (e' # es))))"

definition quote_of :: "time \<Rightarrow> provider_quote \<Rightarrow> extra list \<Rightarrow> payment_quote" where
  "quote_of now v es = \<lparr>pq_source = ''executor'', pq_currency = vq_currency v, pq_items_total = vq_items_total v,
     pq_extras = es, pq_total = vq_total v, pq_version = 1, pq_quoted_at = now, pq_ref = vq_ref v,
     pq_charged_currency = vq_charged_currency v, pq_charged_total = vq_charged_total v\<rparr>"

definition quoted_line :: "instrument \<Rightarrow> payment_quote \<Rightarrow> payment_intent \<Rightarrow> ledger_row" where
  "quoted_line ins q fresh = (ledger_line EV_QUOTED (pi_id fresh))\<lparr>lg_merchant := pi_merchant fresh,
     lg_merchant_origin := pi_merchant_origin fresh, lg_amount := pq_total q, lg_currency := pq_currency q,
     lg_instrument := pi_method fresh, lg_origin := pi_origin fresh, lg_provider := in_provider ins,
     lg_status := ''quoted''\<rparr>"

definition attach_quote :: "payment_world \<Rightarrow> time \<Rightarrow> instrument \<Rightarrow> provider_quote \<Rightarrow> payment_intent \<Rightarrow> payment_intent pay" where
  "attach_quote W later ins v i =
     andthen (read_extras W (vq_extras v)) (\<lambda>es.
     andthen (value_or_raise (make_quote W (quote_of later v es))) (\<lambda>q.
     andthen (value_or_raise (with_quote W q i)) (\<lambda>fresh.
     thereupon (save W later fresh)
     (andthen (trying (book W later ((quoted_line ins q fresh)\<lparr>lg_provider_ref := pq_ref q\<rparr>))) (\<lambda>r.
      case r of
        Inr _ \<Rightarrow> give fresh
      | Inl _ \<Rightarrow> thereupon (book W later (quoted_line ins q fresh)) (give fresh))))))"

definition quote :: "payment_world \<Rightarrow> payment_provider \<Rightarrow> time \<Rightarrow> (payments \<Rightarrow> payments) \<Rightarrow> payment_intent
    \<Rightarrow> payment_intent pay" where
  "quote W P later others i =
     andthen (instrument_or_fail W (pi_method i)) (\<lambda>ins.
     andthen (config_or_fail P ins) (\<lambda>cfg.
     andthen (ask P cfg (in_readonly_ref ins) ''payment_intent_prepare'' [] []
        (Quote_request (pi_merchant i) (pi_merchant_origin i) (pi_items i) (pi_currency i) (pi_shipping i))
        (pp_quote P i) others) (\<lambda>r. case r of
       Reply_unavailable \<Rightarrow> fail (Executor_unavailable ''payment_provider_unavailable'')
     | Reply_denied why \<Rightarrow> refused why
     | Reply_vault_away \<Rightarrow> fail (Executor_unavailable ''payment_credential_unavailable'')
     | Reply_ambiguous \<Rightarrow> refused (failure_value FC_UNKNOWN_RESULT)
     | Reply_error c \<Rightarrow> refused (failure_value c)
     | Reply_refused why \<Rightarrow> refused why
     | Reply_raises c \<Rightarrow> fail (Other_error c [])
     | Reply v \<Rightarrow>
         if vq_recurring v then refused ''recurring_not_supported''
         else attach_quote W later ins v i)))"

section \<open>Moving money\<close>

record charge_outcome =
  oc_state :: payment_state
  oc_amount :: int
  oc_currency :: string
  oc_provider_ref :: string
  oc_order_ref :: string
  oc_failure :: string
  oc_replayed :: bool

definition outcome :: "payment_state \<Rightarrow> charge_outcome" where
  "outcome st = \<lparr>oc_state = st, oc_amount = 0, oc_currency = [], oc_provider_ref = [], oc_order_ref = [],
     oc_failure = failure_value FC_NONE, oc_replayed = False\<rparr>"

definition existing_charge :: "string \<Rightarrow> payments \<Rightarrow> charge_outcome option" where
  "existing_charge eid s =
     map_option (\<lambda>r. (outcome PS_SUCCEEDED)\<lparr>oc_amount := lg_amount r, oc_currency := lg_currency r,
                      oc_provider_ref := lg_provider_ref r, oc_replayed := True\<rparr>)
       (List.find (\<lambda>r. lg_event r = EV_CHARGED \<and> lg_execution r = eid) (ledger [] 1000 s))"

definition charged_line :: "instrument \<Rightarrow> execution_identity \<Rightarrow> int \<Rightarrow> string \<Rightarrow> payment_intent \<Rightarrow> ledger_row" where
  "charged_line ins ident am cur i = (ledger_line EV_CHARGED (pi_id i))\<lparr>lg_merchant := pi_merchant i,
     lg_merchant_origin := pi_merchant_origin i, lg_description := pi_purpose i, lg_amount := am,
     lg_currency := cur, lg_instrument := in_ref ins, lg_origin := pi_origin i,
     lg_approval := ei_approval ident, lg_execution := ei_execution ident, lg_provider := in_provider ins,
     lg_status := ''succeeded'', lg_agent_run := pi_agent_run i, lg_task := pi_task i\<rparr>"

definition is_duplicate :: "call_error \<Rightarrow> bool" where
  "is_duplicate e \<longleftrightarrow> class_name e = ''DuplicateCharge''"

text \<open>The line of a charge is written in two stages: with the provider's reference, or else without.\<close>

definition book_charge :: "payment_world \<Rightarrow> time \<Rightarrow> instrument \<Rightarrow> execution_identity \<Rightarrow> provider_charge \<Rightarrow> int \<Rightarrow> string
    \<Rightarrow> payment_intent \<Rightarrow> charge_outcome option pay" where
  "book_charge W later ins ident ch am cur i =
     andthen (trying (book W later ((charged_line ins ident am cur i)\<lparr>lg_provider_ref := ch_ref ch\<rparr>))) (\<lambda>r.
     case r of
       Inr _ \<Rightarrow> give None
     | Inl e \<Rightarrow>
         if is_duplicate e then asking (existing_charge (ei_execution ident))
         else andthen (trying (book W later (charged_line ins ident am cur i))) (\<lambda>r2.
           case r2 of
             Inr _ \<Rightarrow> give None
           | Inl e2 \<Rightarrow>
               if is_duplicate e2 then asking (existing_charge (ei_execution ident))
               else thereupon (save_in_state W later PS_RECONCILE i)
                 (fail (Ambiguous_execution ''purchase_place_unbookable''))))"

definition record_ambiguous :: "payment_world \<Rightarrow> time \<Rightarrow> instrument \<Rightarrow> execution_identity \<Rightarrow> int \<Rightarrow> payment_intent
    \<Rightarrow> charge_outcome pay" where
  "record_ambiguous W later ins ident am i =
     thereupon (save_in_state W later PS_RECONCILE i)
     (thereupon (book W later ((ledger_line EV_AMBIGUOUS (pi_id i))\<lparr>lg_merchant := pi_merchant i,
        lg_description := pi_purpose i, lg_amount := am,
        lg_currency := (case pi_quote i of None \<Rightarrow> [] | Some q \<Rightarrow> pq_currency q),
        lg_instrument := in_ref ins, lg_origin := pi_origin i, lg_approval := ei_approval ident,
        lg_execution := ei_execution ident, lg_provider := in_provider ins,
        lg_provider_ref := take_points 12 (ei_idempotency ident),
        lg_failure := failure_value FC_UNKNOWN_RESULT, lg_status := ''unknown'',
        lg_agent_run := pi_agent_run i, lg_task := pi_task i\<rparr>))
     (fail (Ambiguous_execution ''purchase_place'')))"

definition settle_succeeded :: "payment_world \<Rightarrow> time \<Rightarrow> instrument \<Rightarrow> execution_identity \<Rightarrow> provider_charge \<Rightarrow> int
    \<Rightarrow> string \<Rightarrow> payment_intent \<Rightarrow> charge_outcome pay" where
  "settle_succeeded W later ins ident ch am cur i =
     andthen (book_charge W later ins ident ch am cur i) (\<lambda>booked. case booked of
       Some known \<Rightarrow> give known
     | None \<Rightarrow>
         thereupon (writing (\<lambda>s. Inr (touch_instrument W later (in_ref ins) s)))
         (thereupon (save_in_state W later PS_SUCCEEDED i)
         (thereupon (value_or_raise (format_amount W am cur))
         (give ((outcome PS_SUCCEEDED)\<lparr>oc_amount := am, oc_currency := cur, oc_provider_ref := ch_ref ch,
            oc_order_ref := ch_order_ref ch\<rparr>)))))"

definition settle :: "payment_world \<Rightarrow> time \<Rightarrow> instrument \<Rightarrow> execution_identity \<Rightarrow> payment_quote \<Rightarrow> provider_charge
    \<Rightarrow> payment_intent \<Rightarrow> charge_outcome pay" where
  "settle W later ins ident q ch i =
     (let am = (if ch_amount ch = 0 then pq_total q else ch_amount ch);
          cur = (if ch_currency ch = [] then pq_currency q else ch_currency ch)
      in if ch_status ch = CH_SUCCEEDED then settle_succeeded W later ins ident ch am cur i
      else if ch_status ch = CH_SCA_REQUIRED then
        thereupon (save_in_state W later PS_AWAITING_SCA i)
        (thereupon (book W later ((ledger_line EV_AMBIGUOUS (pi_id i))\<lparr>lg_execution := ei_execution ident,
           lg_instrument := in_ref ins, lg_amount := am, lg_currency := cur, lg_provider := in_provider ins,
           lg_provider_ref := take_points 12 (ei_idempotency ident),
           lg_failure := failure_value FC_SCA_REQUIRED, lg_status := ''awaiting_sca''\<rparr>))
        (fail (Ambiguous_execution ''purchase_place_sca_required'')))
      else
        thereupon (book W later ((ledger_line (if ch_status ch = CH_DECLINED then EV_DECLINED else EV_FAILED) (pi_id i))
           \<lparr>lg_merchant := pi_merchant i, lg_instrument := in_ref ins, lg_amount := am, lg_currency := cur,
            lg_origin := pi_origin i, lg_approval := ei_approval ident, lg_execution := ei_execution ident,
            lg_provider := in_provider ins, lg_failure := failure_value (ch_failure ch),
            lg_status := charge_status_value (ch_status ch)\<rparr>))
        (thereupon (save_in_state W later PS_FAILED i)
        (safe_failure (failure_value (ch_failure ch)))))"

definition claimed_line :: "instrument \<Rightarrow> execution_identity \<Rightarrow> payment_quote \<Rightarrow> payment_intent \<Rightarrow> ledger_row" where
  "claimed_line ins ident q i = (ledger_line EV_CLAIMED (pi_id i))\<lparr>lg_merchant := pi_merchant i,
     lg_merchant_origin := pi_merchant_origin i, lg_description := pi_purpose i, lg_amount := pq_total q,
     lg_currency := pq_currency q, lg_instrument := in_ref ins, lg_origin := pi_origin i,
     lg_approval := ei_approval ident, lg_execution := ei_execution ident, lg_provider := in_provider ins,
     lg_provider_ref := take_points 12 (ei_idempotency ident), lg_status := ''claimed'',
     lg_agent_run := pi_agent_run i, lg_task := pi_task i\<rparr>"

definition request_for :: "instrument \<Rightarrow> execution_identity \<Rightarrow> payment_quote \<Rightarrow> payment_intent \<Rightarrow> charge_request" where
  "request_for ins ident q i = \<lparr>cr_key = ei_idempotency ident, cr_token = in_token ins, cr_merchant = pi_merchant i,
     cr_amount = pq_total q, cr_currency = pq_currency q, cr_quote_ref = pq_ref q, cr_description = pi_purpose i\<rparr>"

text \<open>\<open>except (SecretDenied, SecretUnavailable, PaymentRefused)\<close>: a no before the first byte.\<close>

definition held_back :: "payment_world \<Rightarrow> time \<Rightarrow> instrument \<Rightarrow> execution_identity \<Rightarrow> string \<Rightarrow> payment_intent
    \<Rightarrow> charge_outcome pay" where
  "held_back W later ins ident reason running =
     thereupon (save_in_state W later PS_FAILED running)
     (thereupon (book W later ((ledger_line EV_DENIED (pi_id running))\<lparr>lg_execution := ei_execution ident,
        lg_instrument := in_ref ins, lg_failure := failure_value FC_POLICY_DENIED\<rparr>))
     (safe_failure (if reason = [] then ''secret_denied'' else reason)))"

definition charge_running :: "payment_world \<Rightarrow> payment_provider \<Rightarrow> execution_identity \<Rightarrow> time \<Rightarrow> (payments \<Rightarrow> payments)
    \<Rightarrow> instrument \<Rightarrow> provider_config \<Rightarrow> payment_quote \<Rightarrow> payment_intent \<Rightarrow> charge_outcome pay" where
  "charge_running W P ident later others ins cfg q running =
     andthen (ask P cfg (in_secret_ref ins) ''purchase_place'' (ei_execution ident) (ei_approval ident)
        (Charge_request (request_for ins ident q running)) (pp_charge P (request_for ins ident q running)) others)
     (\<lambda>r. case r of
       Reply_denied why \<Rightarrow> held_back W later ins ident why running
     | Reply_vault_away \<Rightarrow> held_back W later ins ident [] running
     | Reply_refused why \<Rightarrow> held_back W later ins ident why running
     | Reply_unavailable \<Rightarrow>
         thereupon (save_in_state W later PS_FAILED running)
         (thereupon (book W later ((ledger_line EV_FAILED (pi_id running))\<lparr>lg_execution := ei_execution ident,
            lg_failure := failure_value FC_PROVIDER_UNAVAILABLE, lg_instrument := in_ref ins\<rparr>))
         (safe_failure ''provider_unavailable''))
     | Reply_ambiguous \<Rightarrow> record_ambiguous W later ins ident (pq_total q) running
     | Reply_error c \<Rightarrow> record_ambiguous W later ins ident (pq_total q) running
     | Reply_raises c \<Rightarrow> fail (Other_error c [])
     | Reply ch \<Rightarrow> settle W later ins ident q ch running)"

definition charge_denied :: "payment_world \<Rightarrow> execution_identity \<Rightarrow> time \<Rightarrow> instrument \<Rightarrow> payment_quote \<Rightarrow> refusal_reason
    \<Rightarrow> payment_intent \<Rightarrow> charge_outcome pay" where
  "charge_denied W ident now ins q why i =
     thereupon (book W now ((ledger_line EV_DENIED (pi_id i))\<lparr>lg_instrument := in_ref ins, lg_amount := pq_total q,
        lg_currency := pq_currency q, lg_origin := pi_origin i, lg_approval := ei_approval ident,
        lg_execution := ei_execution ident, lg_failure := refusal_value why\<rparr>))
     (thereupon (save_in_state W now PS_FAILED i)
     (safe_failure (refusal_value why)))"

definition charge_claimed :: "payment_world \<Rightarrow> payment_provider \<Rightarrow> execution_identity \<Rightarrow> time \<Rightarrow> time
    \<Rightarrow> (payments \<Rightarrow> payments) \<Rightarrow> instrument \<Rightarrow> provider_config \<Rightarrow> payment_quote \<Rightarrow> payment_intent \<Rightarrow> charge_outcome pay" where
  "charge_claimed W P ident now later others ins cfg q i =
     andthen (value_or_raise (with_state W PS_EXECUTING
        (\<lambda>x. x\<lparr>pi_execution := ei_execution ident, pi_approval := ei_approval ident\<rparr>) i)) (\<lambda>running.
     andthen (trying (thereupon (save W now running) (book W now (claimed_line ins ident q i)))) (\<lambda>claimed.
     case claimed of
       Inl _ \<Rightarrow> safe_failure ''claim_write_failed''
     | Inr _ \<Rightarrow> charge_running W P ident later others ins cfg q running))"

text \<open>\<open>try: ... except PaymentRefused as exc: raise self._safe_failure(exc.reason)\<close>; other errors pass.\<close>

definition refused_safely :: "'a pay \<Rightarrow> 'a pay" where
  "refused_safely m = andthen (trying m) (\<lambda>r. case r of
       Inr x \<Rightarrow> give x
     | Inl e \<Rightarrow> if class_name e = ''PaymentRefused'' then safe_failure (error_text e) else fail e)"

definition charge_checked :: "payment_world \<Rightarrow> payment_provider \<Rightarrow> execution_identity \<Rightarrow> time \<Rightarrow> time
    \<Rightarrow> (payments \<Rightarrow> payments) \<Rightarrow> payment_quote \<Rightarrow> payment_intent \<Rightarrow> charge_outcome pay" where
  "charge_checked W P ident now later others q i =
     andthen (refused_safely (andthen (instrument_or_fail W (pi_method i)) (\<lambda>ins.
        andthen (config_or_fail P ins) (\<lambda>cfg. give (ins, cfg))))) (\<lambda>(ins, cfg).
     andthen (asking (\<lambda>s. evaluate W ins (pq_currency q) (pi_merchant i) (pq_total q)
        (day_total (in_ref ins) (pw_iso W now) (pq_currency q) s))) (\<lambda>verdict. case verdict of
       Some why \<Rightarrow> charge_denied W ident now ins q why i
     | None \<Rightarrow> charge_claimed W P ident now later others ins cfg q i))"

definition charge :: "payment_world \<Rightarrow> payment_provider \<Rightarrow> execution_identity \<Rightarrow> time \<Rightarrow> time \<Rightarrow> (payments \<Rightarrow> payments)
    \<Rightarrow> string \<Rightarrow> charge_outcome pay" where
  "charge W P ident now later others pid =
     (if \<not> usable ident then safe_failure ''no_execution_identity''
      else andthen (asking (find_intent W pid)) (\<lambda>found. case found of
        None \<Rightarrow> safe_failure ''unknown_intent''
      | Some i \<Rightarrow>
          if pi_state i \<noteq> PS_APPROVED then safe_failure (''intent_state_'' @ payment_state_value (pi_state i))
          else if is_expired now i then safe_failure ''intent_expired''
          else case pi_quote i of
            None \<Rightarrow> safe_failure ''no_quote''
          | Some q \<Rightarrow> andthen (asking (existing_charge (ei_execution ident))) (\<lambda>already. case already of
              Some o1 \<Rightarrow> give o1
            | None \<Rightarrow> charge_checked W P ident now later others q i)))"

section \<open>Looking up instead of guessing\<close>

definition reconciled_line :: "payment_world \<Rightarrow> time \<Rightarrow> string \<Rightarrow> string \<Rightarrow> string \<Rightarrow> string \<Rightarrow> string \<Rightarrow> string
    \<Rightarrow> unit pay" where
  "reconciled_line W later pid eid instrument_ref provider status failure =
     book W later ((ledger_line EV_RECONCILED pid)\<lparr>lg_execution := eid, lg_instrument := instrument_ref,
       lg_provider := provider, lg_status := status, lg_failure := failure\<rparr>)"

definition reconcile_succeeded :: "payment_world \<Rightarrow> time \<Rightarrow> string \<Rightarrow> provider_charge \<Rightarrow> payment_intent
    \<Rightarrow> charge_outcome pay" where
  "reconcile_succeeded W later pid ch i =
     thereupon (book W later ((ledger_line EV_RECONCILED pid)\<lparr>lg_execution := pi_execution i,
        lg_provider_ref := ch_ref ch, lg_status := ''succeeded''\<rparr>))
     (thereupon (save_in_state W later PS_SUCCEEDED i)
     (give ((outcome PS_SUCCEEDED)\<lparr>oc_amount := ch_amount ch, oc_currency := ch_currency ch,
        oc_provider_ref := ch_ref ch, oc_order_ref := ch_order_ref ch\<rparr>)))"

definition reconcile_found :: "payment_world \<Rightarrow> time \<Rightarrow> instrument \<Rightarrow> string \<Rightarrow> provider_charge option \<Rightarrow> payment_intent
    \<Rightarrow> charge_outcome pay" where
  "reconcile_found W later ins pid found i = (case found of
     None \<Rightarrow>
       thereupon (save_in_state W later PS_FAILED i)
       (thereupon (reconciled_line W later pid (pi_execution i) (in_ref ins) (in_provider ins) ''no_charge''
          (failure_value FC_NETWORK_FAILURE))
       (give ((outcome PS_FAILED)\<lparr>oc_failure := failure_value FC_NETWORK_FAILURE\<rparr>)))
   | Some ch \<Rightarrow>
       if ch_status ch = CH_SUCCEEDED then
         andthen (trying (book W later ((charged_line ins \<lparr>ei_execution = pi_execution i, ei_idempotency = [],
             ei_approval = pi_approval i, ei_capability = [], ei_semantics = OTHER_SEMANTICS [], ei_digest = []\<rparr>
             (ch_amount ch) (ch_currency ch) i)\<lparr>lg_intent := pid, lg_provider_ref := ch_ref ch\<rparr>))) (\<lambda>r.
         case r of
           Inl e \<Rightarrow> if is_duplicate e then reconcile_succeeded W later pid ch i else fail e
         | Inr _ \<Rightarrow> reconcile_succeeded W later pid ch i)
       else if ch_status ch = CH_SCA_REQUIRED then
         give ((outcome PS_AWAITING_SCA)\<lparr>oc_failure := failure_value FC_SCA_REQUIRED\<rparr>)
       else
         thereupon (save_in_state W later PS_FAILED i)
         (thereupon (reconciled_line W later pid (pi_execution i) [] [] (charge_status_value (ch_status ch))
            (failure_value (ch_failure ch)))
         (give ((outcome PS_FAILED)\<lparr>oc_failure := failure_value (ch_failure ch)\<rparr>))))"

definition RECONCILABLE :: "payment_state list" where
  "RECONCILABLE = [PS_RECONCILE, PS_AWAITING_SCA, PS_EXECUTING]"

definition lookup_key :: "payment_world \<Rightarrow> string \<Rightarrow> string \<Rightarrow> string pay" where
  "lookup_key W eid capability = (case idempotency_key_for (pw_sha256 W) eid capability of
     Inl _ \<Rightarrow> fail (Other_error ''ValueError'' []) | Inr k \<Rightarrow> give k)"

definition reconcile :: "payment_world \<Rightarrow> payment_provider \<Rightarrow> time \<Rightarrow> (payments \<Rightarrow> payments) \<Rightarrow> string
    \<Rightarrow> charge_outcome pay" where
  "reconcile W P later others pid =
     andthen (asking (find_intent W pid)) (\<lambda>found. case found of
       None \<Rightarrow> refused ''unknown_intent''
     | Some i \<Rightarrow>
         if pi_state i \<notin> set RECONCILABLE then refused ''nothing_to_reconcile''
         else if pi_execution i = [] then refused ''no_execution_identity''
         else andthen (lookup_key W (pi_execution i) ''purchase_place'') (\<lambda>key.
           andthen (instrument_or_fail W (pi_method i)) (\<lambda>ins.
           andthen (config_or_fail P ins) (\<lambda>cfg.
           andthen (ask P cfg (in_readonly_ref ins) ''payment_reconcile'' (pi_execution i) (pi_approval i)
              (Lookup_request key) (pp_lookup P key) others) (\<lambda>r. case r of
             Reply_refused why \<Rightarrow> refused why
           | Reply_raises c \<Rightarrow> fail (Other_error c [])
           | Reply found \<Rightarrow> reconcile_found W later ins pid found i
           | _ \<Rightarrow> fail (Executor_unavailable ''payment_provider_unavailable''))))))"

section \<open>Giving money back\<close>

definition settled_or_fail :: "payment_world \<Rightarrow> payment_provider \<Rightarrow> string \<Rightarrow> (payment_intent \<times> instrument \<times> provider_config) pay" where
  "settled_or_fail W P pid =
     andthen (asking (find_intent W pid)) (\<lambda>found. case found of
       None \<Rightarrow> refused ''unknown_intent''
     | Some i \<Rightarrow>
         if pi_state i \<notin> {PS_SUCCEEDED, PS_PARTLY_REFUNDED} then refused ''not_settled''
         else andthen (instrument_or_fail W (pi_method i)) (\<lambda>ins.
           andthen (config_or_fail P ins) (\<lambda>cfg. give (i, ins, cfg))))"

definition charged_row :: "string \<Rightarrow> payments \<Rightarrow> ledger_row option" where
  "charged_row pid s = List.find (\<lambda>r. lg_event r = EV_CHARGED) (ledger pid 200 s)"

definition refund_already_booked :: "string \<Rightarrow> string \<Rightarrow> payments \<Rightarrow> bool" where
  "refund_already_booked pid ref s \<longleftrightarrow>
     (\<exists>r\<in>set (ledger pid 200 s). lg_event r = EV_REFUNDED \<and> lg_provider_ref r = ref)"

definition refunded_minor :: "string \<Rightarrow> payments \<Rightarrow> int" where
  "refunded_minor pid s =
     sum_list (map lg_amount (filter (\<lambda>r. lg_event r = EV_REFUNDED) (ledger pid 200 s)))"

definition derived_key :: "payment_world \<Rightarrow> string \<Rightarrow> string \<Rightarrow> string pay" where
  "derived_key W eid capability =
     (if eid = [] then refused ''no_execution_identity'' else lookup_key W eid capability)"

definition own_or_derived :: "payment_world \<Rightarrow> execution_identity \<Rightarrow> string \<Rightarrow> string \<Rightarrow> string \<Rightarrow> string pay" where
  "own_or_derived W own capability eid derived =
     (if usable own \<and> ei_capability own = capability then give (ei_idempotency own)
      else derived_key W eid derived)"

definition or_else :: "string \<Rightarrow> string \<Rightarrow> string" where
  "or_else a b = (if a = [] then b else a)"

text \<open>The three errors that \<open>refund\<close> and \<open>cancel_order\<close> translate alike.\<close>

definition unless_answered :: "'a reply \<Rightarrow> ('a \<Rightarrow> 'b pay) \<Rightarrow> 'b pay" where
  "unless_answered r f = (case r of
       Reply x \<Rightarrow> f x
     | Reply_unavailable \<Rightarrow> fail (Executor_unavailable ''payment_provider_unavailable'')
     | Reply_vault_away \<Rightarrow> fail (Executor_unavailable ''payment_credential_unavailable'')
     | Reply_denied why \<Rightarrow> refused why
     | Reply_refused why \<Rightarrow> refused why
     | Reply_ambiguous \<Rightarrow> refused (failure_value FC_UNKNOWN_RESULT)
     | Reply_error c \<Rightarrow> refused (failure_value c)
     | Reply_raises c \<Rightarrow> fail (Other_error c []))"

record refund_done =
  rd_intent :: string
  rd_state :: payment_state
  rd_returned :: string
  rd_back_to :: string
  rd_replayed :: bool

definition shown_name :: "instrument \<Rightarrow> string" where
  "shown_name ins = or_else (in_display_name ins) (in_ref ins)"

definition book_refund :: "payment_world \<Rightarrow> time \<Rightarrow> instrument \<Rightarrow> string \<Rightarrow> int \<Rightarrow> int \<Rightarrow> provider_refund \<Rightarrow> payment_intent
    \<Rightarrow> refund_done pay" where
  "book_refund W later ins pid booked already back i =
     andthen (asking (refund_already_booked pid (rf_ref back))) (\<lambda>known.
     if rf_ref back \<noteq> [] \<and> known then
       andthen (value_or_raise (format_amount W 0 (rf_currency back))) (\<lambda>t.
       give \<lparr>rd_intent = pid, rd_state = pi_state i, rd_returned = t, rd_back_to = shown_name ins, rd_replayed = True\<rparr>)
     else
       (let total_back = already + rf_amount back;
            st = (if total_back \<ge> booked then PS_REFUNDED else PS_PARTLY_REFUNDED)
        in thereupon (save_in_state W later st i)
           (thereupon (book W later ((ledger_line EV_REFUNDED pid)\<lparr>lg_merchant := pi_merchant i,
              lg_amount := rf_amount back, lg_currency := rf_currency back, lg_instrument := in_ref ins,
              lg_origin := pi_origin i, lg_approval := pi_approval i, lg_execution := pi_execution i,
              lg_provider := in_provider ins, lg_provider_ref := rf_ref back, lg_refund_status := rf_status back,
              lg_refunded := total_back, lg_status := payment_state_value st\<rparr>))
           (andthen (value_or_raise (format_amount W (rf_amount back) (rf_currency back))) (\<lambda>t.
           give \<lparr>rd_intent = pid, rd_state = st, rd_returned = t, rd_back_to = shown_name ins,
                 rd_replayed = False\<rparr>)))))"

definition refund :: "payment_world \<Rightarrow> payment_provider \<Rightarrow> execution_identity \<Rightarrow> time \<Rightarrow> (payments \<Rightarrow> payments) \<Rightarrow> string
    \<Rightarrow> int \<Rightarrow> refund_done pay" where
  "refund W P own later others pid amount_minor =
     andthen (settled_or_fail W P pid) (\<lambda>(i, ins, cfg).
     andthen (asking (charged_row pid)) (\<lambda>charged. case charged of
       None \<Rightarrow> refused ''nothing_charged''
     | Some row \<Rightarrow>
         andthen (asking (refunded_minor pid)) (\<lambda>already.
         (let booked = lg_amount row;
              wanted = (if amount_minor = 0 then booked - already else amount_minor)
          in if wanted \<le> 0 \<or> already + wanted > booked then refused ''amount_out_of_range''
          else andthen (own_or_derived W own ''refund_request'' (pi_execution i)
                 (''refund_request|'' @ int_text already @ ''|'' @ int_text wanted)) (\<lambda>key.
            andthen (ask P cfg (or_else (in_refund_ref ins) (in_secret_ref ins)) ''refund_request''
               (or_else (ei_execution own) (pi_execution i)) (or_else (ei_approval own) (pi_approval i))
               (Refund_request key (lg_provider_ref row) wanted)
               (pp_refund P key (lg_provider_ref row) wanted) others) (\<lambda>r.
            unless_answered r (\<lambda>back. book_refund W later ins pid booked already back i)))))))"

definition cancel_order :: "payment_world \<Rightarrow> payment_provider \<Rightarrow> execution_identity \<Rightarrow> time \<Rightarrow> (payments \<Rightarrow> payments)
    \<Rightarrow> string \<Rightarrow> unit pay" where
  "cancel_order W P own later others pid =
     andthen (settled_or_fail W P pid) (\<lambda>(i, ins, cfg).
     andthen (asking (charged_row pid)) (\<lambda>charged. case charged of
       None \<Rightarrow> refused ''nothing_charged''
     | Some row \<Rightarrow>
         andthen (own_or_derived W own ''purchase_cancel'' (pi_execution i) ''purchase_cancel'') (\<lambda>key.
         andthen (ask P cfg (or_else (in_refund_ref ins) (in_secret_ref ins)) ''purchase_cancel''
            (or_else (ei_execution own) (pi_execution i)) (or_else (ei_approval own) (pi_approval i))
            (Cancel_request key (lg_provider_ref row)) (pp_cancel P key (lg_provider_ref row)) others) (\<lambda>r.
         unless_answered r (\<lambda>_. book W later ((ledger_line EV_CANCELLED pid)\<lparr>lg_merchant := pi_merchant i,
           lg_instrument := in_ref ins, lg_execution := pi_execution i, lg_provider := in_provider ins,
           lg_status := ''order_cancelled''\<rparr>))))))"

end
