(* ===== verification/Payment_Safety.thy ===== *)
theory Payment_Safety
  imports Payment_Executor
begin

text \<open>
  What the executor of payments guarantees. The first part is a calculus of weakest preconditions for
  the computations of \<open>Payment_Executor\<close>, with one equation per construct; the second shows that every
  operation only issues statements of the store; the third follows a charge from the approval to its
  outcome.
\<close>

section \<open>Weakest preconditions\<close>

named_theorems wp_simps \<open>what a computation of the executor establishes\<close>

definition wp :: "'a pay \<Rightarrow> ('a \<Rightarrow> desk \<Rightarrow> bool) \<Rightarrow> (call_error \<Rightarrow> desk \<Rightarrow> bool) \<Rightarrow> desk \<Rightarrow> bool" where
  "wp m Q E d = (case m d of (Inl e, d') \<Rightarrow> E e d' | (Inr x, d') \<Rightarrow> Q x d')"

lemma wpD: "wp m Q E d \<Longrightarrow> m d = (r, d') \<Longrightarrow> (case r of Inl e \<Rightarrow> E e d' | Inr x \<Rightarrow> Q x d')"
  by (auto simp: wp_def split: sum.splits)

lemma wpI: "(\<And>r d'. m d = (r, d') \<Longrightarrow> case r of Inl e \<Rightarrow> E e d' | Inr x \<Rightarrow> Q x d') \<Longrightarrow> wp m Q E d"
  by (auto simp: wp_def split: prod.splits sum.splits)

lemma wp_mono:
  assumes "wp m Q E d" "\<And>x d'. Q x d' \<Longrightarrow> Q' x d'" "\<And>e d'. E e d' \<Longrightarrow> E' e d'"
  shows "wp m Q' E' d"
  using assms by (auto simp: wp_def split: prod.splits sum.splits)

lemma wp_give [wp_simps]: "wp (give x) Q E d = Q x d"
  by (simp add: wp_def give_def)

lemma wp_fail [wp_simps]: "wp (fail e) Q E d = E e d"
  by (simp add: wp_def fail_def)

lemma wp_andthen [wp_simps]: "wp (andthen m f) Q E d = wp m (\<lambda>x. wp (f x) Q E) E d"
  by (simp add: wp_def andthen_def split: prod.split sum.split)

lemma wp_thereupon [wp_simps]: "wp (thereupon m n) Q E d = wp m (\<lambda>_. wp n Q E) E d"
  by (simp add: thereupon_def wp_andthen)

lemma wp_trying [wp_simps]: "wp (trying m) Q E d = wp m (\<lambda>x. Q (Inr x)) (\<lambda>e. Q (Inl e)) d"
  by (simp add: wp_def trying_def split: prod.split sum.split)

lemma wp_asking [wp_simps]: "wp (asking f) Q E d = Q (f (dk_store d)) d"
  by (simp add: wp_def asking_def)

lemma wp_value [wp_simps]:
  "wp (value_or_raise r) Q E d = (case r of Inl e \<Rightarrow> E (as_error e) d | Inr x \<Rightarrow> Q x d)"
  by (simp add: value_or_raise_def wp_give wp_fail split: sum.split)

lemma wp_writing [wp_simps]:
  "wp (writing f) Q E d = (case f (dk_store d) of
     Inl e \<Rightarrow> E (as_error e) d | Inr s \<Rightarrow> Q () (d\<lparr>dk_store := s\<rparr>))"
  by (simp add: wp_def writing_def split: sum.split)

lemma wp_safe_failure [wp_simps]: "wp (safe_failure m) Q E d = E (Safe_execution_failure m) d"
  by (simp add: safe_failure_def wp_fail)

lemma wp_refused [wp_simps]: "wp (refused m) Q E d = E (Other_error ''PaymentRefused'' m) d"
  by (simp add: refused_def wp_fail)

lemma wp_ask [wp_simps]:
  "wp (ask P cfg secret cap eid aid req ans others) Q E d = (case obstacle P cfg secret cap eid aid of
     Some r \<Rightarrow> Q r d
   | None \<Rightarrow> Q (reply_of ans) (d\<lparr>dk_store := others (dk_store d), dk_asked := dk_asked d @ [req]\<rparr>))"
  by (simp add: wp_def ask_def split: option.split)

section \<open>Operations are sequences of statements\<close>

text \<open>A computation that changes the store by statements of the store only, wherever it ends.\<close>

definition issues :: "payment_world \<Rightarrow> 'a pay \<Rightarrow> bool" where
  "issues W m \<longleftrightarrow> (\<forall>d. payment_run W (dk_store d) (dk_store (snd (m d))))"

definition lawful :: "payment_world \<Rightarrow> (payments \<Rightarrow> payments) \<Rightarrow> bool" where
  "lawful W others \<longleftrightarrow> (\<forall>s. payment_run W s (others s))"

named_theorems issuing \<open>computations that only issue statements\<close>

lemma issues_andthen [issuing]:
  assumes "issues W m" "\<And>x. issues W (f x)"
  shows "issues W (andthen m f)"
  unfolding issues_def
proof
  fix d
  obtain r d1 where m: "m d = (r, d1)" by fastforce
  have "payment_run W (dk_store d) (dk_store d1)" using assms(1) m by (metis issues_def snd_conv)
  moreover have "payment_run W (dk_store d1) (dk_store (snd (f x d1)))" for x
    using assms(2) by (simp add: issues_def)
  ultimately show "payment_run W (dk_store d) (dk_store (snd (andthen m f d)))"
    by (cases r) (auto simp: andthen_def m intro: reaches_trans)
qed

lemma issues_thereupon [issuing]: "issues W m \<Longrightarrow> issues W n \<Longrightarrow> issues W (thereupon m n)"
  by (simp add: thereupon_def issues_andthen)

lemma issues_trying [issuing]: "issues W m \<Longrightarrow> issues W (trying m)"
  by (auto simp: issues_def trying_def split: prod.splits) (metis snd_conv)

lemma issues_pure [issuing]:
  "issues W (give x)" "issues W (fail e)" "issues W (asking f)" "issues W (value_or_raise r)"
  "issues W (safe_failure m)" "issues W (refused m)"
  by (auto simp: issues_def give_def fail_def asking_def value_or_raise_def safe_failure_def refused_def
    split: sum.split intro: reaches.start)

lemma issues_writing: "(\<And>s t. f s = Inr t \<Longrightarrow> payment_step W s t) \<Longrightarrow> issues W (writing f)"
  by (auto simp: issues_def writing_def split: sum.split intro: reaches.start reaches_one)

lemma issues_save [issuing]: "issues W (save W now i)"
  unfolding save_def by (rule issues_writing) (rule step_intent)

lemma issues_book [issuing]: "issues W (book W now r)"
  unfolding book_def by (rule issues_writing) (rule step_record)

lemma issues_touch [issuing]: "issues W (writing (\<lambda>s. Inr (touch_instrument W now ref s)))"
  by (rule issues_writing) (auto intro: step_touch)

lemma issues_ask [issuing]: "lawful W others \<Longrightarrow> issues W (ask P cfg secret cap eid aid req ans others)"
  by (auto simp: issues_def ask_def lawful_def split: option.split intro: reaches.start)

lemma issues_cases [issuing]:
  "(b \<Longrightarrow> issues W m) \<Longrightarrow> (\<not> b \<Longrightarrow> issues W n) \<Longrightarrow> issues W (if b then m else n)"
  "(\<And>x. issues W (f x)) \<Longrightarrow> issues W n \<Longrightarrow> issues W (case x of None \<Rightarrow> n | Some y \<Rightarrow> f y)"
  "(\<And>x. issues W (f x)) \<Longrightarrow> (\<And>x. issues W (g x)) \<Longrightarrow> issues W (case r of Inl y \<Rightarrow> f y | Inr y \<Rightarrow> g y)"
  "(\<And>x y. issues W (h x y)) \<Longrightarrow> issues W (case p of (x, y) \<Rightarrow> h x y)"
  by (auto split: option.split sum.split prod.split)

lemma issues_reply [issuing]:
  assumes "\<And>x. issues W (a x)" "\<And>x. issues W (b x)" "\<And>x. issues W (c x)" "issues W f" "issues W g" "issues W h"
    "\<And>x. issues W (k x)" "\<And>x. issues W (l x)"
  shows "issues W (case r of Reply x \<Rightarrow> a x | Reply_refused x \<Rightarrow> b x | Reply_denied x \<Rightarrow> c x | Reply_vault_away \<Rightarrow> f
     | Reply_unavailable \<Rightarrow> g | Reply_ambiguous \<Rightarrow> h | Reply_error x \<Rightarrow> k x | Reply_raises x \<Rightarrow> l x)"
  using assms by (cases r) auto

lemma issues_save_in_state [issuing]: "issues W (save_in_state W now st i)"
  unfolding save_in_state_def by (intro issuing)

lemma issues_instrument [issuing]: "issues W (instrument_or_fail W ref)"
  unfolding instrument_or_fail_def by (intro issuing)

lemma issues_config [issuing]: "issues W (config_or_fail P ins)"
  unfolding config_or_fail_def by (intro issuing)

lemma issues_book_charge [issuing]: "issues W (book_charge W later ins ident ch am cur i)"
  unfolding book_charge_def by (intro issuing)

lemma issues_settle [issuing]: "issues W (settle W later ins ident q ch i)"
  unfolding settle_def settle_succeeded_def Let_def by (intro issuing)

lemma issues_record_ambiguous [issuing]: "issues W (record_ambiguous W later ins ident am i)"
  unfolding record_ambiguous_def by (intro issuing)

lemma issues_held_back [issuing]: "issues W (held_back W later ins ident why i)"
  unfolding held_back_def by (intro issuing)

lemma issues_charge_running [issuing]: "lawful W others \<Longrightarrow> issues W (charge_running W P ident later others ins cfg q i)"
  unfolding charge_running_def by (intro issuing)

lemma issues_charge_checked [issuing]: "lawful W others \<Longrightarrow> issues W (charge_checked W P ident now later others q i)"
  unfolding charge_checked_def refused_safely_def charge_denied_def charge_claimed_def by (intro issuing)

lemma issues_charge [issuing]: "lawful W others \<Longrightarrow> issues W (charge W P ident now later others pid)"
  unfolding charge_def by (intro issuing)

lemma issues_lookup_key [issuing]: "issues W (lookup_key W eid cap)"
  unfolding lookup_key_def by (intro issuing)

lemma issues_reconcile [issuing]: "lawful W others \<Longrightarrow> issues W (reconcile W P later others pid)"
  unfolding reconcile_def reconcile_found_def reconcile_succeeded_def reconciled_line_def by (intro issuing)

lemma issues_settled [issuing]: "issues W (settled_or_fail W P pid)"
  unfolding settled_or_fail_def by (intro issuing)

lemma issues_own_or_derived [issuing]: "issues W (own_or_derived W own cap eid derived)"
  unfolding own_or_derived_def derived_key_def by (intro issuing)

lemma issues_refund [issuing]: "lawful W others \<Longrightarrow> issues W (refund W P own later others pid am)"
  unfolding refund_def unless_answered_def book_refund_def Let_def by (intro issuing)

lemma issues_cancel_order [issuing]: "lawful W others \<Longrightarrow> issues W (cancel_order W P own later others pid)"
  unfolding cancel_order_def unless_answered_def by (intro issuing)

lemma issues_read_extras [issuing]: "issues W (read_extras W xs)"
proof (induction xs)
  case (Cons x xs)
  show ?case unfolding read_extras.simps by (intro issuing Cons)
qed (simp add: issues_pure)

lemma issues_quote [issuing]: "lawful W others \<Longrightarrow> issues W (quote W P later others i)"
  unfolding quote_def attach_quote_def by (intro issuing)

section \<open>What reaches the provider\<close>

definition harmless :: "call_error \<Rightarrow> bool" where
  "harmless e \<longleftrightarrow> (\<exists>reason. e = Safe_execution_failure reason)"

text \<open>A computation that asks the provider nothing; with \<open>b\<close>, one that never says that nothing happened.\<close>

definition silent :: "bool \<Rightarrow> 'a pay \<Rightarrow> bool" where
  "silent b m \<longleftrightarrow> (\<forall>d. dk_asked (snd (m d)) = dk_asked d \<and> (b \<longrightarrow> (\<forall>e. fst (m d) = Inl e \<longrightarrow> \<not> harmless e)))"

named_theorems silence \<open>computations that ask nothing\<close>

lemma silentD: "silent b m \<Longrightarrow> m d = (r, d') \<Longrightarrow> dk_asked d' = dk_asked d \<and> (b \<longrightarrow> (\<forall>e. r = Inl e \<longrightarrow> \<not> harmless e))"
  by (metis silent_def fst_conv snd_conv)

lemma silentI:
  "(\<And>d r d'. m d = (r, d') \<Longrightarrow> dk_asked d' = dk_asked d \<and> (b \<longrightarrow> (\<forall>e. r = Inl e \<longrightarrow> \<not> harmless e))) \<Longrightarrow> silent b m"
  by (metis silent_def prod.collapse)

lemma silent_andthen [silence]:
  assumes "silent b m" "\<And>x. silent b (f x)"
  shows "silent b (andthen m f)"
proof (rule silentI)
  fix d r d'
  assume run: "andthen m f d = (r, d')"
  obtain r1 d1 where m: "m d = (r1, d1)" by fastforce
  from run silentD [OF assms(1) m] silentD [OF assms(2)]
  show "dk_asked d' = dk_asked d \<and> (b \<longrightarrow> (\<forall>e. r = Inl e \<longrightarrow> \<not> harmless e))"
    by (cases r1) (auto simp: andthen_def m)
qed

lemma silent_thereupon [silence]: "silent b m \<Longrightarrow> silent b n \<Longrightarrow> silent b (thereupon m n)"
  by (simp add: thereupon_def silent_andthen)

lemma silent_trying [silence]: "silent False m \<Longrightarrow> silent b (trying m)"
  by (rule silentI) (auto simp: trying_def split: prod.splits dest!: silentD)

lemma as_error_harmful: "\<not> harmless (as_error e)"
  by (cases e) (simp_all add: harmless_def)

lemma silent_pure [silence]:
  "silent b (give x)" "silent b (asking f)" "silent b (value_or_raise r)" "silent b (refused m)"
  "silent False (safe_failure m)" "silent b (fail (Other_error c m))" "silent b (fail (Ambiguous_execution m))"
  "silent b (writing g)"
  by (auto simp: silent_def give_def fail_def asking_def value_or_raise_def safe_failure_def refused_def writing_def
    as_error_harmful split: sum.split) (simp_all add: harmless_def)

lemma silent_cases [silence]:
  "(c \<Longrightarrow> silent b m) \<Longrightarrow> (\<not> c \<Longrightarrow> silent b n) \<Longrightarrow> silent b (if c then m else n)"
  "(\<And>x. silent b (f x)) \<Longrightarrow> silent b n \<Longrightarrow> silent b (case x of None \<Rightarrow> n | Some y \<Rightarrow> f y)"
  "(\<And>x. silent b (f x)) \<Longrightarrow> (\<And>x. silent b (g x)) \<Longrightarrow> silent b (case r of Inl y \<Rightarrow> f y | Inr y \<Rightarrow> g y)"
  by (auto split: option.split sum.split)

lemma silent_save [silence]: "silent b (save W now i)"
  unfolding save_def by (intro silence)

lemma silent_book [silence]: "silent b (book W now r)"
  unfolding book_def by (intro silence)

lemma silent_save_in_state [silence]: "silent b (save_in_state W now st i)"
  unfolding save_in_state_def by (intro silence)

lemma silent_instrument [silence]: "silent b (instrument_or_fail W ref)"
  unfolding instrument_or_fail_def by (intro silence)

lemma silent_record_ambiguous: "silent b (record_ambiguous W later ins ident am i)"
  unfolding record_ambiguous_def by (intro silence)

lemma silent_held_back: "silent False (held_back W later ins ident why i)"
  unfolding held_back_def by (intro silence)

lemma silent_settle:
  assumes "ch_status ch = CH_SUCCEEDED \<or> ch_status ch = CH_SCA_REQUIRED \<or> \<not> b"
  shows "silent b (settle W later ins ident q ch i)"
  using assms unfolding settle_def settle_succeeded_def book_charge_def Let_def
  by (cases b) (auto intro!: silence)

text \<open>The answers after which the program says that no money moved.\<close>

fun nothing_moved :: "provider_charge wire_answer \<Rightarrow> bool" where
  "nothing_moved Not_reached = True"
| "nothing_moved (Answers ch) = (ch_status ch \<in> {CH_DECLINED, CH_MERCHANT_FAILED, CH_PENDING})"
| "nothing_moved a = False"

lemma charge_running_asks:
  assumes "charge_running W P ident later others ins cfg q i d = (r, d')"
  defines "req \<equiv> request_for ins ident q i"
  shows "dk_asked d' = dk_asked d \<or>
    dk_asked d' = dk_asked d @ [Charge_request req] \<and> (\<forall>e. r = Inl e \<longrightarrow> harmless e \<longrightarrow> nothing_moved (pp_charge P req))"
proof (cases "obstacle P cfg (in_secret_ref ins) ''purchase_place'' (ei_execution ident) (ei_approval ident) :: provider_charge reply option")
  case None
  let ?d = "d\<lparr>dk_store := others (dk_store d), dk_asked := dk_asked d @ [Charge_request req]\<rparr>"
  show ?thesis
  proof (cases "pp_charge P req")
    case (Answers ch)
    then have run: "settle W later ins ident q ch i ?d = (r, d')"
      using assms(1) None by (simp add: charge_running_def andthen_def ask_def req_def)
    show ?thesis
    proof (cases "ch_status ch")
      case CH_SUCCEEDED
      with silentD [OF silent_settle run, of True] Answers show ?thesis by auto
    next
      case CH_SCA_REQUIRED
      with silentD [OF silent_settle run, of True] Answers show ?thesis by auto
    qed (use silentD [OF silent_settle run, of False] Answers in auto)
  next
    case Not_reached
    then show ?thesis using assms(1) None silent_save_in_state silent_book
      by (auto simp: charge_running_def andthen_def ask_def req_def thereupon_def safe_failure_def fail_def
        split: prod.splits sum.splits dest!: silentD [OF silent_save_in_state [of False]] silentD [OF silent_book [of False]])
  next
    case Unclear
    then show ?thesis using assms(1) None
      by (auto simp: charge_running_def andthen_def ask_def req_def dest!: silentD [OF silent_record_ambiguous [of True]])
  next
    case (Provider_fails c)
    then show ?thesis using assms(1) None
      by (auto simp: charge_running_def andthen_def ask_def req_def dest!: silentD [OF silent_record_ambiguous [of True]])
  next
    case (Wire_raises c)
    then show ?thesis using assms(1) None
      by (auto simp: charge_running_def andthen_def ask_def req_def fail_def harmless_def)
  qed
next
  case (Some r0)
  have "r0 \<noteq> Reply x \<and> r0 \<noteq> Reply_raises c \<and> r0 \<noteq> Reply_ambiguous \<and> r0 \<noteq> Reply_unavailable" for x c
    using Some by (auto simp: obstacle_def split: if_splits borrowing.splits)
  then show ?thesis using assms(1) Some
    by (cases r0) (auto simp: charge_running_def andthen_def ask_def
      dest!: silentD [OF silent_held_back] silentD [OF silent_record_ambiguous])
qed

lemma instrument_or_fail_run:
  assumes "instrument_or_fail W ref d = (r, d')"
  shows "d' = d \<and> (\<forall>ins. r = Inr ins \<longrightarrow> find_instrument W ref (dk_store d) = Inr (Some ins))"
  using assms by (auto simp: instrument_or_fail_def andthen_def asking_def value_or_raise_def give_def fail_def
    refused_def split: sum.splits option.splits)

lemma config_or_fail_run: "config_or_fail P ins d = (r, d') \<Longrightarrow> d' = d"
  by (auto simp: config_or_fail_def give_def fail_def refused_def split: option.splits)

lemma executing_moved:
  assumes "with_state W PS_EXECUTING (\<lambda>x. x\<lparr>pi_execution := eid, pi_approval := aid\<rparr>) i = Inr running" "intent_ok W i"
  shows "running = moved PS_EXECUTING eid aid i"
  using with_state_ok [OF assms(2) with_state_edge [OF assms(1)], of _ eid aid] assms(1)
  by (simp add: moved_def)

text \<open>How a charge gets to the wire: everything that was checked, and the two rows written before it.\<close>

lemma charge_claimed_crosses:
  assumes "charge_claimed W P ident now later others ins cfg q i d = (r, d')" "intent_ok W i" "dk_asked d' \<noteq> dk_asked d"
  defines "running \<equiv> moved PS_EXECUTING (ei_execution ident) (ei_approval ident) i"
  shows "\<exists>s1 s2. put_intent W now running (dk_store d) = Inr s1 \<and> record_line W now (claimed_line ins ident q i) s1 = Inr s2 \<and>
    charge_running W P ident later others ins cfg q running (d\<lparr>dk_store := s2\<rparr>) = (r, d')"
proof (cases "with_state W PS_EXECUTING (\<lambda>x. x\<lparr>pi_execution := ei_execution ident, pi_approval := ei_approval ident\<rparr>) i")
  case (Inl e)
  with assms(1,3) show ?thesis by (auto simp: charge_claimed_def andthen_def value_or_raise_def fail_def)
next
  case (Inr x)
  then have "x = running" unfolding running_def by (rule executing_moved [OF _ assms(2)])
  with assms(1,3) Inr show ?thesis
    by (auto simp: charge_claimed_def andthen_def thereupon_def trying_def value_or_raise_def give_def safe_failure_def
      fail_def save_def book_def writing_def split: sum.splits)
qed

lemma charge_checked_crosses:
  assumes "charge_checked W P ident now later others q i d = (r, d')" "intent_ok W i" "dk_asked d' \<noteq> dk_asked d"
  shows "\<exists>ins cfg. find_instrument W (pi_method i) (dk_store d) = Inr (Some ins) \<and>
    evaluate W ins (pq_currency q) (pi_merchant i) (pq_total q)
      (day_total (in_ref ins) (pw_iso W now) (pq_currency q) (dk_store d)) = None \<and>
    charge_claimed W P ident now later others ins cfg q i d = (r, d')"
proof -
  let ?find = "refused_safely (andthen (instrument_or_fail W (pi_method i)) (\<lambda>ins. andthen (config_or_fail P ins) (\<lambda>cfg. give (ins, cfg))))"
  obtain found d1 where find: "?find d = (found, d1)" by fastforce
  note steps = refused_safely_def andthen_def trying_def give_def fail_def safe_failure_def
  have same: "d1 = d" "found = Inr (ins, cfg) \<Longrightarrow> find_instrument W (pi_method i) (dk_store d) = Inr (Some ins)" for ins cfg
    using find by (auto simp: steps split: prod.splits sum.splits if_splits dest!: instrument_or_fail_run config_or_fail_run)
  have denied: "silent False (charge_denied W ident now ins q why i)" for ins why
    unfolding charge_denied_def by (intro silence)
  show ?thesis
    using assms(1,3) find same
    by (cases found) (auto simp: charge_checked_def andthen_def asking_def split: option.splits dest: silentD [OF denied])
qed

lemma charge_crosses:
  assumes laws: "stdlib_laws W" and run: "charge W P ident now later others pid d = (r, d')"
    and asked: "dk_asked d' \<noteq> dk_asked d"
  obtains i q ins cfg s1 s2 where "usable ident" "find_intent W pid (dk_store d) = Some i" "pi_state i = PS_APPROVED"
    "\<not> is_expired now i" "pi_quote i = Some q" "existing_charge (ei_execution ident) (dk_store d) = None"
    "find_instrument W (pi_method i) (dk_store d) = Inr (Some ins)"
    "evaluate W ins (pq_currency q) (pi_merchant i) (pq_total q)
      (day_total (in_ref ins) (pw_iso W now) (pq_currency q) (dk_store d)) = None"
    "put_intent W now (moved PS_EXECUTING (ei_execution ident) (ei_approval ident) i) (dk_store d) = Inr s1"
    "record_line W now (claimed_line ins ident q i) s1 = Inr s2"
    "charge_running W P ident later others ins cfg q (moved PS_EXECUTING (ei_execution ident) (ei_approval ident) i)
       (d\<lparr>dk_store := s2\<rparr>) = (r, d')"
proof -
  note steps = charge_def safe_failure_def fail_def andthen_def asking_def give_def
  obtain i where i: "find_intent W pid (dk_store d) = Some i"
    using run asked by (cases "find_intent W pid (dk_store d)") (auto simp: steps split: if_splits)
  have ok: "intent_ok W i" using found_live [OF laws i] by (simp add: live_intent_def)
  obtain q where q: "pi_quote i = Some q"
    using run asked i by (cases "pi_quote i") (auto simp: steps split: if_splits)
  have checks: "usable ident" "pi_state i = PS_APPROVED" "\<not> is_expired now i"
      "existing_charge (ei_execution ident) (dk_store d) = None"
    and checked: "charge_checked W P ident now later others q i d = (r, d')"
    using run asked i q by (auto simp: steps split: if_splits option.splits)
  from charge_checked_crosses [OF checked ok asked] obtain ins cfg
    where ins: "find_instrument W (pi_method i) (dk_store d) = Inr (Some ins)"
      "evaluate W ins (pq_currency q) (pi_merchant i) (pq_total q)
        (day_total (in_ref ins) (pw_iso W now) (pq_currency q) (dk_store d)) = None"
    and claimed: "charge_claimed W P ident now later others ins cfg q i d = (r, d')" by blast
  from charge_claimed_crosses [OF claimed ok asked] ins checks i q that show thesis by blast
qed

lemma moved_request: "request_for ins ident q (moved st eid aid i) = request_for ins ident q i"
  by (simp add: request_for_def moved_def)

section \<open>What the store knows of a running charge\<close>

text \<open>The row of an intent is this object, and its texts have passed the fence.\<close>

definition kept :: "payment_world \<Rightarrow> payment_intent \<Rightarrow> payments \<Rightarrow> bool" where
  "kept W i s \<longleftrightarrow> stored W i s \<and> \<not> reason_for W (pi_purpose i) \<and> (\<forall>x\<in>set (pi_items i). \<not> reason_for W (li_description x))"

lemma kept_state:
  assumes "kept W i s" "moved st eid aid i = j"
  obtains t where "put_intent W now j s = Inr t" "kept W j t" "py_ledger t = py_ledger s"
    "py_instruments t = py_instruments s"
proof -
  have j: "pi_purpose j = pi_purpose i" "pi_items j = pi_items i" "pi_id j = pi_id i" "intent_terms j = intent_terms i"
    using assms(2) by (auto simp: moved_def intent_terms_def)
  with assms(1) obtain t where t: "put_intent W now j s = Inr t"
    by (auto simp: kept_def put_intent_def)
  have "live_intent W j" using assms live_moved by (auto simp: kept_def stored_def)
  moreover have "intent_terms (tr_intent old) = intent_terms j"
    if "by_key row_pid (pi_id j) (py_intents s) = Some old" for old
    using that assms(1) j by (auto simp: kept_def stored_def)
  ultimately have "stored W j t" by (rule put_intent_stored [OF t])
  with assms(1) j have "kept W j t" by (simp add: kept_def)
  with t put_intent_Inr [OF t] that show thesis by simp
qed

lemma stored_other_table: "py_intents t = py_intents s \<Longrightarrow> stored W i t = stored W i s"
  by (simp add: stored_def)

lemma kept_other_table: "py_intents t = py_intents s \<Longrightarrow> kept W i t = kept W i s"
  by (simp add: kept_def stored_def)

text \<open>The statements of the executor on a row that is kept.\<close>

lemma wp_save_in_state:
  assumes "kept W i (dk_store d)" "can_transition (pi_state i) st"
    and "\<And>s. kept W (i\<lparr>pi_state := st\<rparr>) s \<Longrightarrow> py_ledger s = py_ledger (dk_store d) \<Longrightarrow>
      py_instruments s = py_instruments (dk_store d) \<Longrightarrow> Q () (d\<lparr>dk_store := s\<rparr>)"
  shows "wp (save_in_state W now st i) Q E d"
proof -
  have ok: "intent_ok W i" using assms(1) by (simp add: kept_def stored_def live_intent_def)
  have m: "moved st (pi_execution i) (pi_approval i) i = i\<lparr>pi_state := st\<rparr>" by (simp add: moved_def)
  obtain t where "put_intent W now (i\<lparr>pi_state := st\<rparr>) (dk_store d) = Inr t" "kept W (i\<lparr>pi_state := st\<rparr>) t"
    "py_ledger t = py_ledger (dk_store d)" "py_instruments t = py_instruments (dk_store d)"
    by (rule kept_state [OF assms(1) m])
  with assms(3) show ?thesis
    by (simp add: save_in_state_def save_def wp_simps with_state_id [OF ok assms(2)])
qed

lemma wp_book:
  assumes "\<And>s row. py_intents s = py_intents (dk_store d) \<Longrightarrow> py_instruments s = py_instruments (dk_store d) \<Longrightarrow>
      py_ledger s = py_ledger (dk_store d) @ [row] \<Longrightarrow>
      row = r\<lparr>lg_at := pw_iso W now, lg_description := take_points 400 (lg_description r),
              lg_provider_ref := take_points 128 (lg_provider_ref r)\<rparr> \<Longrightarrow> Q () (d\<lparr>dk_store := s\<rparr>)"
    and "E (as_error Material_refused) d"
    and "indexed_charge r \<Longrightarrow> lg_execution r \<in> set (charged_execution_ids (dk_store d)) \<Longrightarrow> E (as_error Duplicate_charge) d"
  shows "wp (book W now r) Q E d"
proof (cases "record_line W now r (dk_store d)")
  case (Inl e)
  have "e = Material_refused \<or> e = Duplicate_charge \<and> indexed_charge r \<and> lg_execution r \<in> set (charged_execution_ids (dk_store d))"
    using Inl by (auto simp: record_line_def check_def Let_def charged_execution_ids_def indexed_charge_def split: if_splits)
      (auto intro!: rev_image_eqI)
  with Inl assms(2,3) show ?thesis by (auto simp: book_def wp_simps)
next
  case (Inr t)
  show ?thesis
  proof (rule record_line_Inr [OF Inr], goal_cases)
    case (1 row)
    have "Q () (d\<lparr>dk_store := t\<rparr>)" by (rule assms(1) [OF _ _ _ 1(2)]) (simp_all add: 1(1))
    with Inr show ?case by (simp add: book_def wp_simps)
  qed
qed

lemma duplicate_class: "is_duplicate (Other_error c m) \<longleftrightarrow> c = ''DuplicateCharge''"
  by (simp add: is_duplicate_def)

text \<open>
  Nobody can overlook the charge: the payment is listed as open, or it has succeeded and the book
  holds its charge.
\<close>

definition accounted :: "payment_intent \<Rightarrow> string \<Rightarrow> payment_world \<Rightarrow> payments \<Rightarrow> bool" where
  "accounted i eid W s \<longleftrightarrow> (\<exists>st. kept W (i\<lparr>pi_state := st\<rparr>) s \<and>
     (st \<in> {PS_EXECUTING, PS_RECONCILE, PS_AWAITING_SCA} \<or> st = PS_SUCCEEDED \<and> eid \<in> set (charged_execution_ids s)))"

lemma accountedI:
  "kept W (i\<lparr>pi_state := st\<rparr>) s \<Longrightarrow>
   st \<in> {PS_EXECUTING, PS_RECONCILE, PS_AWAITING_SCA} \<or> st = PS_SUCCEEDED \<and> eid \<in> set (charged_execution_ids s) \<Longrightarrow>
   accounted i eid W s"
  by (auto simp: accounted_def)

lemma wp_record_ambiguous:
  assumes "kept W i (dk_store d)" "pi_state i = PS_EXECUTING"
  shows "wp (record_ambiguous W later ins ident am i) (\<lambda>_ d'. accounted i eid W (dk_store d'))
    (\<lambda>_ d'. accounted i eid W (dk_store d')) d"
  unfolding record_ambiguous_def wp_simps
proof (rule wp_save_in_state [OF assms(1)], goal_cases)
  case (2 s)
  have open_now: "accounted i eid W t" if "py_intents t = py_intents s" for t eid
    by (rule accountedI [where st = PS_RECONCILE]) (use 2(1) kept_other_table [OF that] in simp_all)
  show ?case by (rule wp_book) (simp_all add: open_now)
qed (simp add: assms(2) can_transition_def)

lemma wp_book_charge:
  assumes kept: "kept W i (dk_store d)" and state: "pi_state i = PS_EXECUTING" and eid: "ei_execution ident \<noteq> []"
    and ok: "\<And>s. kept W i s \<Longrightarrow> ei_execution ident \<in> set (charged_execution_ids s) \<Longrightarrow> Q None (d\<lparr>dk_store := s\<rparr>)"
    and old: "\<And>s c. kept W i s \<Longrightarrow> Q (Some c) (d\<lparr>dk_store := s\<rparr>)"
    and lost: "\<And>e s. kept W (i\<lparr>pi_state := PS_RECONCILE\<rparr>) s \<Longrightarrow> E e (d\<lparr>dk_store := s\<rparr>)"
  shows "wp (book_charge W later ins ident ch am cur i) Q E d"
proof -
  let ?eid = "ei_execution ident"
  let ?line = "charged_line ins ident am cur i"
  have line: "lg_execution ?line = ?eid" "indexed_charge ?line" using eid by (simp_all add: charged_line_def indexed_charge_def ledger_line_def)
  have booked: "Q None (d\<lparr>dk_store := s\<rparr>)"
    if "py_intents s = py_intents (dk_store d)" "py_ledger s = py_ledger (dk_store d) @ [row]"
      "lg_event row = EV_CHARGED" "lg_execution row = ?eid" for s row
  proof (rule ok)
    show "kept W i s" using kept by (simp add: kept_other_table [OF that(1)])
    show "?eid \<in> set (charged_execution_ids s)"
      using that(2-4) eid by (simp add: charged_execution_ids_def indexed_charge_def)
  qed
  have known: "Q (existing_charge ?eid (dk_store d)) d" if "?eid \<in> set (charged_execution_ids (dk_store d))"
    using ok [OF kept that] old [OF kept] by (cases "existing_charge ?eid (dk_store d)") simp_all
  let ?again = "andthen (trying (book W later ?line)) (\<lambda>r2. case r2 of
      Inr _ \<Rightarrow> give None
    | Inl e2 \<Rightarrow> if is_duplicate e2 then asking (existing_charge ?eid)
        else thereupon (save_in_state W later PS_RECONCILE i) (fail (Ambiguous_execution ''purchase_place_unbookable'')))"
  have second: "wp ?again Q E d"
    unfolding wp_simps
  proof (rule wp_book, goal_cases)
    case (1 s row)
    then show ?case using booked [of s row] by (simp add: wp_simps charged_line_def ledger_line_def)
  next
    case 2
    have "wp (save_in_state W later PS_RECONCILE i) (\<lambda>_. wp (fail (Ambiguous_execution ''purchase_place_unbookable'')) Q E) E d"
      by (rule wp_save_in_state [OF kept]) (simp_all add: state can_transition_def wp_simps lost)
    then show ?case by (simp add: duplicate_class wp_thereupon)
  next
    case 3
    with line known show ?case by (simp add: duplicate_class wp_simps)
  qed
  show ?thesis unfolding book_charge_def wp_andthen wp_trying
  proof (rule wp_book, goal_cases)
    case (1 s row)
    then show ?case using booked [of s row] by (simp add: wp_simps charged_line_def ledger_line_def)
  next
    case 2
    from second show ?case by (simp add: duplicate_class)
  next
    case 3
    with line known show ?case by (simp add: duplicate_class wp_simps indexed_charge_def)
  qed
qed

lemma wp_settle:
  assumes kept: "kept W i (dk_store d)" and state: "pi_state i = PS_EXECUTING" and eid: "ei_execution ident \<noteq> []"
    and charged: "ch_status ch = CH_SUCCEEDED \<or> ch_status ch = CH_SCA_REQUIRED"
  defines "ok \<equiv> \<lambda>d'. accounted i (ei_execution ident) W (dk_store d')"
  shows "wp (settle W later ins ident q ch i) (\<lambda>_. ok) (\<lambda>_. ok) d"
proof (cases "ch_status ch = CH_SUCCEEDED")
  case True
  have running: "ok (d\<lparr>dk_store := s\<rparr>)" if "kept W i s" for s
  proof -
    have "i\<lparr>pi_state := PS_EXECUTING\<rparr> = i" using state by (cases i) simp
    with that show ?thesis by (auto simp: ok_def intro: accountedI [where st = PS_EXECUTING])
  qed
  have "wp (settle_succeeded W later ins ident ch am cur i) (\<lambda>_. ok) (\<lambda>_. ok) d" for am cur
    unfolding settle_succeeded_def wp_andthen
  proof (rule wp_book_charge [OF kept state eid], goal_cases)
    case (1 s)
    let ?s = "touch_instrument W later (in_ref ins) s"
    have same: "py_intents ?s = py_intents s" "py_ledger ?s = py_ledger s" by (simp_all add: touch_instrument_def)
    have "wp (save_in_state W later PS_SUCCEEDED i) (\<lambda>_. ok) (\<lambda>_. ok) (d\<lparr>dk_store := ?s\<rparr>)"
    proof (rule wp_save_in_state, goal_cases)
      case 1
      with \<open>kept W i s\<close> same show ?case using kept_other_table [OF same(1)] by simp
    next
      case (3 t)
      then have "ei_execution ident \<in> set (charged_execution_ids t)"
        using \<open>ei_execution ident \<in> _\<close> same by (simp add: charged_execution_ids_def)
      with 3 show ?case by (auto simp: ok_def intro: accountedI)
    qed (simp add: state can_transition_def)
    then show ?case
      by (simp add: wp_thereupon wp_writing) (erule wp_mono; simp add: wp_simps split: sum.split)
  next
    case (2 s c)
    then show ?case by (simp add: wp_simps running)
  next
    case (3 e s)
    then show ?case by (auto simp: ok_def intro: accountedI)
  qed
  with True show ?thesis by (simp add: settle_def Let_def)
next
  case False
  with charged have sca: "ch_status ch = CH_SCA_REQUIRED" by simp
  have "wp (thereupon (save_in_state W later PS_AWAITING_SCA i) (thereupon (book W later r) (fail e :: charge_outcome pay))) (\<lambda>_. ok) (\<lambda>_. ok) d" for r e
    unfolding wp_simps
  proof (rule wp_save_in_state [OF kept], goal_cases)
    case (2 s)
    have open_now: "ok (d\<lparr>dk_store := t\<rparr>)" if "py_intents t = py_intents s" for t
      unfolding ok_def by (rule accountedI [where st = PS_AWAITING_SCA])
        (use 2(1) kept_other_table [OF that] in simp_all)
    show ?case by (rule wp_book) (simp_all add: open_now)
  qed (simp add: state can_transition_def)
  with sca show ?thesis by (simp add: settle_def Let_def)
qed

lemma wp_both: "wp m (\<lambda>_. R) (\<lambda>_. R) d \<Longrightarrow> m d = (r, d') \<Longrightarrow> R d'"
  by (drule (1) wpD) (simp split: sum.splits)

lemma usable_execution: "usable ident \<Longrightarrow> ei_execution ident \<noteq> []"
  by (simp add: usable_def)

lemma charge_running_accounted:
  assumes run: "charge_running W P ident later others ins cfg q i d = (r, d')"
    and kept: "kept W i (others (dk_store d))" and state: "pi_state i = PS_EXECUTING" and eid: "ei_execution ident \<noteq> []"
    and asked: "dk_asked d' \<noteq> dk_asked d" and moved: "\<not> nothing_moved (pp_charge P (request_for ins ident q i))"
  shows "accounted i (ei_execution ident) W (dk_store d')"
proof (cases "obstacle P cfg (in_secret_ref ins) ''purchase_place'' (ei_execution ident) (ei_approval ident) :: provider_charge reply option")
  case None
  let ?d = "d\<lparr>dk_store := others (dk_store d), dk_asked := dk_asked d @ [Charge_request (request_for ins ident q i)]\<rparr>"
  have kept': "kept W i (dk_store ?d)" using kept by simp
  note ambiguous = wp_both [OF wp_record_ambiguous [OF kept' state]]
  show ?thesis
  proof (cases "pp_charge P (request_for ins ident q i)")
    case (Answers ch)
    then have "settle W later ins ident q ch i ?d = (r, d')"
      using run None by (simp add: charge_running_def andthen_def ask_def)
    moreover have "ch_status ch = CH_SUCCEEDED \<or> ch_status ch = CH_SCA_REQUIRED"
      using moved Answers by (cases "ch_status ch") auto
    ultimately show ?thesis using wp_both [OF wp_settle [OF kept' state eid]] by blast
  next
    case (Wire_raises c)
    then have "d' = ?d" using run None by (simp add: charge_running_def andthen_def ask_def fail_def)
    moreover have "i\<lparr>pi_state := PS_EXECUTING\<rparr> = i" using state by (cases i) simp
    ultimately show ?thesis using kept' by (auto intro: accountedI [where st = PS_EXECUTING])
  qed (use run None moved ambiguous in \<open>auto simp: charge_running_def andthen_def ask_def\<close>)
next
  case (Some r0)
  have "r0 \<noteq> Reply x \<and> r0 \<noteq> Reply_raises c \<and> r0 \<noteq> Reply_ambiguous \<and> r0 \<noteq> Reply_unavailable" for x c
    using Some by (auto simp: obstacle_def split: if_splits borrowing.splits)
  then show ?thesis using run Some asked
    by (cases r0) (auto simp: charge_running_def andthen_def ask_def
      dest!: silentD [OF silent_held_back] silentD [OF silent_record_ambiguous])
qed

section \<open>A charge to compute with\<close>

definition demo_identity :: execution_identity where
  "demo_identity = \<lparr>ei_execution = ''exec-1'', ei_idempotency = ''key-1'', ei_approval = ''ap-1'',
     ei_capability = ''purchase_place'', ei_semantics = OTHER_SEMANTICS [], ei_digest = []\<rparr>"

definition demo_config :: provider_config where
  "demo_config = \<lparr>pc_name = ''sandbox'', pc_kind = ''sandbox'', pc_base_url = ''http://127.0.0.1:8099''\<rparr>"

definition demo_provider :: "provider_charge wire_answer \<Rightarrow> payment_provider" where
  "demo_provider a = \<lparr>pp_config = (\<lambda>n. if n = ''sandbox'' then Some demo_config else None),
     pp_address_ok = (\<lambda>_. True), pp_borrow = (\<lambda>_ _ _ _ _. Lent), pp_quote = (\<lambda>_. Unclear),
     pp_charge = (\<lambda>_. a), pp_lookup = (\<lambda>_. Unclear), pp_refund = (\<lambda>_ _ _. Unclear), pp_cancel = (\<lambda>_ _. Unclear)\<rparr>"

definition demo_answer :: "charge_status \<Rightarrow> provider_charge" where
  "demo_answer st = \<lparr>ch_status = st, ch_ref = ''ch-1'', ch_amount = 8999, ch_currency = ''EUR'',
     ch_failure = (if st = CH_SUCCEEDED then FC_NONE else FC_DECLINED), ch_order_ref = ''order-1''\<rparr>"

definition demo_desk :: desk where
  "demo_desk = \<lparr>dk_store = demo_payments, dk_asked = []\<rparr>"

definition demo_charge :: "provider_charge wire_answer \<Rightarrow> (call_error + charge_outcome) \<times> desk" where
  "demo_charge a = charge plain_world (demo_provider a) demo_identity 0 0 id ''pi-1'' demo_desk"

lemma plain_fence: "reason_for plain_world t = False"
  by (simp add: reason_for_def plain_world_def)

lemma plain_iso: "pw_iso plain_world now = ''2026-08-30T12:00:00+00:00''"
  by (simp add: plain_world_def)

definition demo_running :: payment_intent where
  "demo_running = moved PS_EXECUTING ''exec-1'' ''ap-1'' demo_intent"

lemma demo_running_kept: "kept plain_world demo_running (demo_payments\<lparr>py_intents :=
    [\<lparr>tr_intent = demo_running, tr_updated_at = ''2026-08-30T12:00:00+00:00''\<rparr>], py_ledger := l\<rparr>)"
  by (simp add: kept_def stored_def demo_running_def live_moved [OF demo_intent_live] plain_fence by_key_Cons)

lemma demo_put: "put_intent plain_world 0 demo_running demo_payments =
    Inr (demo_payments\<lparr>py_intents := [\<lparr>tr_intent = demo_running, tr_updated_at = ''2026-08-30T12:00:00+00:00''\<rparr>]\<rparr>)"
proof -
  have same: "pi_id demo_running = pi_id demo_intent" by (simp add: demo_running_def moved_def)
  have "merge_intent \<lparr>tr_intent = demo_intent, tr_updated_at = u\<rparr> \<lparr>tr_intent = demo_running, tr_updated_at = v\<rparr> =
      \<lparr>tr_intent = demo_running, tr_updated_at = v\<rparr>" for u v
    by (simp add: merge_intent_def Let_def demo_running_def moved_def)
  then have "upsert row_pid merge_intent \<lparr>tr_intent = demo_running, tr_updated_at = v\<rparr> [\<lparr>tr_intent = demo_intent, tr_updated_at = u\<rparr>] =
      [\<lparr>tr_intent = demo_running, tr_updated_at = v\<rparr>]" for u v
    by (simp add: upsert_def update_where_def same)
  then show ?thesis by (simp add: put_intent_def plain_fence plain_iso demo_payments_def)
qed

lemma demo_claim_line: "record_line plain_world 0 (claimed_line demo_instrument demo_identity demo_quote demo_intent) s =
    Inr (s\<lparr>py_ledger := py_ledger s @ [(claimed_line demo_instrument demo_identity demo_quote demo_intent)\<lparr>
      lg_at := ''2026-08-30T12:00:00+00:00'',
      lg_description := take_points 400 ''Stativ'', lg_provider_ref := take_points 128 (take_points 12 ''key-1'')\<rparr>]\<rparr>)"
  by (simp add: record_line_def plain_fence plain_iso claimed_line_def ledger_line_def demo_identity_def demo_intent_def
    indexed_charge_def)

lemma demo_crosses:
  "\<exists>l. demo_charge a = charge_running plain_world (demo_provider a) demo_identity 0 id demo_instrument demo_config
     demo_quote demo_running (demo_desk\<lparr>dk_store := demo_payments\<lparr>py_intents :=
       [\<lparr>tr_intent = demo_running, tr_updated_at = ''2026-08-30T12:00:00+00:00''\<rparr>], py_ledger := l\<rparr>\<rparr>)"
proof -
  have found: "find_intent plain_world ''pi-1'' demo_payments = Some demo_intent"
    using stored_found [OF demo_stored] by (simp add: demo_intent_def)
  have ins: "find_instrument plain_world (pi_method demo_intent) demo_payments = Inr (Some demo_instrument)"
    using demo_found by (simp add: demo_intent_def)
  have pays: "evaluate plain_world demo_instrument (pq_currency demo_quote) (pi_merchant demo_intent) (pq_total demo_quote)
      (day_total (in_ref demo_instrument) (pw_iso plain_world 0) (pq_currency demo_quote) demo_payments) = None"
    using demo_evaluate [of demo_instrument 8999 0]
    by (simp add: demo_instrument_def demo_quote_def demo_intent_def day_total_def demo_payments_def)
  have "intent_ok plain_world demo_intent" using demo_intent_live by (simp add: live_intent_def)
  then have running: "with_state plain_world PS_EXECUTING
      (\<lambda>x. x\<lparr>pi_execution := ''exec-1'', pi_approval := ''ap-1''\<rparr>) demo_intent = Inr demo_running"
    unfolding demo_running_def by (rule with_state_ok) (simp_all add: demo_intent_def can_transition_def moved_def)
  have idle: "existing_charge ''exec-1'' demo_payments = None" "usable demo_identity" "pi_state demo_intent = PS_APPROVED"
    "\<not> is_expired 0 demo_intent" "pi_quote demo_intent = Some demo_quote"
    "ei_execution demo_identity = ''exec-1''" "ei_approval demo_identity = ''ap-1''"
    by (simp_all add: existing_charge_def ledger_def demo_payments_def usable_def demo_identity_def demo_intent_def
      is_expired_def)
  have config: "pp_config (demo_provider a) (in_provider demo_instrument) = Some demo_config"
    by (simp add: demo_provider_def demo_instrument_def)
  let ?s = "demo_payments\<lparr>py_intents := [\<lparr>tr_intent = demo_running, tr_updated_at = ''2026-08-30T12:00:00+00:00''\<rparr>]\<rparr>"
  let ?run = "\<lambda>l. charge_running plain_world (demo_provider a) demo_identity 0 id demo_instrument demo_config
     demo_quote demo_running (demo_desk\<lparr>dk_store := ?s\<lparr>py_ledger := l\<rparr>\<rparr>)"
  have desk: "dk_store demo_desk = demo_payments" by (simp add: demo_desk_def)
  have checked: "demo_charge a = charge_checked plain_world (demo_provider a) demo_identity 0 0 id demo_quote demo_intent demo_desk"
    by (simp add: demo_charge_def charge_def andthen_def asking_def desk found idle)
  have claimed: "charge_checked plain_world (demo_provider a) demo_identity 0 0 id demo_quote demo_intent demo_desk =
      charge_claimed plain_world (demo_provider a) demo_identity 0 0 id demo_instrument demo_config demo_quote
      demo_intent demo_desk"
    by (simp add: charge_checked_def refused_safely_def instrument_or_fail_def config_or_fail_def andthen_def trying_def
      asking_def value_or_raise_def give_def desk ins pays config)
  have "\<exists>l. charge_claimed plain_world (demo_provider a) demo_identity 0 0 id demo_instrument demo_config demo_quote
      demo_intent demo_desk = ?run l"
    by (rule exI) (simp add: charge_claimed_def andthen_def thereupon_def trying_def value_or_raise_def give_def save_def
      book_def writing_def desk running demo_put demo_claim_line idle)
  then show ?thesis unfolding checked claimed .
qed

lemma charge_running_sends:
  assumes "obstacle P cfg (in_secret_ref ins) ''purchase_place'' (ei_execution ident) (ei_approval ident) = (None :: provider_charge reply option)"
  shows "dk_asked (snd (charge_running W P ident later others ins cfg q i d)) =
    dk_asked d @ [Charge_request (request_for ins ident q i)]"
proof -
  have "silent False (case r of
       Reply_denied why \<Rightarrow> held_back W later ins ident why i
     | Reply_vault_away \<Rightarrow> held_back W later ins ident [] i
     | Reply_refused why \<Rightarrow> held_back W later ins ident why i
     | Reply_unavailable \<Rightarrow>
         thereupon (save_in_state W later PS_FAILED i)
         (thereupon (book W later ((ledger_line EV_FAILED (pi_id i))\<lparr>lg_execution := ei_execution ident,
            lg_failure := failure_value FC_PROVIDER_UNAVAILABLE, lg_instrument := in_ref ins\<rparr>))
         (safe_failure ''provider_unavailable''))
     | Reply_ambiguous \<Rightarrow> record_ambiguous W later ins ident (pq_total q) i
     | Reply_error c \<Rightarrow> record_ambiguous W later ins ident (pq_total q) i
     | Reply_raises c \<Rightarrow> fail (Other_error c [])
     | Reply ch \<Rightarrow> settle W later ins ident q ch i)" for r
    by (cases r) (auto intro!: silence silent_held_back silent_record_ambiguous silent_settle)
  then show ?thesis using assms
    by (simp add: charge_running_def andthen_def ask_def silent_def)
qed

lemma demo_obstacle: "obstacle (demo_provider a) demo_config (in_secret_ref demo_instrument) c e p = None"
  by (simp add: obstacle_def demo_provider_def demo_instrument_def demo_config_def)

lemma demo_asked:
  "dk_asked (snd (demo_charge a)) = [Charge_request \<lparr>cr_key = ''key-1'', cr_token = ''pm_1'', cr_merchant = ''sandbox-shop'',
     cr_amount = 8999, cr_currency = ''EUR'', cr_quote_ref = ''q-1'', cr_description = ''Stativ''\<rparr>]"
proof -
  have "request_for demo_instrument demo_identity demo_quote demo_running =
      \<lparr>cr_key = ''key-1'', cr_token = ''pm_1'', cr_merchant = ''sandbox-shop'',
       cr_amount = 8999, cr_currency = ''EUR'', cr_quote_ref = ''q-1'', cr_description = ''Stativ''\<rparr>"
    by (simp add: demo_running_def moved_request) (simp add: request_for_def demo_identity_def demo_instrument_def
      demo_quote_def demo_intent_def)
  moreover obtain l where "demo_charge a = charge_running plain_world (demo_provider a) demo_identity 0 id demo_instrument
      demo_config demo_quote demo_running (demo_desk\<lparr>dk_store := demo_payments\<lparr>py_intents :=
       [\<lparr>tr_intent = demo_running, tr_updated_at = ''2026-08-30T12:00:00+00:00''\<rparr>], py_ledger := l\<rparr>\<rparr>)"
    using demo_crosses by blast
  ultimately show ?thesis
    by (simp add: charge_running_sends [OF demo_obstacle]) (simp add: demo_desk_def)
qed

section \<open>What a charge guarantees\<close>

text \<open>
  C17: The provider is asked to move money at most once per call of \<open>charge\<close>, and only for what was
  approved: there is an execution identity, the stored intent was \<open>approved\<close>, not expired and quoted, no
  charge of this execution was in the book, the instrument allows this merchant, currency and amount
  today, and the request carries the quoted amount and currency, the merchant of the intent, the token
  of the instrument and the idempotency key of the execution.
\<close>

theorem charge_asks_for_what_was_approved:
  assumes "stdlib_laws W" "charge W P ident now later others pid d = (r, d')"
  shows "dk_asked d' = dk_asked d \<or> (\<exists>i q ins. usable ident \<and> find_intent W pid (dk_store d) = Some i \<and>
    pi_state i = PS_APPROVED \<and> \<not> is_expired now i \<and> pi_quote i = Some q \<and>
    existing_charge (ei_execution ident) (dk_store d) = None \<and>
    find_instrument W (pi_method i) (dk_store d) = Inr (Some ins) \<and>
    evaluate W ins (pq_currency q) (pi_merchant i) (pq_total q)
      (day_total (in_ref ins) (pw_iso W now) (pq_currency q) (dk_store d)) = None \<and>
    dk_asked d' = dk_asked d @ [Charge_request \<lparr>cr_key = ei_idempotency ident, cr_token = in_token ins,
      cr_merchant = pi_merchant i, cr_amount = pq_total q, cr_currency = pq_currency q, cr_quote_ref = pq_ref q,
      cr_description = pi_purpose i\<rparr>])"
proof (cases "dk_asked d' = dk_asked d")
  case False
  show ?thesis
  proof (rule charge_crosses [OF assms False], goal_cases)
    case (1 i q ins cfg s1 s2)
    then have "dk_asked d' = dk_asked d @ [Charge_request (request_for ins ident q i)]"
      using charge_running_asks [OF 1(11)] False by (auto simp: moved_request)
    with 1 show ?case unfolding request_for_def by blast
  qed
qed simp

theorem charge_asks_for_what_was_approved_witness:
  "\<exists>i q. find_intent plain_world ''pi-1'' demo_payments = Some i \<and> pi_state i = PS_APPROVED \<and> pi_quote i = Some q \<and>
     pq_total q = 8999 \<and> pi_merchant i = ''sandbox-shop'' \<and> length (dk_asked (snd (demo_charge (Answers (demo_answer CH_SUCCEEDED))))) = 1"
proof -
  have "demo_charge (Answers (demo_answer CH_SUCCEEDED)) =
      (fst (demo_charge (Answers (demo_answer CH_SUCCEEDED))), snd (demo_charge (Answers (demo_answer CH_SUCCEEDED))))"
    by simp
  from charge_asks_for_what_was_approved [OF plain_world_laws this [unfolded demo_charge_def], folded demo_charge_def]
  show ?thesis by (auto simp: demo_asked demo_desk_def)
qed


lemma plain_record:
  assumes "\<not> indexed_charge r"
  obtains row where "record_line plain_world now r s = Inr (s\<lparr>py_ledger := py_ledger s @ [row]\<rparr>)"
  using assms that [of "r\<lparr>lg_at := pw_iso plain_world now, lg_description := take_points 400 (lg_description r),
      lg_provider_ref := take_points 128 (lg_provider_ref r)\<rparr>"]
  by (simp add: record_line_def plain_fence indexed_charge_def Let_def)

lemma demo_turned_down:
  assumes "st \<noteq> CH_SUCCEEDED" "st \<noteq> CH_SCA_REQUIRED"
  shows "fst (demo_charge (Answers (demo_answer st))) = Inl (Safe_execution_failure ''declined'') \<and>
    kept plain_world (demo_running\<lparr>pi_state := PS_FAILED\<rparr>) (dk_store (snd (demo_charge (Answers (demo_answer st)))))"
proof -
  let ?P = "demo_provider (Answers (demo_answer st))"
  let ?fin = "\<lambda>d'. kept plain_world (demo_running\<lparr>pi_state := PS_FAILED\<rparr>) (dk_store d')"
  obtain l where run: "demo_charge (Answers (demo_answer st)) = charge_running plain_world ?P demo_identity 0 id demo_instrument
      demo_config demo_quote demo_running (demo_desk\<lparr>dk_store := demo_payments\<lparr>py_intents :=
       [\<lparr>tr_intent = demo_running, tr_updated_at = ''2026-08-30T12:00:00+00:00''\<rparr>], py_ledger := l\<rparr>\<rparr>)"
    (is "_ = charge_running _ _ _ _ _ _ _ _ _ ?d")
    using demo_crosses by blast
  have answer: "pp_charge ?P req = Answers (demo_answer st)" for req by (simp add: demo_provider_def)
  have step: "wp (thereupon (book plain_world 0 r) (thereupon (save_in_state plain_world 0 PS_FAILED demo_running) (safe_failure m)))
      (\<lambda>_ _. False) (\<lambda>e d'. e = Safe_execution_failure m \<and> ?fin d') d"
    if plain: "\<not> indexed_charge r" and kept: "kept plain_world demo_running (dk_store d)" for r m d
  proof -
    obtain row where row: "record_line plain_world 0 r (dk_store d) =
        Inr ((dk_store d)\<lparr>py_ledger := py_ledger (dk_store d) @ [row]\<rparr>)"
      by (rule plain_record [OF plain])
    have "kept plain_world demo_running ((dk_store d)\<lparr>py_ledger := py_ledger (dk_store d) @ [row]\<rparr>)"
      using kept by (simp add: kept_def stored_def)
    then show ?thesis unfolding book_def wp_thereupon wp_writing row
      by (simp, intro wp_save_in_state) (simp_all add: demo_running_def moved_def can_transition_def wp_safe_failure)
  qed
  have status: "ch_status (demo_answer st) = st" "failure_value (ch_failure (demo_answer st)) = ''declined''"
    using assms by (simp_all add: demo_answer_def)
  have "wp (settle plain_world 0 demo_instrument demo_identity demo_quote (demo_answer st) demo_running)
      (\<lambda>_ _. False) (\<lambda>e d'. e = Safe_execution_failure ''declined'' \<and> ?fin d') d"
    if "kept plain_world demo_running (dk_store d)" for d
    unfolding settle_def Let_def status if_not_P [OF assms(1)] if_not_P [OF assms(2)]
    by (rule step) (use that in \<open>simp_all add: indexed_charge_def ledger_line_def\<close>)
  then have "wp (charge_running plain_world ?P demo_identity 0 id demo_instrument demo_config demo_quote demo_running)
      (\<lambda>_ _. False) (\<lambda>e d'. e = Safe_execution_failure ''declined'' \<and> ?fin d') ?d"
    unfolding charge_running_def wp_andthen wp_ask demo_obstacle answer
    by (simp add: demo_running_kept)
  then show ?thesis unfolding run
    by (auto simp: wp_def split: prod.splits sum.splits)
qed


text \<open>
  The exception is a status that says neither: a charge the provider calls \<open>pending\<close> may still succeed,
  and is reported as if nothing had happened; its intent is \<open>failed\<close>, which is final.
\<close>

lemma pending_charge_is_reported_as_harmless:
  "fst (demo_charge (Answers (demo_answer CH_PENDING))) = Inl (Safe_execution_failure ''declined'') \<and>
   find_intent plain_world ''pi-1'' (dk_store (snd (demo_charge (Answers (demo_answer CH_PENDING))))) =
     Some (demo_running\<lparr>pi_state := PS_FAILED\<rparr>) \<and> PS_FAILED \<in> set PAYMENT_TERMINAL"
proof -
  have "pi_id (demo_running\<lparr>pi_state := PS_FAILED\<rparr>) = ''pi-1''" by (simp add: demo_running_def moved_def demo_intent_def)
  with demo_turned_down [of CH_PENDING] stored_found [of plain_world "demo_running\<lparr>pi_state := PS_FAILED\<rparr>"] show ?thesis
    by (simp add: kept_def PAYMENT_TERMINAL_def)
qed

lemma kept_open:
  assumes "kept W i s" "pi_state i \<in> {PS_RECONCILE, PS_AWAITING_SCA, PS_EXECUTING}"
  shows "pi_id i \<in> set (map fst (open_reconciliations s))"
proof -
  obtain row where "by_key row_pid (pi_id i) (py_intents s) = Some row" "tr_intent row = i"
    using assms(1) by (auto simp: kept_def stored_def)
  then have "row \<in> set (py_intents s)" "tr_intent row = i" by (auto dest: by_key_SomeD)
  with assms(2) show ?thesis by (force simp: open_reconciliations_def)
qed



end
