(* ===== verification/Spec2Isabelle.thy ===== *)
theory Spec2Isabelle
  imports Coordinator_Recovery Router_Safety Proactive_Scheduler Payment_Safety
begin

text \<open>
  The approval, execution and policy core of SOLVIO, a home assistant whose model proposes actions and
  whose owner confirms the consequential ones on an iPhone. The development is a shallow embedding of
  the Python code under \<open>src/src/solvio\<close>; every definition is executable, and every property of the
  manifest is checked once more at a concrete input by its witness.

  \<^bold>\<open>The parts and how they interact.\<close> A call of a capability enters the router (\<open>capabilities/router.py\<close>).
  The router checks the arguments and the authority of the caller (\<open>capabilities/contract.py\<close>,
  \<open>contracts/trust.py\<close>), asks the policy (\<open>capabilities/policy.py\<close>) and, for a background task, the
  permission bound to it (\<open>capabilities/preauth.py\<close>). If a human is needed it goes through the gateway
  (\<open>capabilities/approval_gateway.py\<close>), which renders the action into a text, lets the control plane
  (\<open>security/mobile_approval/control.py\<close>) store it as a request, and later resumes it through the
  coordinator (\<open>bridge.py\<close>). The device signs a challenge (\<open>protocol.py\<close>, \<open>attest_protocol.py\<close>), the
  control plane verifies it and commits the decision to the store (\<open>store.py\<close>), and the coordinator
  passes it through the broker in memory (\<open>security/approval.py\<close>) and runs the executor behind a durable
  boundary, with a journal that a restart recovers from (\<open>execution.py\<close>). Background tasks are kept,
  scheduled and run by \<open>proactive\<close>. A purchase is an intent of \<open>payment\<close> whose economic digest is part
  of what the human confirms; the executor of payments moves the money behind the same boundary.

  \<^bold>\<open>Theories.\<close>
  \<^item> \<open>Prelude\<close>, \<open>Encoding\<close>, \<open>Json\<close>, \<open>Json_Canonical\<close>: results and exceptions, tables as lists of rows with
    the SQL statements on them, transactions, reachability under a step relation (locale \<open>state_graph\<close>
    and its siblings), base64 and hex, canonical JSON texts and what they determine.
  \<^item> \<open>Execution\<close>, \<open>Approval_Broker\<close>, \<open>Protocol\<close>: execution semantics and identities, the broker and its
    invariant, payloads with their builders and validators.
  \<^item> \<open>Store_Schema\<close> to \<open>Store_Recovery\<close>: the eight tables of the approval store and one definition per
    transaction; \<open>Store_Reach\<close> puts them together as the relation \<open>store_step\<close> and proves the invariant
    \<open>store_inv\<close> and what every later database keeps (\<open>store_evolves\<close>).
  \<^item> \<open>Control_Plane\<close>, \<open>Coordinator\<close>, \<open>Coordinator_Safety\<close>, \<open>Coordinator_Recovery\<close>: the handlers above the
    store, the run of an approved action, the startup scan and the on-demand recovery.
  \<^item> \<open>Capability_Contract\<close>, \<open>Capability_Policy\<close>, \<open>Preauthorization\<close>: trust, risk, the decision matrix, the
    one relaxation of it.
  \<^item> \<open>Approval_Render\<close>, \<open>Approval_Gateway\<close>, \<open>Capability_Router\<close>, \<open>Router_Safety\<close>: the confirmed text, asking,
    withdrawing and resuming, the pipeline of a call and what it guarantees.
  \<^item> \<open>Proactive_Store\<close>, \<open>Proactive_Register\<close>, \<open>Proactive_Schedule\<close>, \<open>Proactive_Scheduler\<close>: the tables of the
    background tasks and their refinement to an abstract register, the schedules, the scheduler.
  \<^item> \<open>Payment_Text\<close>, \<open>Payment_Intent\<close>, \<open>Payment_Instrument\<close>: references, merchants, amounts, intents with their
    states and digest, instruments with their limits (\<open>payment/refs.py\<close>, \<open>merchant.py\<close>, \<open>intent.py\<close>,
    \<open>instruments.py\<close>). \<open>Payment_Store\<close>: the three tables with one definition per statement, the relation
    \<open>payment_step\<close> and its invariant. \<open>Payment_Executor\<close>, \<open>Payment_Safety\<close>: the computations of
    \<open>payment/executor.py\<close> in a small monad of store, request log and exceptions, a calculus of weakest
    preconditions for it, and what a charge guarantees.

  \<^bold>\<open>How state and time are modelled.\<close> A database is a record of tables, a transaction a function that
  leaves the state alone when it raises. Python text is its UTF-8 bytes, a float point in time is a
  real, a random token is an argument. An \<open>async\<close> handler awaits between transactions; what other
  connections do to the database there is the function \<open>others\<close> (lawful if it only does steps of the
  store), the time read there is \<open>clock i\<close>, and what other tasks of the process do to the router is
  \<open>turn i\<close>. All theorems about handlers hold for every such interleaving. Calls of an executor and of a
  handler are part of the result, so that the theorems can count them.

  \<^bold>\<open>What the lemma groups show.\<close> Store: a decision, a claim and an execution need live authority in the
  same transaction, an action succeeds at most once, a spent nonce, a final decision and a revocation
  stay. Coordinator: an executor only ever gets what was confirmed, what is recorded is what is known,
  a recovery never runs a second effect. Texts: one digest stands for one action unless the hash
  collides. Policy and router: nothing runs without authority, without its approval, or with
  arguments outside its schema. Background tasks: an occasion runs at most once, permissions do not
  outlive their task, catching up terminates. Payments: one digest stands for one purchase, an execution
  is charged once, the provider is asked only for what was approved, a possible charge stays in sight.

  \<^bold>\<open>Parameters.\<close> SHA-256, signature and certificate checks, \<open>json.loads\<close>, the time zone data, Python's text
  of a float, the recogniser of credentials (\<open>memory/intent.py\<close>), the executor, the reconciler, the
  runner of a background task, the payment provider and the vault, Unicode and URL functions of Python, handlers, describers and classifiers. Properties of them are named
  hypotheses (\<open>prints_floats\<close>, \<open>lawful_zone\<close>, \<open>stdlib_laws\<close>, a collision as an alternative of the conclusion).

  \<^bold>\<open>Bounds.\<close> No fuel is used. The one loop whose end is not structural, catching up missed occasions, has
  a termination proof from the code's own limit of 1000 occasions; \<open>decimal\<close> recurses on a quotient.

  \<^bold>\<open>Not modelled.\<close> The creation and migration of the database files, connections and locks; the wire
  transport of the approvals; the pairing and the admin command line; CBOR and the certificate chain
  of App Attest; a cancellation from outside of a running handler; and the rest of the assistant
  (voice, memory, knowledge, portals, telephony, browser, agents, self-repair), which the manifest lists
  part by part with the reason.
\<close>

end
